(* ===== verification/Mconf_Prelude.thy ===== *)
theory Mconf_Prelude
  imports Main "HOL-Library.Word" "HOL-Library.Monad_Syntax"
begin

text \<open>
  Prelude of the microconf development: the machine types, the byte-addressed memory that the C
  code reads and writes through pointers, and the generic lemmas on lists, options and words that
  every component shares.

  The convention for undefined behaviour is fixed here. A C object (a configuration struct, a
  caller's buffer, an array on the stack) is a list of bytes, and a nullable pointer is an option.
  An operation of the model returns \<open>None\<close> exactly where the C code would dereference a null
  pointer or read or write outside an object, and \<open>Some\<close> of its result otherwise. A theorem that
  an operation returns \<open>Some\<close> is therefore a memory-safety statement.
\<close>

unbundle bit_operations_syntax

section \<open>Machine types\<close>

type_synonym byte = "8 word"
type_synonym uint16 = "16 word"
type_synonym uint32 = "32 word"

text \<open>\<open>size_t\<close> of a 64-bit target. Every operator on it wraps at \<open>2 ^ 64\<close>, as in C.\<close>

type_synonym size_t = "64 word"

named_theorems mem_simps \<open>facts about reading and writing memory\<close>
named_theorems word_nat \<open>facts that move size arithmetic from words to natural numbers\<close>

section \<open>Memory\<close>

definition arr_get :: "'a list \<Rightarrow> nat \<Rightarrow> 'a option" where
  "arr_get xs i = (if i < length xs then Some (xs ! i) else None)"

definition mem_read :: "byte list \<Rightarrow> nat \<Rightarrow> nat \<Rightarrow> byte list option" where
  "mem_read m off n = (if off + n \<le> length m then Some (take n (drop off m)) else None)"

definition mem_write :: "byte list \<Rightarrow> nat \<Rightarrow> byte list \<Rightarrow> byte list option" where
  "mem_write m off bs =
     (if off + length bs \<le> length m
      then Some (take off m @ bs @ drop (off + length bs) m) else None)"

text \<open>The pure halves, for statements about what memory holds.\<close>

definition chunk :: "'a list \<Rightarrow> nat \<Rightarrow> nat \<Rightarrow> 'a list" where
  "chunk m off n = take n (drop off m)"

definition patch :: "'a list \<Rightarrow> nat \<Rightarrow> 'a list \<Rightarrow> 'a list" where
  "patch m off bs = take off m @ bs @ drop (off + length bs) m"

lemma arr_get_Some [mem_simps]: "i < length xs \<Longrightarrow> arr_get xs i = Some (xs ! i)"
  by (simp add: arr_get_def)

lemma arr_get_eq_Some: "arr_get xs i = Some x \<longleftrightarrow> i < length xs \<and> x = xs ! i"
  by (auto simp: arr_get_def)

lemma mem_read_Some [mem_simps]: "off + n \<le> length m \<Longrightarrow> mem_read m off n = Some (chunk m off n)"
  by (simp add: mem_read_def chunk_def)

lemma mem_read_eq_Some: "mem_read m off n = Some bs \<longleftrightarrow> off + n \<le> length m \<and> bs = chunk m off n"
  by (auto simp: mem_read_def chunk_def)

lemma mem_write_Some [mem_simps]:
  "off + length bs \<le> length m \<Longrightarrow> mem_write m off bs = Some (patch m off bs)"
  by (simp add: mem_write_def patch_def)

lemma mem_write_eq_Some:
  "mem_write m off bs = Some m' \<longleftrightarrow> off + length bs \<le> length m \<and> m' = patch m off bs"
  by (auto simp: mem_write_def patch_def)

lemma length_chunk [simp]: "off + n \<le> length m \<Longrightarrow> length (chunk m off n) = n"
  by (simp add: chunk_def)

lemma length_patch [simp]: "off + length bs \<le> length m \<Longrightarrow> length (patch m off bs) = length m"
  by (simp add: patch_def)

lemma patch_Nil [simp]: "patch m off [] = m"
  by (simp add: patch_def)

lemma chunk_0 [simp]: "chunk m off 0 = []"
  by (simp add: chunk_def)

lemma chunk_all [simp]: "chunk m 0 (length m) = m"
  by (simp add: chunk_def)

lemma chunk_nth: "off + n \<le> length m \<Longrightarrow> i < n \<Longrightarrow> chunk m off n ! i = m ! (off + i)"
  by (simp add: chunk_def)

lemma nth_patch:
  assumes "off + length bs \<le> length m" and "i < length m"
  shows "patch m off bs ! i = (if off \<le> i \<and> i < off + length bs then bs ! (i - off) else m ! i)"
  using assms by (auto simp: patch_def nth_append min_def)

lemma chunk_patch_same [simp]:
  "off + length bs \<le> length m \<Longrightarrow> chunk (patch m off bs) off (length bs) = bs"
  by (simp add: chunk_def patch_def)

lemma chunk_patch_eq:
  "off + length bs \<le> length m \<Longrightarrow> n = length bs \<Longrightarrow> chunk (patch m off bs) off n = bs"
  by simp

text \<open>Reads of a range that a write does not touch.\<close>

lemma chunk_patch_other:
  assumes "off + length bs \<le> length m" and "o2 + n \<le> length m"
    and "o2 + n \<le> off \<or> off + length bs \<le> o2"
  shows "chunk (patch m off bs) o2 n = chunk m o2 n"
proof (rule nth_equalityI)
  show "length (chunk (patch m off bs) o2 n) = length (chunk m o2 n)"
    using assms by simp
  fix i assume "i < length (chunk (patch m off bs) o2 n)"
  then have "i < n" using assms by simp
  then show "chunk (patch m off bs) o2 n ! i = chunk m o2 n ! i"
    using assms by (auto simp: chunk_nth nth_patch)
qed

lemma patch_append:
  assumes "off + length (xs @ ys) \<le> length m"
  shows "patch (patch m off xs) (off + length xs) ys = patch m off (xs @ ys)"
  using assms by (simp add: patch_def ac_simps)

text \<open>A write inside the range of an earlier one.\<close>

lemma patch_within:
  assumes "off + length xs \<le> length m" and "i + length ys \<le> length xs"
  shows "patch (patch m off xs) (off + i) ys = patch m off (patch xs i ys)"
proof (rule nth_equalityI)
  show "length (patch (patch m off xs) (off + i) ys) = length (patch m off (patch xs i ys))"
    using assms by simp
  fix j assume "j < length (patch (patch m off xs) (off + i) ys)"
  then have "j < length m" using assms by simp
  then show "patch (patch m off xs) (off + i) ys ! j = patch m off (patch xs i ys) ! j"
    using assms by (auto simp: nth_patch)
qed

lemma chunk_append:
  "off + n + k \<le> length m \<Longrightarrow> chunk m off (n + k) = chunk m off n @ chunk m (off + n) k"
  by (simp add: chunk_def take_add add.commute [of n off])

lemma chunk_chunk:
  "i + k \<le> n \<Longrightarrow> off + n \<le> length m \<Longrightarrow> chunk (chunk m off n) i k = chunk m (off + i) k"
  by (simp add: chunk_def take_drop add.commute min_def)

lemma chunk_single: "off < length m \<Longrightarrow> chunk m off (Suc 0) = [m ! off]"
  by (simp add: chunk_def take_Suc hd_drop_conv_nth)

lemma patch_chunk_self [simp]: "off + n \<le> length m \<Longrightarrow> patch m off (chunk m off n) = m"
  by (simp add: patch_def chunk_def)
     (metis append_take_drop_id add.commute drop_drop)

section \<open>Sizes\<close>

lemma unat_add_no_wrap [word_nat]:
  fixes a b :: "'a::len word"
  assumes "unat a + unat b < 2 ^ LENGTH('a)"
  shows "unat (a + b) = unat a + unat b"
  using assms by (simp add: unat_add_lem [symmetric])

lemma unat_add_wrap_iff:
  fixes a b :: "'a::len word"
  shows "a + b < a \<longleftrightarrow> 2 ^ LENGTH('a) \<le> unat a + unat b"
  by (metis (no_types) linorder_not_le no_olen_add_nat word_le_nat_alt not_less)

lemma unat_le_bound: "unat (a::size_t) \<le> unat b \<Longrightarrow> unat a < 2 ^ 64"
  using unsigned_less [of a, where ?'a = nat] by simp

lemma size_t_bound: "unat (a::size_t) < 18446744073709551616"
  using unsigned_less [of a, where ?'a = nat] by simp

lemma unat_of_nat_size [word_nat]:
  "n < 18446744073709551616 \<Longrightarrow> unat (of_nat n :: size_t) = n"
  by (simp add: unat_of_nat)

lemma unat_add_le [word_nat]:
  fixes a b :: size_t
  assumes "unat a + unat b \<le> unat (c::size_t)"
  shows "unat (a + b) = unat a + unat b"
  using assms size_t_bound [of c] by (simp add: unat_add_no_wrap)

section \<open>Options as results\<close>

lemma bind_Some_iff:
  "Option.bind m f = Some y \<longleftrightarrow> (\<exists>x. m = Some x \<and> f x = Some y)"
  by (rule Option.bind_eq_Some_conv)

end
