(* ===== verification/Mconf_Types.thy ===== *)
theory Mconf_Types
  imports Mconf_Prelude
begin

text \<open>
  The public data of microconf (include/mconf.h, include/mconf_config.h): the build configuration,
  the error codes and type identifiers with their names, and the structs for schema entries,
  schemas and contexts. Pointers are options; a pointer to an array is the list of its elements.
\<close>

section \<open>Build configuration and platform\<close>

text \<open>
  \<open>MAX_ENTRIES\<close> to \<open>ENABLE_FLOAT\<close> are the macros of mconf_config.h. The last two fields describe
  the platform: whether the byte order is little-endian (the \<open>le_test\<close> probe) and whether
  \<open>float\<close> is IEEE binary32 (the \<open>FLT_*\<close> tests). Every operation that depends on one of them takes the
  configuration as its first argument, so the theorems hold for every build.
\<close>

record mconf_config =
  MAX_ENTRIES :: size_t
  MAX_KEY_LEN :: size_t
  ENABLE_NAMES :: bool
  ENABLE_FLOAT :: bool
  little_endian :: bool
  float_is_binary32 :: bool

definition default_config :: mconf_config where
  "default_config = \<lparr>MAX_ENTRIES = 64, MAX_KEY_LEN = 48, ENABLE_NAMES = True, ENABLE_FLOAT = True,
     little_endian = True, float_is_binary32 = True\<rparr>"

section \<open>Error codes\<close>

datatype mconf_err =
    MCONF_OK
  | MCONF_ERR_NULL
  | MCONF_ERR_NOT_FOUND
  | MCONF_ERR_TYPE
  | MCONF_ERR_SIZE
  | MCONF_ERR_CRC
  | MCONF_ERR_MAGIC
  | MCONF_ERR_VERSION
  | MCONF_ERR_IO
  | MCONF_ERR_INVALID
  | MCONF_ERR_RANGE
  | MCONF_ERR_UNSUPPORTED
  | MCONF_ERR_UNINITIALIZED
  | MCONF_ERR_CONFLICT

text \<open>The \<open>mconf_err_t\<close> value that the header gives each constant.\<close>

fun mconf_err_code :: "mconf_err \<Rightarrow> int" where
  "mconf_err_code MCONF_OK = 0"
| "mconf_err_code MCONF_ERR_NULL = -1"
| "mconf_err_code MCONF_ERR_NOT_FOUND = -2"
| "mconf_err_code MCONF_ERR_TYPE = -3"
| "mconf_err_code MCONF_ERR_SIZE = -4"
| "mconf_err_code MCONF_ERR_CRC = -5"
| "mconf_err_code MCONF_ERR_MAGIC = -6"
| "mconf_err_code MCONF_ERR_VERSION = -7"
| "mconf_err_code MCONF_ERR_IO = -8"
| "mconf_err_code MCONF_ERR_INVALID = -9"
| "mconf_err_code MCONF_ERR_RANGE = -10"
| "mconf_err_code MCONF_ERR_UNSUPPORTED = -11"
| "mconf_err_code MCONF_ERR_UNINITIALIZED = -12"
| "mconf_err_code MCONF_ERR_CONFLICT = -13"

definition mconf_err_str :: "int \<Rightarrow> string" where
  "mconf_err_str err =
     (if err = 0 then ''ok''
      else if err = -1 then ''null argument''
      else if err = -2 then ''not found''
      else if err = -3 then ''type mismatch''
      else if err = -4 then ''size mismatch''
      else if err = -5 then ''crc mismatch''
      else if err = -6 then ''invalid magic''
      else if err = -7 then ''version mismatch''
      else if err = -8 then ''io failure''
      else if err = -9 then ''invalid state''
      else if err = -10 then ''range error''
      else if err = -11 then ''unsupported''
      else if err = -12 then ''uninitialized''
      else if err = -13 then ''conflict''
      else ''unknown'')"

text \<open>
  The codes order the constants, so that the library's order and its automation apply to them.
\<close>

lemma mconf_err_code_inject: "mconf_err_code a = mconf_err_code b \<longleftrightarrow> a = b"
  by (cases a; cases b) simp_all

instantiation mconf_err :: linorder
begin

definition less_eq_mconf_err :: "mconf_err \<Rightarrow> mconf_err \<Rightarrow> bool" where
  "less_eq_mconf_err a b \<longleftrightarrow> mconf_err_code a \<le> mconf_err_code b"

definition less_mconf_err :: "mconf_err \<Rightarrow> mconf_err \<Rightarrow> bool" where
  "less_mconf_err a b \<longleftrightarrow> mconf_err_code a < mconf_err_code b"

instance
  by standard (auto simp: less_eq_mconf_err_def less_mconf_err_def mconf_err_code_inject)

end

section \<open>Type identifiers\<close>

text \<open>\<open>mconf_type_t\<close> is a \<open>uint8_t\<close>: a schema may hold any value, known or not.\<close>

type_synonym mconf_type = "8 word"

abbreviation MCONF_TYPE_BOOL :: mconf_type where "MCONF_TYPE_BOOL \<equiv> 1"
abbreviation MCONF_TYPE_U8 :: mconf_type where "MCONF_TYPE_U8 \<equiv> 2"
abbreviation MCONF_TYPE_I8 :: mconf_type where "MCONF_TYPE_I8 \<equiv> 3"
abbreviation MCONF_TYPE_U16 :: mconf_type where "MCONF_TYPE_U16 \<equiv> 4"
abbreviation MCONF_TYPE_I16 :: mconf_type where "MCONF_TYPE_I16 \<equiv> 5"
abbreviation MCONF_TYPE_U32 :: mconf_type where "MCONF_TYPE_U32 \<equiv> 6"
abbreviation MCONF_TYPE_I32 :: mconf_type where "MCONF_TYPE_I32 \<equiv> 7"
abbreviation MCONF_TYPE_FLOAT32 :: mconf_type where "MCONF_TYPE_FLOAT32 \<equiv> 8"
abbreviation MCONF_TYPE_STRING :: mconf_type where "MCONF_TYPE_STRING \<equiv> 9"
abbreviation MCONF_TYPE_BLOB :: mconf_type where "MCONF_TYPE_BLOB \<equiv> 10"

definition mconf_type_name :: "mconf_type \<Rightarrow> string" where
  "mconf_type_name ty =
     (if ty = MCONF_TYPE_BOOL then ''bool''
      else if ty = MCONF_TYPE_U8 then ''u8''
      else if ty = MCONF_TYPE_I8 then ''i8''
      else if ty = MCONF_TYPE_U16 then ''u16''
      else if ty = MCONF_TYPE_I16 then ''i16''
      else if ty = MCONF_TYPE_U32 then ''u32''
      else if ty = MCONF_TYPE_I32 then ''i32''
      else if ty = MCONF_TYPE_FLOAT32 then ''float32''
      else if ty = MCONF_TYPE_STRING then ''string''
      else if ty = MCONF_TYPE_BLOB then ''blob''
      else ''unknown'')"

definition mconf_is_scalar_type :: "mconf_type \<Rightarrow> bool" where
  "mconf_is_scalar_type ty \<longleftrightarrow> MCONF_TYPE_BOOL \<le> ty \<and> ty \<le> MCONF_TYPE_FLOAT32"

definition mconf_expected_type_size :: "mconf_type \<Rightarrow> size_t" where
  "mconf_expected_type_size ty =
     (if ty = MCONF_TYPE_BOOL \<or> ty = MCONF_TYPE_U8 \<or> ty = MCONF_TYPE_I8 then 1
      else if ty = MCONF_TYPE_U16 \<or> ty = MCONF_TYPE_I16 then 2
      else if ty = MCONF_TYPE_U32 \<or> ty = MCONF_TYPE_I32 \<or> ty = MCONF_TYPE_FLOAT32 then 4
      else 0)"

text \<open>A type identifier that the header defines.\<close>

definition known_type :: "mconf_type \<Rightarrow> bool" where
  "known_type ty \<longleftrightarrow> MCONF_TYPE_BOOL \<le> ty \<and> ty \<le> MCONF_TYPE_BLOB"

lemma nat_cases_le10: "1 \<le> n \<Longrightarrow> n \<le> 10 \<Longrightarrow> n \<in> {1, 2, 3, 4, 5, 6, 7, 8, 9, 10 :: nat}"
  by (simp only: insert_iff empty_iff) arith

lemma byte_cases_le10:
  fixes ty :: "8 word"
  assumes "1 \<le> ty" and "ty \<le> 10"
  shows "ty \<in> {1, 2, 3, 4, 5, 6, 7, 8, 9, 10}"
proof -
  have "unat ty \<in> {1, 2, 3, 4, 5, 6, 7, 8, 9, 10}"
    using assms nat_cases_le10 [of "unat ty"] by (simp add: word_le_nat_alt)
  moreover have "ty = of_nat (unat ty)" by simp
  ultimately show ?thesis
    by (metis (mono_tags, opaque_lifting) insert_iff empty_iff of_nat_numeral of_nat_1)
qed

lemma known_type_cases:
  "known_type ty \<longleftrightarrow> mconf_is_scalar_type ty \<or> ty = MCONF_TYPE_STRING \<or> ty = MCONF_TYPE_BLOB"
proof
  assume "known_type ty"
  then show "mconf_is_scalar_type ty \<or> ty = MCONF_TYPE_STRING \<or> ty = MCONF_TYPE_BLOB"
    using byte_cases_le10 [of ty] by (auto simp: known_type_def mconf_is_scalar_type_def)
next
  assume "mconf_is_scalar_type ty \<or> ty = MCONF_TYPE_STRING \<or> ty = MCONF_TYPE_BLOB"
  then show "known_type ty"
    by (auto simp: known_type_def mconf_is_scalar_type_def elim: order_trans)
qed

lemma scalar_type_cases:
  "mconf_is_scalar_type ty \<longleftrightarrow> ty \<in> {1, 2, 3, 4, 5, 6, 7, 8}"
proof
  assume "mconf_is_scalar_type ty"
  then have le: "1 \<le> ty" "ty \<le> 8"
    by (simp_all add: mconf_is_scalar_type_def)
  then have "ty \<le> 10" by (auto elim: order_trans)
  with le show "ty \<in> {1, 2, 3, 4, 5, 6, 7, 8}"
    using byte_cases_le10 [of ty] by auto
qed (auto simp: mconf_is_scalar_type_def)

lemma scalar_type_size: "mconf_is_scalar_type ty \<longleftrightarrow> mconf_expected_type_size ty \<noteq> 0"
  by (auto simp: scalar_type_cases mconf_expected_type_size_def)

section \<open>Structs\<close>

text \<open>
  \<open>key\<close> is a C string (the characters before its NUL). \<open>default_value\<close> is a pointer to an object of
  the client; the list is the whole object, which may be longer or shorter than \<open>default_size\<close> says.
\<close>

record mconf_entry =
  key :: "string option"
  offset :: size_t
  entry_size :: size_t
  entry_type :: mconf_type
  default_value :: "byte list option"
  default_size :: size_t

record mconf_schema =
  entries :: "mconf_entry list option"
  entry_count :: size_t
  schema_version :: uint32
  schema_data_size :: size_t

text \<open>
  The context points to its schema and to the caller's configuration struct; the bytes of that
  struct are carried in the field \<open>ctx_data\<close>.
\<close>

record mconf_ctx =
  ctx_schema :: "mconf_schema option"
  ctx_data :: "byte list option"
  ctx_data_size :: size_t
  schema_fingerprint :: uint32
  initialized :: bool

text \<open>\<open>sizeof(mconf_t)\<close> on a 64-bit target: two pointers, a \<open>size_t\<close>, a \<open>uint32_t\<close> and a \<open>bool\<close>.\<close>

definition sizeof_mconf_t :: size_t where
  "sizeof_mconf_t = 32"

text \<open>
  A \<open>const void *\<close> argument of a setter: null, an object of the caller, or a pointer into the
  context's own data at an offset (the setters use \<open>memmove\<close>, so the source may overlap the field).
\<close>

datatype src_ptr = NullPtr | ExtPtr "byte list" | DataPtr nat

fun src_read :: "byte list \<Rightarrow> src_ptr \<Rightarrow> nat \<Rightarrow> nat \<Rightarrow> byte list option" where
  "src_read d NullPtr i n = None"
| "src_read d (ExtPtr bs) i n = mem_read bs i n"
| "src_read d (DataPtr off) i n = mem_read d (off + i) n"

section \<open>Properties\<close>

text \<open>
  The names that \<open>mconf_err_str\<close> gives the error codes are pairwise distinct and never the fallback
  \<open>unknown\<close>, so a printed name identifies the error.
\<close>

lemma err_str_injective:
  "mconf_err_str (mconf_err_code a) = mconf_err_str (mconf_err_code b) \<longleftrightarrow> a = b"
  by (cases a; cases b) (simp_all add: mconf_err_str_def)

lemma err_str_known: "mconf_err_str (mconf_err_code a) \<noteq> ''unknown''"
  by (cases a) (simp_all add: mconf_err_str_def)

text \<open>
  \<open>mconf_err_str\<close> gives every error code of the header a name of its own, and every other number the
  name \<open>unknown\<close>: a printed name identifies the error.
\<close>

theorem err_str_identifies:
  "(mconf_err_str (mconf_err_code a) = mconf_err_str (mconf_err_code b) \<longleftrightarrow> a = b) \<and>
   (mconf_err_str n = ''unknown'' \<longleftrightarrow> (\<nexists>e. n = mconf_err_code e))"
proof
  show "mconf_err_str (mconf_err_code a) = mconf_err_str (mconf_err_code b) \<longleftrightarrow> a = b"
    by (rule err_str_injective)
  show "mconf_err_str n = ''unknown'' \<longleftrightarrow> (\<nexists>e. n = mconf_err_code e)"
  proof
    assume "\<nexists>e. n = mconf_err_code e"
    then have "n \<noteq> mconf_err_code e" for e by blast
    from this [of MCONF_OK] this [of MCONF_ERR_NULL] this [of MCONF_ERR_NOT_FOUND] this [of MCONF_ERR_TYPE]
      this [of MCONF_ERR_SIZE] this [of MCONF_ERR_CRC] this [of MCONF_ERR_MAGIC] this [of MCONF_ERR_VERSION]
      this [of MCONF_ERR_IO] this [of MCONF_ERR_INVALID] this [of MCONF_ERR_RANGE]
      this [of MCONF_ERR_UNSUPPORTED] this [of MCONF_ERR_UNINITIALIZED] this [of MCONF_ERR_CONFLICT]
    show "mconf_err_str n = ''unknown''" by (simp add: mconf_err_str_def)
  qed (auto simp: err_str_known)
qed

end
