(* ===== verification/Mconf_Crc.thy ===== *)
theory Mconf_Crc
  imports Mconf_Types
begin

text \<open>
  The checksum of the storage format and the hash of the schema fingerprint (src/mconf.c, lines 81
  to 135): the reflected CRC-32 computed one bit at a time, and the FNV-1a mixing step. The lemmas
  show that the bit step is linear and injective over exclusive or, from which error detection
  follows: a record that differs only within four consecutive bytes never has the same CRC.
\<close>

section \<open>The bit step and the byte step\<close>

text \<open>The body of the loop over \<open>bit_index\<close>.\<close>

definition crc32_bit_step :: "uint32 \<Rightarrow> uint32" where
  "crc32_bit_step v =
     (if v AND 1 \<noteq> 0 then drop_bit 1 v XOR 0xEDB88320 else drop_bit 1 v)"

fun crc32_bit_loop :: "nat \<Rightarrow> uint32 \<Rightarrow> uint32" where
  "crc32_bit_loop 0 v = v"
| "crc32_bit_loop (Suc n) v = crc32_bit_loop n (crc32_bit_step v)"

definition mconf_crc32_update_byte :: "uint32 \<Rightarrow> byte \<Rightarrow> uint32" where
  "mconf_crc32_update_byte crc b = crc32_bit_loop 8 (crc XOR ucast b)"

definition mconf_crc32_finalize :: "uint32 \<Rightarrow> uint32" where
  "mconf_crc32_finalize crc = crc XOR 0xFFFFFFFF"

text \<open>The loops that feed bytes \<open>index ..< index + n\<close> of an object into the running CRC.\<close>

fun crc32_update_range :: "byte list \<Rightarrow> nat \<Rightarrow> nat \<Rightarrow> uint32 \<Rightarrow> uint32 option" where
  "crc32_update_range bytes index 0 crc = Some crc"
| "crc32_update_range bytes index (Suc n) crc =
     do { b \<leftarrow> arr_get bytes index;
          crc32_update_range bytes (Suc index) n (mconf_crc32_update_byte crc b) }"

definition mconf_crc32 :: "byte list \<Rightarrow> size_t \<Rightarrow> uint32 option" where
  "mconf_crc32 bytes size' =
     do { crc \<leftarrow> crc32_update_range bytes 0 (unat size') 0xFFFFFFFF;
          Some (mconf_crc32_finalize crc) }"

text \<open>The running CRC over a whole list of bytes, and the CRC of a list.\<close>

definition crc_bytes :: "uint32 \<Rightarrow> byte list \<Rightarrow> uint32" where
  "crc_bytes crc bs = foldl mconf_crc32_update_byte crc bs"

definition crc32_of :: "byte list \<Rightarrow> uint32" where
  "crc32_of bs = mconf_crc32_finalize (crc_bytes 0xFFFFFFFF bs)"

lemma crc_bytes_Nil [simp]: "crc_bytes c [] = c"
  by (simp add: crc_bytes_def)

lemma crc_bytes_Cons [simp]: "crc_bytes c (b # bs) = crc_bytes (mconf_crc32_update_byte c b) bs"
  by (simp add: crc_bytes_def)

lemma crc_bytes_append: "crc_bytes c (xs @ ys) = crc_bytes (crc_bytes c xs) ys"
  by (simp add: crc_bytes_def)

lemma crc32_update_range_eq [mem_simps]:
  "i + n \<le> length bs \<Longrightarrow> crc32_update_range bs i n c = Some (crc_bytes c (chunk bs i n))"
proof (induction n arbitrary: i c)
  case 0
  then show ?case by simp
next
  case (Suc n)
  then have "chunk bs i (Suc n) = bs ! i # chunk bs (Suc i) n"
    by (simp add: chunk_def Cons_nth_drop_Suc [symmetric])
  with Suc show ?case by (simp add: mem_simps)
qed

lemma mconf_crc32_eq:
  "unat n \<le> length bs \<Longrightarrow> mconf_crc32 bs n = Some (crc32_of (take (unat n) bs))"
  by (simp add: mconf_crc32_def mem_simps crc32_of_def chunk_def)

section \<open>Linearity\<close>

lemma word_xor_cancel:
  fixes a b c :: "'a::len word"
  shows "a XOR c = b XOR c \<longleftrightarrow> a = b" and "c XOR a = c XOR b \<longleftrightarrow> a = b"
  by (auto simp: bit_eq_iff bit_xor_iff)

lemma crc32_bit_step_alt:
  "crc32_bit_step v = drop_bit 1 v XOR (if bit v 0 then 0xEDB88320 else 0)"
proof -
  have "v AND 1 \<noteq> 0 \<longleftrightarrow> bit v 0"
    by (simp add: and_one_eq bit_0 odd_iff_mod_2_eq_one)
  then show ?thesis by (simp add: crc32_bit_step_def)
qed

lemma crc32_bit_step_xor: "crc32_bit_step (a XOR b) = crc32_bit_step a XOR crc32_bit_step b"
proof -
  have "bit (a XOR b) 0 \<longleftrightarrow> (bit a 0 \<noteq> bit b 0)" by (simp add: bit_xor_iff)
  then show ?thesis
    by (cases "bit a 0"; cases "bit b 0")
       (simp_all only: crc32_bit_step_alt drop_bit_xor if_True if_False xor.right_neutral
          xor.left_neutral xor.assoc xor.left_commute xor.commute xor_self_eq simp_thms)
qed

lemma crc32_bit_step_0 [simp]: "crc32_bit_step 0 = 0"
  by (simp add: crc32_bit_step_alt)

lemma crc32_bit_step_eq_0: "crc32_bit_step v = 0 \<Longrightarrow> v = 0"
proof -
  assume z: "crc32_bit_step v = 0"
  have "bit (crc32_bit_step v) 31 = bit v 0"
    using bit_imp_le_length [of v 32] by (auto simp: crc32_bit_step_alt bit_simps)
  with z have b0: "\<not> bit v 0" by simp
  with z have "drop_bit 1 v = 0" by (simp add: crc32_bit_step_alt)
  then have "\<not> bit (drop_bit 1 v) n" for n by simp
  then have hi: "\<not> bit v (Suc n)" for n by (simp add: bit_drop_bit_eq)
  have "\<not> bit v n" for n
    using b0 hi by (cases n) simp_all
  then show "v = 0"
    by (intro bit_word_eqI) simp
qed

lemma crc32_bit_loop_xor:
  "crc32_bit_loop n (a XOR b) = crc32_bit_loop n a XOR crc32_bit_loop n b"
  by (induction n arbitrary: a b) (simp_all add: crc32_bit_step_xor)

lemma crc32_bit_loop_eq_0: "crc32_bit_loop n v = 0 \<Longrightarrow> v = 0"
  by (induction n arbitrary: v) (auto dest: crc32_bit_step_eq_0)

lemma crc32_bit_loop_inj: "crc32_bit_loop n a = crc32_bit_loop n b \<longleftrightarrow> a = b"
proof
  assume "crc32_bit_loop n a = crc32_bit_loop n b"
  then have "crc32_bit_loop n (a XOR b) = 0" by (simp add: crc32_bit_loop_xor)
  then have "a XOR b = 0 XOR 0" by (simp add: crc32_bit_loop_eq_0)
  then show "a = b" by (simp add: bit_eq_iff bit_xor_iff)
qed simp

lemma crc32_bit_loop_add: "crc32_bit_loop (m + n) v = crc32_bit_loop n (crc32_bit_loop m v)"
  by (induction m arbitrary: v) simp_all

lemma crc_bytes_inj: "crc_bytes a bs = crc_bytes b bs \<longleftrightarrow> a = b"
proof (induction bs arbitrary: a b)
  case (Cons x bs)
  then show ?case
    by (simp add: mconf_crc32_update_byte_def crc32_bit_loop_inj word_xor_cancel)
qed simp

section \<open>Bursts of up to four bytes\<close>

text \<open>The bytes of a burst packed into a word, first byte lowest.\<close>

fun pack_bytes :: "byte list \<Rightarrow> uint32" where
  "pack_bytes [] = 0"
| "pack_bytes (b # bs) = ucast b XOR push_bit 8 (pack_bytes bs)"

lemma crc32_bit_loop_push_bit:
  assumes "\<And>i. 32 - n \<le> i \<Longrightarrow> \<not> bit w i" and "n \<le> 32"
  shows "crc32_bit_loop n (push_bit n w) = w"
  using assms
proof (induction n)
  case 0
  then show ?case by simp
next
  case (Suc n)
  have hi: "\<not> bit w i" if "32 - Suc n \<le> i" for i using Suc.prems(1) [OF that] .
  have "crc32_bit_step (push_bit (Suc n) w) = drop_bit 1 (push_bit (Suc n) w)"
  proof -
    have "\<not> bit (push_bit (Suc n) w) 0" by (simp only: bit_push_bit_iff) simp
    then show ?thesis by (simp only: crc32_bit_step_alt if_False xor.right_neutral)
  qed
  also have "\<dots> = push_bit n w"
  proof (rule bit_word_eqI)
    fix i assume "i < LENGTH(32)"
    then have "i < 32" by simp
    moreover have "\<not> bit w (i - n)" if "i = 31" "n \<le> i"
      using hi [of "i - n"] that by simp
    ultimately show "bit (drop_bit 1 (push_bit (Suc n) w)) i = bit (push_bit n w) i"
      by (cases "i = 31") (auto simp: bit_simps simp del: push_bit_Suc)
  qed
  finally have "crc32_bit_loop (Suc n) (push_bit (Suc n) w) = crc32_bit_loop n (push_bit n w)"
    by simp
  then show ?case using Suc by simp
qed

lemma pack_bytes_bit: "8 * length bs \<le> i \<Longrightarrow> \<not> bit (pack_bytes bs) i"
proof (induction bs arbitrary: i)
  case (Cons b bs)
  then have "\<not> bit (pack_bytes bs) (i - 8)" by (intro Cons.IH) simp
  with Cons.prems show ?case by (auto simp: bit_simps dest: bit_imp_le_length)
qed simp

lemma crc_bytes_pack:
  "length bs \<le> 4 \<Longrightarrow> crc_bytes c bs = crc32_bit_loop (8 * length bs) (c XOR pack_bytes bs)"
proof (induction bs arbitrary: c)
  case (Cons b bs)
  then have len: "length bs \<le> 3" by simp
  let ?p = "pack_bytes bs"
  have p: "crc32_bit_loop 8 (push_bit 8 ?p) = ?p"
    using len by (intro crc32_bit_loop_push_bit pack_bytes_bit) simp_all
  have "crc_bytes c (b # bs) = crc_bytes (crc32_bit_loop 8 (c XOR ucast b)) bs"
    by (simp add: mconf_crc32_update_byte_def)
  also have "\<dots> = crc32_bit_loop (8 * length bs) (crc32_bit_loop 8 (c XOR ucast b) XOR ?p)"
    using len by (intro Cons.IH) simp
  also have "crc32_bit_loop 8 (c XOR ucast b) XOR ?p = crc32_bit_loop 8 (c XOR pack_bytes (b # bs))"
    by (simp only: pack_bytes.simps xor.assoc [symmetric]) (simp only: crc32_bit_loop_xor p)
  also have "crc32_bit_loop (8 * length bs) (crc32_bit_loop 8 (c XOR pack_bytes (b # bs))) = crc32_bit_loop (8 * length (b # bs)) (c XOR pack_bytes (b # bs))"
    by (simp only: crc32_bit_loop_add [symmetric] length_Cons mult_Suc_right)
  finally show ?case .
qed simp

lemma bit_pack_low: "i < 8 \<Longrightarrow> bit (pack_bytes (b # bs)) i \<longleftrightarrow> bit b i"
  by (simp add: bit_simps)

lemma bit_pack_high: "i < 24 \<Longrightarrow> bit (pack_bytes (b # bs)) (i + 8) \<longleftrightarrow> bit (pack_bytes bs) i"
  using bit_imp_le_length [of b "i + 8"] by (auto simp: bit_simps)

lemma pack_bytes_inject:
  "length bs = length cs \<Longrightarrow> length bs \<le> 4 \<Longrightarrow> pack_bytes bs = pack_bytes cs \<Longrightarrow> bs = cs"
proof (induction bs cs rule: list_induct2)
  case (Cons b bs c cs)
  have eq: "bit (pack_bytes (b # bs)) i = bit (pack_bytes (c # cs)) i" for i
    using Cons.prems by simp
  have "b = c"
  proof (rule bit_word_eqI)
    fix i assume "i < LENGTH(8)"
    then show "bit b i = bit c i"
      using eq [of i] bit_pack_low [of i b bs] bit_pack_low [of i c cs] by simp
  qed
  moreover have "pack_bytes bs = pack_bytes cs"
  proof (rule bit_word_eqI)
    fix i assume "i < LENGTH(32)"
    then have i: "i < 32" by simp
    show "bit (pack_bytes bs) i = bit (pack_bytes cs) i"
    proof (cases "i < 24")
      case True
      then show ?thesis
        using eq [of "i + 8"] bit_pack_high [of i b bs] bit_pack_high [of i c cs] by blast
    next
      case False
      have "8 * length bs \<le> i" "8 * length cs \<le> i"
        using False Cons.prems(1) Cons.hyps(1) by simp_all
      then show ?thesis by (simp only: pack_bytes_bit)
    qed
  qed
  ultimately show ?case using Cons by simp
qed simp

lemma crc32_burst_aux:
  assumes "length mid = length mid'" and "length mid \<le> 4" and "mid \<noteq> mid'"
  shows "crc_bytes c (pre @ mid @ post) \<noteq> crc_bytes c (pre @ mid' @ post)"
proof
  assume "crc_bytes c (pre @ mid @ post) = crc_bytes c (pre @ mid' @ post)"
  then have "crc_bytes (crc_bytes c pre) mid = crc_bytes (crc_bytes c pre) mid'"
    by (simp add: crc_bytes_append crc_bytes_inj)
  then have "crc_bytes c pre XOR pack_bytes mid = crc_bytes c pre XOR pack_bytes mid'"
    using assms by (simp add: crc_bytes_pack crc32_bit_loop_inj)
  then have "pack_bytes mid = pack_bytes mid'"
    by (simp add: word_xor_cancel)
  with assms show False using pack_bytes_inject by blast
qed

lemma crc32_finalize_inj: "mconf_crc32_finalize a = mconf_crc32_finalize b \<longleftrightarrow> a = b"
  by (simp add: mconf_crc32_finalize_def word_xor_cancel)

section \<open>The schema hash\<close>

definition mconf_hash_mix :: "uint32 \<Rightarrow> byte \<Rightarrow> uint32" where
  "mconf_hash_mix hash b = (hash XOR ucast b) * 16777619"

fun mconf_schema_hash_bytes :: "uint32 \<Rightarrow> byte list \<Rightarrow> uint32" where
  "mconf_schema_hash_bytes hash [] = hash"
| "mconf_schema_hash_bytes hash (b # bs) = mconf_schema_hash_bytes (mconf_hash_mix hash b) bs"

text \<open>The eight bytes of a \<open>size_t\<close>, lowest first.\<close>

definition size_bytes :: "size_t \<Rightarrow> byte list" where
  "size_bytes v = map (\<lambda>i. ucast (drop_bit (i * 8) v AND 0xFF)) [0..<8]"

definition mconf_schema_hash_size :: "uint32 \<Rightarrow> size_t \<Rightarrow> uint32" where
  "mconf_schema_hash_size hash v = mconf_schema_hash_bytes hash (size_bytes v)"

lemma hash_bytes_append:
  "mconf_schema_hash_bytes h (xs @ ys) = mconf_schema_hash_bytes (mconf_schema_hash_bytes h xs) ys"
  by (induction xs arbitrary: h) simp_all

text \<open>
  The multiplier is odd, so the mixing step loses nothing: with the inverse \<open>899433627\<close> of the FNV
  prime modulo \<open>2 ^ 32\<close> it can be undone.
\<close>

lemma hash_mix_inj: "mconf_hash_mix a x = mconf_hash_mix b y \<longleftrightarrow> a XOR ucast x = b XOR ucast y"
proof
  assume "mconf_hash_mix a x = mconf_hash_mix b y"
  then have "(a XOR ucast x) * 16777619 * 899433627 = (b XOR ucast y) * 16777619 * 899433627"
    by (simp only: mconf_hash_mix_def)
  moreover have "(16777619 :: uint32) * 899433627 = 1" by simp
  ultimately show "a XOR ucast x = b XOR ucast y"
    by (simp only: mult.assoc mult_1_right)
qed (simp add: mconf_hash_mix_def)

section \<open>Properties\<close>

text \<open>
  Two byte strings of the same length that differ only inside a window of at most four
  consecutive bytes (a burst of up to 32 bits) never have the same CRC, whatever surrounds it.
\<close>

theorem crc32_detects_burst:
  assumes "length mid = length mid'" and "length mid \<le> 4" and "mid \<noteq> mid'"
    and "unat n = length (pre @ mid @ post)"
  shows "\<exists>c c'. mconf_crc32 (pre @ mid @ post) n = Some c \<and>
    mconf_crc32 (pre @ mid' @ post) n = Some c' \<and> c \<noteq> c'"
  using crc32_burst_aux [OF assms(1-3)] assms
  by (simp add: mconf_crc32_eq crc32_of_def crc32_finalize_inj)

theorem crc32_detects_burst_witness:
  "\<exists>c c'. mconf_crc32 ([1, 2] @ [3, 4, 5, 6] @ [7]) 7 = Some c \<and>
    mconf_crc32 ([1, 2] @ [6, 5, 4, 3] @ [7]) 7 = Some c' \<and> c \<noteq> c'"
  by (rule crc32_detects_burst) simp_all

text \<open>
  The checksum is the CRC-32 of IEEE 802.3: the nine characters \<open>123456789\<close> have the check value
  0xCBF43926, and the empty string has the value zero.
\<close>

theorem crc32_check_value:
  "mconf_crc32 [49, 50, 51, 52, 53, 54, 55, 56, 57] 9 = Some 0xCBF43926 \<and> mconf_crc32 [] 0 = Some 0"
  by code_simp

end
