(* ===== verification/Mconf_Demo.thy ===== *)
theory Mconf_Demo
  imports Mconf_Types
begin

text \<open>
  The schema of the project's own test program (tests/test_all.c, lines 12 to 35): a bool, a 16-bit
  interval, a string and a blob. The theorems are instantiated on it.
\<close>

definition demo_entries :: "mconf_entry list" where
  "demo_entries =
     [\<lparr>key = Some ''enabled'', offset = 0, entry_size = 1, entry_type = MCONF_TYPE_BOOL,
       default_value = Some [1], default_size = 1\<rparr>,
      \<lparr>key = Some ''interval_ms'', offset = 2, entry_size = 2, entry_type = MCONF_TYPE_U16,
       default_value = Some [0xFA, 0], default_size = 2\<rparr>,
      \<lparr>key = Some ''name'', offset = 4, entry_size = 12, entry_type = MCONF_TYPE_STRING,
       default_value = Some [110, 111, 100, 101, 45, 97, 0], default_size = 6\<rparr>,
      \<lparr>key = Some ''key'', offset = 16, entry_size = 4, entry_type = MCONF_TYPE_BLOB,
       default_value = Some [1, 2, 3, 4], default_size = 4\<rparr>]"

definition demo_schema :: mconf_schema where
  "demo_schema = \<lparr>entries = Some demo_entries, entry_count = 4, schema_version = 1, schema_data_size = 20\<rparr>"

end
