(* ===== verification/Mconf_Schema.thy ===== *)
theory Mconf_Schema
  imports Mconf_Crc Mconf_Demo
begin

text \<open>
  Schema validation and the schema fingerprint (src/mconf.c, lines 216 to 238, 358 to 406 and 446
  to 482). The code checks an entry against every later one with wrapping arithmetic, before the
  later one has been checked itself; \<open>schema_ok\<close> is the declarative specification it implements.
\<close>

section \<open>The code\<close>

definition mconf_validate_default_for_entry :: "mconf_entry \<Rightarrow> mconf_err" where
  "mconf_validate_default_for_entry e =
     (if default_value e = None then
        (if default_size e = 0 then MCONF_OK else MCONF_ERR_INVALID)
      else if entry_type e = MCONF_TYPE_STRING then
        (if default_size e \<ge> entry_size e \<or> entry_size e < 2 then MCONF_ERR_INVALID else MCONF_OK)
      else if entry_type e = MCONF_TYPE_BLOB then
        (if default_size e = entry_size e then MCONF_OK else MCONF_ERR_INVALID)
      else if mconf_is_scalar_type (entry_type e) then
        (if default_size e = entry_size e then MCONF_OK else MCONF_ERR_INVALID)
      else MCONF_ERR_INVALID)"

text \<open>\<open>(a != NULL) && (b != NULL) && (strcmp(a, b) == 0)\<close>\<close>

definition same_key :: "string option \<Rightarrow> string option \<Rightarrow> bool" where
  "same_key a b \<longleftrightarrow> a \<noteq> None \<and> b \<noteq> None \<and> a = b"

text \<open>The loop over \<open>other_index\<close>, with \<open>n\<close> indices left.\<close>

fun layout_conflict_loop ::
  "mconf_entry list \<Rightarrow> mconf_entry \<Rightarrow> size_t \<Rightarrow> nat \<Rightarrow> nat \<Rightarrow> mconf_err option" where
  "layout_conflict_loop es e end_offset other_index 0 = Some MCONF_OK"
| "layout_conflict_loop es e end_offset other_index (Suc n) =
     do { other \<leftarrow> arr_get es other_index;
          let other_end = offset other + entry_size other;
          if offset e < other_end \<and> offset other < end_offset then Some MCONF_ERR_INVALID
          else if same_key (key e) (key other) then Some MCONF_ERR_INVALID
          else layout_conflict_loop es e end_offset (Suc other_index) n }"

definition mconf_validate_entry_layout ::
  "mconf_config \<Rightarrow> mconf_schema \<Rightarrow> nat \<Rightarrow> mconf_err option" where
  "mconf_validate_entry_layout cfg sch index =
     do { es \<leftarrow> entries sch;
          e \<leftarrow> arr_get es index;
          let end_offset = offset e + entry_size e;
          let expected_size = mconf_expected_type_size (entry_type e);
          if (case key e of None \<Rightarrow> False | Some k \<Rightarrow> unat (MAX_KEY_LEN cfg) < length k) then
            Some MCONF_ERR_INVALID
          else if entry_size e = 0 \<or> offset e > schema_data_size sch then Some MCONF_ERR_INVALID
          else if offset e + entry_size e < offset e then Some MCONF_ERR_INVALID
          else if end_offset > schema_data_size sch then Some MCONF_ERR_INVALID
          else if expected_size \<noteq> 0 \<and> entry_size e \<noteq> expected_size then Some MCONF_ERR_INVALID
          else if entry_type e = MCONF_TYPE_STRING \<and> entry_size e < 2 then Some MCONF_ERR_INVALID
          else if entry_type e = MCONF_TYPE_FLOAT32 \<and> \<not> ENABLE_FLOAT cfg then Some MCONF_ERR_INVALID
          else if mconf_validate_default_for_entry e \<noteq> MCONF_OK then Some MCONF_ERR_INVALID
          else layout_conflict_loop es e end_offset (Suc index)
                 (unat (entry_count sch) - Suc index) }"

definition c_bytes :: "string \<Rightarrow> byte list" where
  "c_bytes s = map of_char s"

definition hash_entry :: "uint32 \<Rightarrow> mconf_entry \<Rightarrow> uint32" where
  "hash_entry hash e =
     (let hash = mconf_schema_hash_size hash (offset e);
          hash = mconf_schema_hash_size hash (entry_size e);
          hash = mconf_schema_hash_size hash (ucast (entry_type e))
      in case key e of
           Some k \<Rightarrow> mconf_schema_hash_bytes hash (c_bytes k)
         | None \<Rightarrow> mconf_hash_mix hash 0)"

text \<open>The loop over the entries: the error and the running hash.\<close>

fun schema_validate_loop ::
  "mconf_config \<Rightarrow> mconf_schema \<Rightarrow> nat \<Rightarrow> nat \<Rightarrow> uint32 \<Rightarrow> (mconf_err \<times> uint32) option" where
  "schema_validate_loop cfg sch index 0 hash = Some (MCONF_OK, hash)"
| "schema_validate_loop cfg sch index (Suc n) hash =
     do { entry_err \<leftarrow> mconf_validate_entry_layout cfg sch index;
          if entry_err \<noteq> MCONF_OK then Some (entry_err, hash)
          else do { es \<leftarrow> entries sch;
                    e \<leftarrow> arr_get es index;
                    schema_validate_loop cfg sch (Suc index) n (hash_entry hash e) } }"

text \<open>The result is the error and \<open>*fingerprint_out\<close> (\<open>None\<close> for a null pointer).\<close>

definition mconf_schema_validate ::
  "mconf_config \<Rightarrow> mconf_schema option \<Rightarrow> uint32 option \<Rightarrow> (mconf_err \<times> uint32 option) option" where
  "mconf_schema_validate cfg psch fingerprint_out =
     (case psch of
        None \<Rightarrow> Some (MCONF_ERR_NULL, fingerprint_out)
      | Some sch \<Rightarrow>
          if entries sch = None then Some (MCONF_ERR_NULL, fingerprint_out)
          else if entry_count sch = 0 \<or> entry_count sch > MAX_ENTRIES cfg \<or> schema_data_size sch = 0
          then Some (MCONF_ERR_INVALID, fingerprint_out)
          else
            do { let hash = 2166136261;
                 let hash = mconf_schema_hash_size hash (entry_count sch);
                 let hash = mconf_schema_hash_size hash (schema_data_size sch);
                 let hash = mconf_schema_hash_size hash (ucast (schema_version sch));
                 (err, hash) \<leftarrow> schema_validate_loop cfg sch 0 (unat (entry_count sch)) hash;
                 if err \<noteq> MCONF_OK then Some (err, fingerprint_out)
                 else Some (MCONF_OK, map_option (\<lambda>_. hash) fingerprint_out) })"

section \<open>The specification\<close>

text \<open>The entries that the code looks at.\<close>

definition live_entries :: "mconf_schema \<Rightarrow> mconf_entry list" where
  "live_entries sch =
     (case entries sch of None \<Rightarrow> [] | Some es \<Rightarrow> take (unat (entry_count sch)) es)"

definition entry_end :: "mconf_entry \<Rightarrow> nat" where
  "entry_end e = unat (offset e) + unat (entry_size e)"

definition default_ok :: "mconf_entry \<Rightarrow> bool" where
  "default_ok e \<longleftrightarrow>
     (case default_value e of
        None \<Rightarrow> default_size e = 0
      | Some _ \<Rightarrow> known_type (entry_type e) \<and>
          (if entry_type e = MCONF_TYPE_STRING then default_size e < entry_size e
           else default_size e = entry_size e))"

definition entry_ok :: "mconf_config \<Rightarrow> size_t \<Rightarrow> mconf_entry \<Rightarrow> bool" where
  "entry_ok cfg dsize e \<longleftrightarrow>
     (\<forall>k. key e = Some k \<longrightarrow> length k \<le> unat (MAX_KEY_LEN cfg)) \<and>
     entry_size e \<noteq> 0 \<and> entry_end e \<le> unat dsize \<and>
     (mconf_is_scalar_type (entry_type e) \<longrightarrow> entry_size e = mconf_expected_type_size (entry_type e)) \<and>
     (entry_type e = MCONF_TYPE_STRING \<longrightarrow> 2 \<le> entry_size e) \<and>
     (entry_type e = MCONF_TYPE_FLOAT32 \<longrightarrow> ENABLE_FLOAT cfg) \<and>
     default_ok e"

definition entries_compatible :: "mconf_entry \<Rightarrow> mconf_entry \<Rightarrow> bool" where
  "entries_compatible e f \<longleftrightarrow>
     (entry_end e \<le> unat (offset f) \<or> entry_end f \<le> unat (offset e)) \<and> \<not> same_key (key e) (key f)"

definition schema_ok :: "mconf_config \<Rightarrow> mconf_schema \<Rightarrow> bool" where
  "schema_ok cfg sch \<longleftrightarrow>
     entries sch \<noteq> None \<and> entry_count sch \<noteq> 0 \<and> entry_count sch \<le> MAX_ENTRIES cfg \<and>
     schema_data_size sch \<noteq> 0 \<and>
     (\<forall>e \<in> set (live_entries sch). entry_ok cfg (schema_data_size sch) e) \<and>
     sorted_wrt entries_compatible (live_entries sch)"

text \<open>The client's array really has \<open>entry_count\<close> elements.\<close>

definition schema_array_ok :: "mconf_schema \<Rightarrow> bool" where
  "schema_array_ok sch \<longleftrightarrow>
     (case entries sch of None \<Rightarrow> True | Some es \<Rightarrow> unat (entry_count sch) \<le> length es)"

text \<open>The bytes that the fingerprint hashes.\<close>

definition entry_descriptor :: "mconf_entry \<Rightarrow> byte list" where
  "entry_descriptor e =
     size_bytes (offset e) @ size_bytes (entry_size e) @ size_bytes (ucast (entry_type e)) @
     (case key e of Some k \<Rightarrow> c_bytes k | None \<Rightarrow> [0])"

definition schema_descriptor :: "mconf_schema \<Rightarrow> byte list" where
  "schema_descriptor sch =
     size_bytes (entry_count sch) @ size_bytes (schema_data_size sch) @
     size_bytes (ucast (schema_version sch)) @ concat (map entry_descriptor (live_entries sch))"

definition schema_hash :: "mconf_schema \<Rightarrow> uint32" where
  "schema_hash sch = mconf_schema_hash_bytes 2166136261 (schema_descriptor sch)"

section \<open>The code implements the specification\<close>

lemma validate_default_eq:
  "(entry_type e = MCONF_TYPE_STRING \<Longrightarrow> 2 \<le> entry_size e) \<Longrightarrow>
     mconf_validate_default_for_entry e = (if default_ok e then MCONF_OK else MCONF_ERR_INVALID)"
  by (cases "default_value e")
     (auto simp: mconf_validate_default_for_entry_def default_ok_def known_type_cases
        scalar_type_cases not_le not_less)

lemma range_check_iff:
  fixes off sz dsz :: size_t
  shows "off \<le> dsz \<and> \<not> off + sz < off \<and> off + sz \<le> dsz \<longleftrightarrow> unat off + unat sz \<le> unat dsz"
proof -
  have "off + sz < off \<longleftrightarrow> 2 ^ 64 \<le> unat off + unat sz"
    using unat_add_wrap_iff [of off sz] by simp
  moreover have "unat dsz < 2 ^ 64" using size_t_bound [of dsz] by simp
  moreover have "unat (off + sz) = unat off + unat sz" if "unat off + unat sz < 2 ^ 64"
    using that by (simp add: unat_add_no_wrap)
  ultimately show ?thesis by (auto simp: word_le_nat_alt)
qed

text \<open>The wrapping overlap test of the code, for one pair.\<close>

definition word_conflict :: "mconf_entry \<Rightarrow> mconf_entry \<Rightarrow> bool" where
  "word_conflict e f \<longleftrightarrow>
     (offset e < offset f + entry_size f \<and> offset f < offset e + entry_size e) \<or>
     same_key (key e) (key f)"

lemma layout_conflict_loop_eq:
  "j + n \<le> length es \<Longrightarrow>
     layout_conflict_loop es e (offset e + entry_size e) j n =
       Some (if \<forall>k \<in> {j..<j + n}. \<not> word_conflict e (es ! k) then MCONF_OK else MCONF_ERR_INVALID)"
proof (induction n arbitrary: j)
  case 0
  then show ?case by simp
next
  case (Suc n)
  have "{j..<j + Suc n} = insert j {Suc j..<Suc j + n}" by auto
  with Suc show ?case by (simp add: mem_simps word_conflict_def Let_def)
qed

text \<open>The tests of one entry before the loop over the others, as the code makes them.\<close>

definition layout_rejected :: "mconf_config \<Rightarrow> size_t \<Rightarrow> mconf_entry \<Rightarrow> bool" where
  "layout_rejected cfg d e \<longleftrightarrow>
     (case key e of None \<Rightarrow> False | Some k \<Rightarrow> unat (MAX_KEY_LEN cfg) < length k) \<or>
     (entry_size e = 0 \<or> offset e > d) \<or> offset e + entry_size e < offset e \<or>
     offset e + entry_size e > d \<or>
     (mconf_expected_type_size (entry_type e) \<noteq> 0 \<and>
        entry_size e \<noteq> mconf_expected_type_size (entry_type e)) \<or>
     (entry_type e = MCONF_TYPE_STRING \<and> entry_size e < 2) \<or>
     (entry_type e = MCONF_TYPE_FLOAT32 \<and> \<not> ENABLE_FLOAT cfg) \<or>
     mconf_validate_default_for_entry e \<noteq> MCONF_OK"

lemma if_merge: "(if p then x else if q then x else y) = (if p \<or> q then x else y)"
  by simp

lemma layout_rejected_iff: "layout_rejected cfg d e \<longleftrightarrow> \<not> entry_ok cfg d e"
proof -
  have key: "(case key e of None \<Rightarrow> False | Some k \<Rightarrow> unat (MAX_KEY_LEN cfg) < length k) \<longleftrightarrow>
      \<not> (\<forall>k. key e = Some k \<longrightarrow> length k \<le> unat (MAX_KEY_LEN cfg))"
    by (auto split: option.splits)
  have range: "(offset e > d \<or> offset e + entry_size e < offset e \<or> offset e + entry_size e > d) \<longleftrightarrow>
      \<not> entry_end e \<le> unat d"
    using range_check_iff [of "offset e" d "entry_size e"] by (auto simp: entry_end_def not_less)
  have default: "(entry_type e = MCONF_TYPE_STRING \<and> entry_size e < 2) \<or>
      mconf_validate_default_for_entry e \<noteq> MCONF_OK \<longleftrightarrow>
      \<not> ((entry_type e = MCONF_TYPE_STRING \<longrightarrow> 2 \<le> entry_size e) \<and> default_ok e)"
  proof (cases "entry_type e = MCONF_TYPE_STRING \<and> entry_size e < 2")
    case False
    then have "mconf_validate_default_for_entry e =
        (if default_ok e then MCONF_OK else MCONF_ERR_INVALID)"
      by (intro validate_default_eq) (simp add: not_less)
    with False show ?thesis by (auto simp: not_less)
  qed (auto simp: not_less)
  show ?thesis
    unfolding layout_rejected_def entry_ok_def scalar_type_size
    using key range default by blast
qed

lemma validate_entry_layout_eq:
  assumes "entries sch = Some es" and "i < length es" and "unat (entry_count sch) \<le> length es"
  shows "mconf_validate_entry_layout cfg sch i =
    Some (if entry_ok cfg (schema_data_size sch) (es ! i) \<and>
             (\<forall>k \<in> {Suc i..<unat (entry_count sch)}. \<not> word_conflict (es ! i) (es ! k))
          then MCONF_OK else MCONF_ERR_INVALID)"
proof -
  let ?e = "es ! i" and ?n = "unat (entry_count sch)"
  have loop: "layout_conflict_loop es ?e (offset ?e + entry_size ?e) (Suc i) (?n - Suc i) =
    Some (if \<forall>k \<in> {Suc i..<?n}. \<not> word_conflict ?e (es ! k) then MCONF_OK else MCONF_ERR_INVALID)"
  proof (cases "Suc i \<le> ?n")
    case True
    then show ?thesis
      using layout_conflict_loop_eq [of "Suc i" "?n - Suc i" es ?e] assms by simp
  qed simp
  have "mconf_validate_entry_layout cfg sch i =
      (if layout_rejected cfg (schema_data_size sch) ?e then Some MCONF_ERR_INVALID
       else layout_conflict_loop es ?e (offset ?e + entry_size ?e) (Suc i) (?n - Suc i))"
    using assms(1,2)
    by (simp only: mconf_validate_entry_layout_def layout_rejected_def arr_get_Some
        Option.bind.bind_lunit Let_def if_merge disj_assoc)
  then show ?thesis by (simp add: loop layout_rejected_iff)
qed

text \<open>Once both entries are in bounds, the wrapping test is exact.\<close>

lemma word_conflict_iff:
  assumes "entry_ok cfg d e" and "entry_ok cfg d f"
  shows "word_conflict e f \<longleftrightarrow> \<not> entries_compatible e f"
proof -
  have "unat (offset x + entry_size x) = entry_end x" if "entry_ok cfg d x" for x
    using that unat_add_le [of "offset x" "entry_size x" d] by (simp add: entry_ok_def entry_end_def)
  with assms show ?thesis
    by (auto simp: word_conflict_def entries_compatible_def word_less_nat_alt not_le)
qed

definition entry_passes :: "mconf_config \<Rightarrow> mconf_schema \<Rightarrow> mconf_entry list \<Rightarrow> nat \<Rightarrow> bool" where
  "entry_passes cfg sch es i \<longleftrightarrow>
     entry_ok cfg (schema_data_size sch) (es ! i) \<and>
     (\<forall>k \<in> {Suc i..<unat (entry_count sch)}. \<not> word_conflict (es ! i) (es ! k))"

lemma entry_passes_iff:
  assumes "unat (entry_count sch) \<le> length es"
  shows "(\<forall>i < unat (entry_count sch). entry_passes cfg sch es i) \<longleftrightarrow>
    (\<forall>e \<in> set (take (unat (entry_count sch)) es). entry_ok cfg (schema_data_size sch) e) \<and>
    sorted_wrt entries_compatible (take (unat (entry_count sch)) es)"
proof -
  let ?n = "unat (entry_count sch)"
  have "(\<forall>e \<in> set (take ?n es). entry_ok cfg (schema_data_size sch) e) \<longleftrightarrow>
      (\<forall>i < ?n. entry_ok cfg (schema_data_size sch) (es ! i))"
    using assms by (simp add: all_set_conv_all_nth)
  moreover have "sorted_wrt entries_compatible (take ?n es) \<longleftrightarrow>
      (\<forall>i < ?n. \<forall>k \<in> {Suc i..<?n}. entries_compatible (es ! i) (es ! k))"
    using assms by (auto simp: sorted_wrt_iff_nth_less Suc_le_eq)
  moreover have "(\<forall>i < ?n. \<forall>k \<in> {Suc i..<?n}. entries_compatible (es ! i) (es ! k)) \<longleftrightarrow>
      (\<forall>i < ?n. \<forall>k \<in> {Suc i..<?n}. \<not> word_conflict (es ! i) (es ! k))"
    if "\<forall>i < ?n. entry_ok cfg (schema_data_size sch) (es ! i)"
  proof -
    have "entries_compatible (es ! i) (es ! k) \<longleftrightarrow> \<not> word_conflict (es ! i) (es ! k)"
      if "i < ?n" and "k < ?n" for i k
      using \<open>\<forall>i < ?n. _ i\<close> that word_conflict_iff [of cfg "schema_data_size sch"] by blast
    then show ?thesis by simp
  qed
  ultimately show ?thesis
    unfolding entry_passes_def by blast
qed

lemma schema_validate_loop_ok:
  assumes "entries sch = Some es" and "unat (entry_count sch) \<le> length es"
    and "i + n = unat (entry_count sch)" and "\<forall>k \<in> {i..<i + n}. entry_passes cfg sch es k"
  shows "schema_validate_loop cfg sch i n h = Some (MCONF_OK, foldl hash_entry h (chunk es i n))"
  using assms(3,4)
proof (induction n arbitrary: i h)
  case 0
  then show ?case by simp
next
  case (Suc n)
  have "chunk es i (Suc n) = es ! i # chunk es (Suc i) n"
    using Suc.prems assms(2) by (simp add: chunk_def Cons_nth_drop_Suc [symmetric])
  moreover have "entry_passes cfg sch es i" using Suc.prems by simp
  ultimately show ?case
    using Suc assms(1,2)
    by (simp add: validate_entry_layout_eq mem_simps entry_passes_def)
qed

lemma schema_validate_loop_bad:
  assumes "entries sch = Some es" and "unat (entry_count sch) \<le> length es"
    and "i + n = unat (entry_count sch)" and "\<exists>k \<in> {i..<i + n}. \<not> entry_passes cfg sch es k"
  shows "\<exists>h'. schema_validate_loop cfg sch i n h = Some (MCONF_ERR_INVALID, h')"
  using assms(3,4)
proof (induction n arbitrary: i h)
  case 0
  then show ?case by simp
next
  case (Suc n)
  show ?case
  proof (cases "entry_passes cfg sch es i")
    case True
    have "{i..<i + Suc n} = insert i {Suc i..<Suc i + n}" by auto
    with Suc.prems True have "\<exists>k \<in> {Suc i..<Suc i + n}. \<not> entry_passes cfg sch es k" by simp
    with Suc.IH [of "Suc i"] Suc.prems True assms(1,2) show ?thesis
      by (simp add: validate_entry_layout_eq mem_simps entry_passes_def)
  next
    case False
    with Suc.prems assms(1,2) show ?thesis
      by (auto simp: validate_entry_layout_eq mem_simps entry_passes_def)
  qed
qed

lemma hash_entry_eq: "hash_entry h e = mconf_schema_hash_bytes h (entry_descriptor e)"
  by (cases "key e")
     (simp_all add: hash_entry_def entry_descriptor_def mconf_schema_hash_size_def hash_bytes_append)

lemma foldl_hash_entry:
  "foldl hash_entry h es = mconf_schema_hash_bytes h (concat (map entry_descriptor es))"
  by (induction es arbitrary: h) (simp_all add: hash_entry_eq hash_bytes_append)

lemma schema_validate_eq:
  assumes "schema_array_ok sch"
  shows "mconf_schema_validate cfg (Some sch) fp =
    Some (if entries sch = None then (MCONF_ERR_NULL, fp)
          else if schema_ok cfg sch then (MCONF_OK, map_option (\<lambda>_. schema_hash sch) fp)
          else (MCONF_ERR_INVALID, fp))"
proof (cases "entries sch")
  case None
  then show ?thesis by (simp add: mconf_schema_validate_def)
next
  case (Some es)
  let ?n = "unat (entry_count sch)"
  have len: "?n \<le> length es" using assms Some by (simp add: schema_array_ok_def)
  have live: "live_entries sch = chunk es 0 ?n" using Some by (simp add: live_entries_def chunk_def)
  have ok: "schema_ok cfg sch \<longleftrightarrow> entry_count sch \<noteq> 0 \<and> entry_count sch \<le> MAX_ENTRIES cfg \<and>
      schema_data_size sch \<noteq> 0 \<and> (\<forall>i \<in> {0..<0 + ?n}. entry_passes cfg sch es i)"
    using entry_passes_iff [OF len, of cfg] Some by (auto simp: schema_ok_def live_entries_def)
  show ?thesis
  proof (cases "schema_ok cfg sch")
    case True
    with ok Some len show ?thesis
      by (simp add: mconf_schema_validate_def schema_validate_loop_ok Let_def schema_hash_def
          schema_descriptor_def live mconf_schema_hash_size_def hash_bytes_append foldl_hash_entry
          not_less)
  next
    case False
    show ?thesis
    proof (cases "\<forall>i \<in> {0..<0 + ?n}. entry_passes cfg sch es i")
      case True
      with False ok Some show ?thesis by (auto simp: mconf_schema_validate_def not_le)
    next
      case bad: False
      then have "\<exists>k \<in> {0..<0 + ?n}. \<not> entry_passes cfg sch es k" by blast
      from schema_validate_loop_bad [OF Some len _ this] obtain h' where
        "schema_validate_loop cfg sch 0 ?n
          (mconf_schema_hash_size (mconf_schema_hash_size (mconf_schema_hash_size 2166136261
            (entry_count sch)) (schema_data_size sch)) (ucast (schema_version sch))) =
         Some (MCONF_ERR_INVALID, h')"
        by auto
      with False Some show ?thesis by (simp add: mconf_schema_validate_def Let_def)
    qed
  qed
qed

section \<open>The schema of the tests\<close>

lemma demo_live_entries [simp]: "live_entries demo_schema = demo_entries"
  by (simp add: live_entries_def demo_schema_def demo_entries_def)

lemma demo_schema_ok: "schema_ok default_config demo_schema"
  by (simp add: schema_ok_def)
     (simp add: demo_schema_def demo_entries_def default_config_def entry_ok_def entry_end_def
        mconf_is_scalar_type_def mconf_expected_type_size_def default_ok_def known_type_def
        entries_compatible_def same_key_def)

section \<open>Properties\<close>

text \<open>
  C17. Validation is exact: \<open>mconf_schema_validate\<close> returns on every schema whose array is as long as its
  count says, reports success exactly for the schemas of \<open>schema_ok\<close> (every entry lies in the data
  object, has the width of its type and an admissible default, no two entries overlap or share a key),
  and then yields the hash of the schema's descriptor. Wrapping offsets do not slip through, although
  the code tests for overlaps in wrapping arithmetic.
\<close>

theorem schema_validation_exact:
  assumes "schema_array_ok sch"
  shows "mconf_schema_validate cfg (Some sch) fp =
    Some (if entries sch = None then (MCONF_ERR_NULL, fp)
          else if schema_ok cfg sch then (MCONF_OK, map_option (\<lambda>_. schema_hash sch) fp)
          else (MCONF_ERR_INVALID, fp))"
  by (rule schema_validate_eq [OF assms])

theorem schema_validation_exact_witness:
  "mconf_schema_validate default_config (Some demo_schema) (Some 0) = Some (MCONF_OK, Some (schema_hash demo_schema)) \<and>
   mconf_schema_validate default_config (Some (demo_schema\<lparr>schema_data_size := 19\<rparr>)) (Some 0) = Some (MCONF_ERR_INVALID, Some 0)"
proof
  have "schema_array_ok demo_schema" "schema_array_ok (demo_schema\<lparr>schema_data_size := 19\<rparr>)"
    by (simp_all add: schema_array_ok_def demo_schema_def demo_entries_def)
  moreover have "\<not> schema_ok default_config (demo_schema\<lparr>schema_data_size := 19\<rparr>)"
    by (simp add: schema_ok_def live_entries_def demo_schema_def demo_entries_def entry_ok_def entry_end_def)
  moreover have "entries demo_schema \<noteq> None" by (simp add: demo_schema_def)
  ultimately show
    "mconf_schema_validate default_config (Some demo_schema) (Some 0) = Some (MCONF_OK, Some (schema_hash demo_schema))"
    "mconf_schema_validate default_config (Some (demo_schema\<lparr>schema_data_size := 19\<rparr>)) (Some 0) = Some (MCONF_ERR_INVALID, Some 0)"
    using schema_validation_exact [of demo_schema default_config "Some 0"]
      schema_validation_exact [of "demo_schema\<lparr>schema_data_size := 19\<rparr>" default_config "Some 0"]
    by (simp_all add: demo_schema_ok)
qed

lemma hash_bytes_inj: "mconf_schema_hash_bytes h bs = mconf_schema_hash_bytes h' bs \<longleftrightarrow> h = h'"
  by (induction bs arbitrary: h h') (simp_all add: hash_mix_inj word_xor_cancel)

text \<open>
  C39. Two valid schemas whose descriptors differ in a single byte (another type, another low byte of an
  offset, size or version, another letter in a key) have different fingerprints.
\<close>

theorem fingerprint_sees_byte:
  assumes "schema_array_ok sch" and "schema_ok cfg sch" and "schema_array_ok sch'" and "schema_ok cfg sch'"
    and "schema_descriptor sch = pre @ [x] @ post" and "schema_descriptor sch' = pre @ [y] @ post" and "x \<noteq> y"
  shows "\<exists>f f'. mconf_schema_validate cfg (Some sch) (Some 0) = Some (MCONF_OK, Some f) \<and>
    mconf_schema_validate cfg (Some sch') (Some 0) = Some (MCONF_OK, Some f') \<and> f \<noteq> f'"
proof -
  have "schema_hash sch \<noteq> schema_hash sch'"
  proof
    assume "schema_hash sch = schema_hash sch'"
    then have "mconf_hash_mix h x = mconf_hash_mix h y" if "h = mconf_schema_hash_bytes 2166136261 pre" for h
      unfolding that schema_hash_def assms(5,6)
      by (simp only: hash_bytes_append append_Cons append_Nil mconf_schema_hash_bytes.simps hash_bytes_inj)
    then have "(ucast x :: uint32) = ucast y" by (simp add: hash_mix_inj word_xor_cancel)
    then have bits: "bit (ucast x :: uint32) i = bit (ucast y :: uint32) i" for i by simp
    have "x = y"
    proof (rule bit_word_eqI)
      show "bit x i = bit y i" if "i < LENGTH(8)" for i
        using that bits [of i] by (simp add: bit_unsigned_iff)
    qed
    with assms(7) show False by simp
  qed
  moreover have "entries sch \<noteq> None" "entries sch' \<noteq> None" using assms(2,4) by (simp_all add: schema_ok_def)
  ultimately show ?thesis using assms by (simp add: schema_validate_eq)
qed

theorem fingerprint_sees_byte_witness:
  "\<exists>f f'. mconf_schema_validate default_config (Some demo_schema) (Some 0) = Some (MCONF_OK, Some f) \<and>
    mconf_schema_validate default_config (Some (demo_schema\<lparr>schema_version := 2\<rparr>)) (Some 0) = Some (MCONF_OK, Some f') \<and> f \<noteq> f'"
proof (rule fingerprint_sees_byte)
  let ?post = "[0, 0, 0, 0, 0, 0, 0] @ concat (map entry_descriptor demo_entries)"
  have low: "size_bytes 1 = [1, 0, 0, 0, 0, 0, 0, 0]" "size_bytes 2 = [2, 0, 0, 0, 0, 0, 0, 0]"
    by code_simp+
  have live: "live_entries (demo_schema\<lparr>schema_version := v\<rparr>) = demo_entries" for v
    by (simp add: live_entries_def demo_schema_def demo_entries_def)
  show "schema_descriptor demo_schema = (size_bytes 4 @ size_bytes 20) @ [1] @ ?post"
    "schema_descriptor (demo_schema\<lparr>schema_version := 2\<rparr>) = (size_bytes 4 @ size_bytes 20) @ [2] @ ?post"
    using low by (simp_all add: schema_descriptor_def live) (simp_all add: demo_schema_def)
  show "schema_array_ok demo_schema" "schema_array_ok (demo_schema\<lparr>schema_version := 2\<rparr>)"
    by (simp_all add: schema_array_ok_def demo_schema_def demo_entries_def)
  show "schema_ok default_config demo_schema" "schema_ok default_config (demo_schema\<lparr>schema_version := 2\<rparr>)"
    using demo_schema_ok by (simp_all add: schema_ok_def live)
qed simp

end
