(* ===== verification/Mconf_Codec.thy ===== *)
theory Mconf_Codec
  imports Mconf_Demo
begin

text \<open>
  Byte encodings (src/mconf.c, lines 35 to 79 and 240 to 338): the canonical little-endian form of
  16-bit and 32-bit integers, the host's own representation of the same integers in memory, and the
  translation of one scalar or blob field between the two. A \<open>float\<close> is carried as its 32-bit
  pattern, which is all the code does with it.
\<close>

section \<open>Little-endian words\<close>

definition mconf_write_u16_le :: "uint16 \<Rightarrow> byte list" where
  "mconf_write_u16_le v = [ucast (v AND 0xFF), ucast (drop_bit 8 v AND 0xFF)]"

definition mconf_write_u32_le :: "uint32 \<Rightarrow> byte list" where
  "mconf_write_u32_le v =
     [ucast (v AND 0xFF), ucast (drop_bit 8 v AND 0xFF),
      ucast (drop_bit 16 v AND 0xFF), ucast (drop_bit 24 v AND 0xFF)]"

definition mconf_read_u16_le :: "byte list \<Rightarrow> uint16" where
  "mconf_read_u16_le src = ucast (src ! 0) OR push_bit 8 (ucast (src ! 1))"

definition mconf_read_u32_le :: "byte list \<Rightarrow> uint32" where
  "mconf_read_u32_le src =
     ucast (src ! 0) OR push_bit 8 (ucast (src ! 1)) OR
     push_bit 16 (ucast (src ! 2)) OR push_bit 24 (ucast (src ! 3))"

lemma length_write_le [simp]:
  "length (mconf_write_u16_le v) = 2" "length (mconf_write_u32_le w) = 4"
  by (simp_all add: mconf_write_u16_le_def mconf_write_u32_le_def)

lemma bit_and_FF: "bit (x AND 0xFF :: 'a::len word) i \<longleftrightarrow> i < 8 \<and> bit x i"
proof -
  have "(0xFF :: 'a word) = mask 8" by (simp add: mask_eq_exp_minus_1)
  then show ?thesis
    by (simp only: bit_and_iff bit_mask_iff) (auto dest: bit_imp_le_length)
qed

lemmas byte_bits = bit_or_iff bit_push_bit_iff bit_unsigned_iff bit_and_FF bit_drop_bit_eq

lemma read_write_u16 [simp]: "mconf_read_u16_le (mconf_write_u16_le v) = v"
proof (rule bit_word_eqI)
  fix i assume "i < LENGTH(16)"
  then have "i < 16" by simp
  then show "bit (mconf_read_u16_le (mconf_write_u16_le v)) i = bit v i"
    by (cases "i < 8") (auto simp: mconf_read_u16_le_def mconf_write_u16_le_def byte_bits)
qed

lemma read_write_u32 [simp]: "mconf_read_u32_le (mconf_write_u32_le v) = v"
proof (rule bit_word_eqI)
  fix i assume "i < LENGTH(32)"
  then have i: "i < 32" by simp
  consider "i < 8" | "8 \<le> i" "i < 16" | "16 \<le> i" "i < 24" | "24 \<le> i" by linarith
  then show "bit (mconf_read_u32_le (mconf_write_u32_le v)) i = bit v i"
    using i by cases (auto simp: mconf_read_u32_le_def mconf_write_u32_le_def byte_bits)
qed

lemma write_read_u16 [simp]: "mconf_write_u16_le (mconf_read_u16_le [a, b]) = [a, b]"
proof -
  have "ucast (mconf_read_u16_le [a, b] AND 0xFF) = a"
    by (rule bit_word_eqI) (simp add: mconf_read_u16_le_def byte_bits)
  moreover have "ucast (drop_bit 8 (mconf_read_u16_le [a, b]) AND 0xFF) = b"
    by (rule bit_word_eqI)
       (auto simp add: mconf_read_u16_le_def byte_bits dest: bit_imp_le_length)
  ultimately show ?thesis by (simp add: mconf_write_u16_le_def)
qed

lemma write_read_u32 [simp]: "mconf_write_u32_le (mconf_read_u32_le [a, b, c, d]) = [a, b, c, d]"
proof -
  let ?w = "mconf_read_u32_le [a, b, c, d]"
  have "ucast (?w AND 0xFF) = a"
    by (rule bit_word_eqI) (simp add: mconf_read_u32_le_def byte_bits)
  moreover have "ucast (drop_bit 8 ?w AND 0xFF) = b"
    by (rule bit_word_eqI)
       (auto simp add: mconf_read_u32_le_def byte_bits dest: bit_imp_le_length)
  moreover have "ucast (drop_bit 16 ?w AND 0xFF) = c"
    by (rule bit_word_eqI)
       (auto simp add: mconf_read_u32_le_def byte_bits dest: bit_imp_le_length)
  moreover have "ucast (drop_bit 24 ?w AND 0xFF) = d"
    by (rule bit_word_eqI)
       (auto simp add: mconf_read_u32_le_def byte_bits dest: bit_imp_le_length)
  ultimately show ?thesis by (simp add: mconf_write_u32_le_def)
qed

lemma list_length_2: "length xs = 2 \<longleftrightarrow> (\<exists>a b. xs = [a, b])"
  by (auto simp: length_Suc_conv numeral_2_eq_2)

lemma list_length_4: "length xs = 4 \<longleftrightarrow> (\<exists>a b c d. xs = [a, b, c, d])"
  by (auto simp: length_Suc_conv eval_nat_numeral)

lemma write_read_u16_len: "length bs = 2 \<Longrightarrow> mconf_write_u16_le (mconf_read_u16_le bs) = bs"
  by (auto simp: list_length_2)

lemma write_read_u32_len: "length bs = 4 \<Longrightarrow> mconf_write_u32_le (mconf_read_u32_le bs) = bs"
  by (auto simp: list_length_4)

section \<open>Integers in the host's memory\<close>

text \<open>The bytes of a \<open>uint16_t\<close> or \<open>uint32_t\<close> object, in the host's byte order.\<close>

definition host_store16 :: "mconf_config \<Rightarrow> uint16 \<Rightarrow> byte list" where
  "host_store16 cfg v =
     (if little_endian cfg then mconf_write_u16_le v else rev (mconf_write_u16_le v))"

definition host_load16 :: "mconf_config \<Rightarrow> byte list \<Rightarrow> uint16" where
  "host_load16 cfg bs =
     (if little_endian cfg then mconf_read_u16_le bs else mconf_read_u16_le (rev bs))"

definition host_store32 :: "mconf_config \<Rightarrow> uint32 \<Rightarrow> byte list" where
  "host_store32 cfg v =
     (if little_endian cfg then mconf_write_u32_le v else rev (mconf_write_u32_le v))"

definition host_load32 :: "mconf_config \<Rightarrow> byte list \<Rightarrow> uint32" where
  "host_load32 cfg bs =
     (if little_endian cfg then mconf_read_u32_le bs else mconf_read_u32_le (rev bs))"

lemma length_host_store [simp]:
  "length (host_store16 cfg v) = 2" "length (host_store32 cfg w) = 4"
  by (simp_all add: host_store16_def host_store32_def)

lemma host_load_store [simp]:
  "host_load16 cfg (host_store16 cfg v) = v" "host_load32 cfg (host_store32 cfg w) = w"
  by (simp_all add: host_load16_def host_store16_def host_load32_def host_store32_def)

lemma host_store_load16: "length bs = 2 \<Longrightarrow> host_store16 cfg (host_load16 cfg bs) = bs"
  by (simp add: host_load16_def host_store16_def write_read_u16_len)

lemma host_store_load32: "length bs = 4 \<Longrightarrow> host_store32 cfg (host_load32 cfg bs) = bs"
  by (simp add: host_load32_def host_store32_def write_read_u32_len)

section \<open>One field\<close>

definition mconf_is_little_endian_ieee754 :: "mconf_config \<Rightarrow> bool" where
  "mconf_is_little_endian_ieee754 cfg \<longleftrightarrow>
     ENABLE_FLOAT cfg \<and> float_is_binary32 cfg \<and> little_endian cfg"

text \<open>The guard \<open>(MCONF_ENABLE_FLOAT == 0) || (!mconf_is_little_endian_ieee754())\<close>, negated.\<close>

definition float_supported :: "mconf_config \<Rightarrow> bool" where
  "float_supported cfg \<longleftrightarrow> ENABLE_FLOAT cfg \<and> mconf_is_little_endian_ieee754 cfg"

definition mconf_store_float_bits :: "uint32 \<Rightarrow> byte list" where
  "mconf_store_float_bits bits = mconf_write_u32_le bits"

definition mconf_load_float_bits :: "byte list \<Rightarrow> uint32" where
  "mconf_load_float_bits bytes = mconf_read_u32_le bytes"

text \<open>
  \<open>field\<close> points at offset \<open>off\<close> of the object \<open>m\<close>. The result is the error, the output buffer and
  \<open>*encoded_size_out\<close>, which the error branches leave as they were.
\<close>

definition mconf_encode_field_bytes ::
  "mconf_config \<Rightarrow> mconf_entry \<Rightarrow> byte list \<Rightarrow> nat \<Rightarrow> byte list \<Rightarrow> size_t \<Rightarrow>
    (mconf_err \<times> byte list \<times> size_t) option" where
  "mconf_encode_field_bytes cfg e m off buffer encoded_size =
     (let ty = entry_type e in
      if ty = MCONF_TYPE_BOOL \<or> ty = MCONF_TYPE_U8 \<or> ty = MCONF_TYPE_I8 then
        do { field \<leftarrow> mem_read m off 1;
             buffer' \<leftarrow> mem_write buffer 0 field;
             Some (MCONF_OK, buffer', 1) }
      else if ty = MCONF_TYPE_U16 \<or> ty = MCONF_TYPE_I16 then
        do { field \<leftarrow> mem_read m off 2;
             buffer' \<leftarrow> mem_write buffer 0 (mconf_write_u16_le (host_load16 cfg field));
             Some (MCONF_OK, buffer', 2) }
      else if ty = MCONF_TYPE_U32 \<or> ty = MCONF_TYPE_I32 then
        do { field \<leftarrow> mem_read m off 4;
             buffer' \<leftarrow> mem_write buffer 0 (mconf_write_u32_le (host_load32 cfg field));
             Some (MCONF_OK, buffer', 4) }
      else if ty = MCONF_TYPE_FLOAT32 then
        (if \<not> float_supported cfg then Some (MCONF_ERR_UNSUPPORTED, buffer, encoded_size)
         else do { field \<leftarrow> mem_read m off 4;
                   buffer' \<leftarrow> mem_write buffer 0 (mconf_store_float_bits (host_load32 cfg field));
                   Some (MCONF_OK, buffer', 4) })
      else if ty = MCONF_TYPE_BLOB then
        do { field \<leftarrow> mem_read m off (unat (entry_size e));
             buffer' \<leftarrow> mem_write buffer 0 field;
             Some (MCONF_OK, buffer', entry_size e) }
      else Some (MCONF_ERR_TYPE, buffer, encoded_size))"

text \<open>The result is the error and the object that \<open>field_out\<close> points into.\<close>

definition mconf_decode_field_bytes ::
  "mconf_config \<Rightarrow> mconf_entry \<Rightarrow> byte list \<Rightarrow> size_t \<Rightarrow> byte list \<Rightarrow> nat \<Rightarrow>
    (mconf_err \<times> byte list) option" where
  "mconf_decode_field_bytes cfg e buffer encoded_size m off =
     (let ty = entry_type e in
      if ty = MCONF_TYPE_BOOL \<or> ty = MCONF_TYPE_U8 \<or> ty = MCONF_TYPE_I8 then
        (if encoded_size \<noteq> 1 then Some (MCONF_ERR_SIZE, m)
         else do { bs \<leftarrow> mem_read buffer 0 1;
                   m' \<leftarrow> mem_write m off bs;
                   Some (MCONF_OK, m') })
      else if ty = MCONF_TYPE_U16 \<or> ty = MCONF_TYPE_I16 then
        (if encoded_size \<noteq> 2 then Some (MCONF_ERR_SIZE, m)
         else do { bs \<leftarrow> mem_read buffer 0 2;
                   m' \<leftarrow> mem_write m off (host_store16 cfg (mconf_read_u16_le bs));
                   Some (MCONF_OK, m') })
      else if ty = MCONF_TYPE_U32 \<or> ty = MCONF_TYPE_I32 then
        (if encoded_size \<noteq> 4 then Some (MCONF_ERR_SIZE, m)
         else do { bs \<leftarrow> mem_read buffer 0 4;
                   m' \<leftarrow> mem_write m off (host_store32 cfg (mconf_read_u32_le bs));
                   Some (MCONF_OK, m') })
      else if ty = MCONF_TYPE_FLOAT32 then
        (if encoded_size \<noteq> 4 then Some (MCONF_ERR_SIZE, m)
         else if \<not> float_supported cfg then Some (MCONF_ERR_UNSUPPORTED, m)
         else do { bs \<leftarrow> mem_read buffer 0 4;
                   m' \<leftarrow> mem_write m off (host_store32 cfg (mconf_load_float_bits bs));
                   Some (MCONF_OK, m') })
      else if ty = MCONF_TYPE_BLOB then
        (if encoded_size \<noteq> entry_size e then Some (MCONF_ERR_SIZE, m)
         else do { bs \<leftarrow> mem_read buffer 0 (unat (entry_size e));
                   m' \<leftarrow> mem_write m off bs;
                   Some (MCONF_OK, m') })
      else Some (MCONF_ERR_TYPE, m))"

section \<open>The canonical form of a scalar\<close>

text \<open>The little-endian bytes of a scalar field whose bytes in memory are \<open>bs\<close>.\<close>

definition scalar_encoding :: "mconf_config \<Rightarrow> mconf_type \<Rightarrow> byte list \<Rightarrow> byte list" where
  "scalar_encoding cfg ty bs =
     (if mconf_expected_type_size ty = 2 then mconf_write_u16_le (host_load16 cfg bs)
      else if mconf_expected_type_size ty = 4 then mconf_write_u32_le (host_load32 cfg bs)
      else bs)"

text \<open>A scalar type that this build can move to and from storage.\<close>

definition scalar_ok :: "mconf_config \<Rightarrow> mconf_type \<Rightarrow> bool" where
  "scalar_ok cfg ty \<longleftrightarrow>
     mconf_is_scalar_type ty \<and> (ty = MCONF_TYPE_FLOAT32 \<longrightarrow> float_supported cfg)"

lemma length_scalar_encoding [simp]:
  "length bs = unat (mconf_expected_type_size ty) \<Longrightarrow> length (scalar_encoding cfg ty bs) = length bs"
  by (auto simp: scalar_encoding_def mconf_expected_type_size_def)

lemma scalar_size_le_4: "unat (mconf_expected_type_size ty) \<le> 4"
  by (simp add: mconf_expected_type_size_def)

text \<open>The bytes in memory of the scalar whose canonical form is \<open>bs\<close>.\<close>

definition scalar_decoding :: "mconf_config \<Rightarrow> mconf_type \<Rightarrow> byte list \<Rightarrow> byte list" where
  "scalar_decoding cfg ty bs =
     (if mconf_expected_type_size ty = 2 then host_store16 cfg (mconf_read_u16_le bs)
      else if mconf_expected_type_size ty = 4 then host_store32 cfg (mconf_read_u32_le bs)
      else bs)"

lemma length_scalar_decoding [simp]:
  "length bs = unat (mconf_expected_type_size ty) \<Longrightarrow> length (scalar_decoding cfg ty bs) = length bs"
  by (auto simp: scalar_decoding_def mconf_expected_type_size_def)

lemma scalar_decode_encode:
  "length bs = unat (mconf_expected_type_size ty) \<Longrightarrow>
     scalar_decoding cfg ty (scalar_encoding cfg ty bs) = bs"
  by (auto simp: scalar_decoding_def scalar_encoding_def host_store_load16 host_store_load32)

lemma encode_scalar:
  assumes "scalar_ok cfg (entry_type e)" and "entry_size e = mconf_expected_type_size (entry_type e)"
    and "off + unat (entry_size e) \<le> length m" and "length buffer = 4"
  shows "mconf_encode_field_bytes cfg e m off buffer n =
    Some (MCONF_OK,
          patch buffer 0 (scalar_encoding cfg (entry_type e) (chunk m off (unat (entry_size e)))),
          entry_size e)"
proof -
  from assms(1) have "entry_type e \<in> {1, 2, 3, 4, 5, 6, 7, 8}"
    by (simp add: scalar_ok_def scalar_type_cases)
  then show ?thesis using assms
    by (auto simp: mconf_encode_field_bytes_def mconf_expected_type_size_def scalar_encoding_def
        scalar_ok_def mconf_store_float_bits_def mem_simps)
qed

lemma decode_scalar:
  assumes "scalar_ok cfg (entry_type e)" and "entry_size e = mconf_expected_type_size (entry_type e)"
    and "off + unat (entry_size e) \<le> length m" and "unat (entry_size e) \<le> length buffer"
  shows "mconf_decode_field_bytes cfg e buffer (entry_size e) m off =
    Some (MCONF_OK,
          patch m off (scalar_decoding cfg (entry_type e) (chunk buffer 0 (unat (entry_size e)))))"
proof -
  from assms(1) have "entry_type e \<in> {1, 2, 3, 4, 5, 6, 7, 8}"
    by (simp add: scalar_ok_def scalar_type_cases)
  then show ?thesis using assms
    by (auto simp: mconf_decode_field_bytes_def mconf_expected_type_size_def scalar_decoding_def
        scalar_ok_def mconf_load_float_bits_def mem_simps)
qed

text \<open>What the two routines do with a field that is neither a known scalar nor a blob.\<close>

lemma encode_other:
  "\<not> mconf_is_scalar_type (entry_type e) \<Longrightarrow> entry_type e \<noteq> MCONF_TYPE_BLOB \<Longrightarrow>
     mconf_encode_field_bytes cfg e m off buffer n = Some (MCONF_ERR_TYPE, buffer, n)"
  by (auto simp: mconf_encode_field_bytes_def scalar_type_cases)

lemma encode_float_unsupported:
  "entry_type e = MCONF_TYPE_FLOAT32 \<Longrightarrow> \<not> float_supported cfg \<Longrightarrow>
     mconf_encode_field_bytes cfg e m off buffer n = Some (MCONF_ERR_UNSUPPORTED, buffer, n)"
  by (simp add: mconf_encode_field_bytes_def)

lemma decode_other:
  "\<not> mconf_is_scalar_type (entry_type e) \<Longrightarrow> entry_type e \<noteq> MCONF_TYPE_BLOB \<Longrightarrow>
     mconf_decode_field_bytes cfg e buffer n m off = Some (MCONF_ERR_TYPE, m)"
  by (auto simp: mconf_decode_field_bytes_def scalar_type_cases)

section \<open>Properties\<close>

text \<open>
  The little-endian codec is a bijection: reading what was written gives the value back, and
  writing what was read gives the bytes back, for both widths.
\<close>

theorem le_codec_bijective:
  "mconf_read_u16_le (mconf_write_u16_le v) = v \<and> mconf_read_u32_le (mconf_write_u32_le w) = w \<and>
   mconf_write_u16_le (mconf_read_u16_le [a, b]) = [a, b] \<and>
   mconf_write_u32_le (mconf_read_u32_le [a, b, c, d]) = [a, b, c, d]"
  by simp

text \<open>The number that a scalar object in the memory of a host stands for.\<close>

definition scalar_value :: "mconf_config \<Rightarrow> mconf_type \<Rightarrow> byte list \<Rightarrow> uint32" where
  "scalar_value cfg ty bs =
     (if mconf_expected_type_size ty = 2 then ucast (host_load16 cfg bs)
      else if mconf_expected_type_size ty = 4 then host_load32 cfg bs
      else ucast (bs ! 0))"

lemma scalar_value_decoding:
  assumes "length bs = unat (mconf_expected_type_size ty)"
  shows "scalar_value cfg' ty (scalar_decoding cfg' ty (scalar_encoding cfg ty bs)) = scalar_value cfg ty bs"
  by (simp add: scalar_value_def scalar_decoding_def scalar_encoding_def)

text \<open>
  C38. A scalar that one host encodes and another host, of either byte order, decodes is the same number
  there, and the decoder writes that field only.
\<close>

theorem scalar_portable:
  assumes "scalar_ok cfg (entry_type e)" and "scalar_ok cfg' (entry_type e)"
    and "entry_size e = mconf_expected_type_size (entry_type e)"
    and "off + unat (entry_size e) \<le> length m" and "off' + unat (entry_size e) \<le> length m'"
    and "length buffer = 4"
  shows "\<exists>buffer' bs. mconf_encode_field_bytes cfg e m off buffer n = Some (MCONF_OK, buffer', entry_size e) \<and>
    mconf_decode_field_bytes cfg' e buffer' (entry_size e) m' off' = Some (MCONF_OK, patch m' off' bs) \<and>
    length bs = unat (entry_size e) \<and>
    scalar_value cfg' (entry_type e) bs =
      scalar_value cfg (entry_type e) (chunk m off (unat (entry_size e)))"
proof -
  let ?bs = "chunk m off (unat (entry_size e))" and ?ty = "entry_type e"
  let ?buf = "patch buffer 0 (scalar_encoding cfg ?ty ?bs)"
  have l: "length ?bs = unat (mconf_expected_type_size ?ty)" "unat (entry_size e) \<le> 4"
    using assms(3,4) scalar_size_le_4 [of ?ty] by simp_all
  have "chunk ?buf 0 (unat (entry_size e)) = scalar_encoding cfg ?ty ?bs"
    using l assms(3,6) by (intro chunk_patch_eq) simp_all
  with encode_scalar [OF assms(1,3,4,6), of n] decode_scalar [OF assms(2,3,5), of ?buf]
    scalar_value_decoding [OF l(1), of cfg' cfg] l assms(3,6)
  show ?thesis
    by (intro exI [of _ ?buf] exI [of _ "scalar_decoding cfg' ?ty (scalar_encoding cfg ?ty ?bs)"]) simp
qed

theorem scalar_portable_witness:
  "\<exists>buffer' bs. mconf_encode_field_bytes default_config (demo_entries ! 1) [7, 7, 1, 2] 2 [0, 0, 0, 0] 0 =
      Some (MCONF_OK, buffer', entry_size (demo_entries ! 1)) \<and>
    mconf_decode_field_bytes (default_config\<lparr>little_endian := False\<rparr>) (demo_entries ! 1) buffer'
      (entry_size (demo_entries ! 1)) [0, 0, 0] 1 = Some (MCONF_OK, patch [0, 0, 0] 1 bs) \<and>
    length bs = unat (entry_size (demo_entries ! 1)) \<and>
    scalar_value (default_config\<lparr>little_endian := False\<rparr>) (entry_type (demo_entries ! 1)) bs =
      scalar_value default_config (entry_type (demo_entries ! 1))
        (chunk [7, 7, 1, 2] 2 (unat (entry_size (demo_entries ! 1))))"
  by (rule scalar_portable)
     (simp_all add: demo_entries_def default_config_def scalar_ok_def mconf_is_scalar_type_def
        mconf_expected_type_size_def)

end
