(* ===== verification/Mconf_Context.thy ===== *)
theory Mconf_Context
  imports Mconf_Schema Mconf_Codec
begin

text \<open>
  The runtime context (src/mconf.c, lines 137 to 173, 199 to 214, 340 to 356 and 484 to 599): the
  guards every call starts with, initialisation, validation of the data, defaults, and lookup by
  key. A context pointer is an \<open>mconf_ctx option\<close>; a call returns the error and what its output
  pointers hold, inside an option that is \<open>None\<close> for undefined behaviour.
\<close>

section \<open>The code\<close>

subsection \<open>Guards\<close>

definition mconf_require_context :: "mconf_ctx option \<Rightarrow> mconf_err" where
  "mconf_require_context p =
     (case p of
        None \<Rightarrow> MCONF_ERR_NULL
      | Some ctx \<Rightarrow>
          if \<not> initialized ctx \<or> ctx_schema ctx = None \<or> ctx_data ctx = None
          then MCONF_ERR_UNINITIALIZED else MCONF_OK)"

definition mconf_check_index :: "mconf_ctx option \<Rightarrow> size_t \<Rightarrow> mconf_err option" where
  "mconf_check_index p index =
     (let err = mconf_require_context p in
      if err \<noteq> MCONF_OK then Some err
      else do { ctx \<leftarrow> p;
                sch \<leftarrow> ctx_schema ctx;
                Some (if index \<ge> entry_count sch then MCONF_ERR_NOT_FOUND else MCONF_OK) })"

definition mconf_entry_at :: "mconf_ctx \<Rightarrow> nat \<Rightarrow> mconf_entry option" where
  "mconf_entry_at ctx index =
     do { sch \<leftarrow> ctx_schema ctx; es \<leftarrow> entries sch; arr_get es index }"

text \<open>\<open>mconf_field_ptr\<close> and \<open>mconf_field_ptr_const\<close>: the field's offset in the data object.\<close>

definition mconf_field_ptr :: "mconf_entry \<Rightarrow> nat" where
  "mconf_field_ptr e = unat (offset e)"

subsection \<open>Strings in a field\<close>

text \<open>The search for the terminating NUL among bytes \<open>index ..< index + n\<close> of the field at \<open>off\<close>.\<close>

fun string_scan :: "byte list \<Rightarrow> nat \<Rightarrow> nat \<Rightarrow> nat \<Rightarrow> nat option option" where
  "string_scan m off index 0 = Some None"
| "string_scan m off index (Suc n) =
     do { b \<leftarrow> arr_get m (off + index);
          if b = 0 then Some (Some index) else string_scan m off (Suc index) n }"

text \<open>The result is the error and \<open>*length_out\<close> (\<open>None\<close> for a null pointer).\<close>

definition mconf_validate_string_bytes ::
  "byte list \<Rightarrow> nat \<Rightarrow> size_t \<Rightarrow> size_t option \<Rightarrow> (mconf_err \<times> size_t option) option" where
  "mconf_validate_string_bytes m off sz length_out =
     (if sz < 2 then Some (MCONF_ERR_INVALID, length_out)
      else do { found \<leftarrow> string_scan m off 0 (unat sz);
                Some (case found of
                        Some index \<Rightarrow> (MCONF_OK, map_option (\<lambda>_. of_nat index) length_out)
                      | None \<Rightarrow> (MCONF_ERR_INVALID, length_out)) })"

subsection \<open>Validation of the data\<close>

fun validate_data_loop ::
  "mconf_config \<Rightarrow> mconf_ctx \<Rightarrow> byte list \<Rightarrow> nat \<Rightarrow> nat \<Rightarrow> mconf_err option" where
  "validate_data_loop cfg ctx d index 0 = Some MCONF_OK"
| "validate_data_loop cfg ctx d index (Suc n) =
     do { e \<leftarrow> mconf_entry_at ctx index;
          if entry_type e = MCONF_TYPE_BOOL then
            do { bs \<leftarrow> mem_read d (mconf_field_ptr e) 1;
                 if bs \<noteq> [0] \<and> bs \<noteq> [1] then Some MCONF_ERR_INVALID
                 else validate_data_loop cfg ctx d (Suc index) n }
          else if entry_type e = MCONF_TYPE_STRING then
            do { (err, _) \<leftarrow> mconf_validate_string_bytes d (mconf_field_ptr e) (entry_size e) None;
                 if err \<noteq> MCONF_OK then Some MCONF_ERR_INVALID
                 else validate_data_loop cfg ctx d (Suc index) n }
          else if entry_type e = MCONF_TYPE_FLOAT32 \<and> \<not> float_supported cfg
            then Some MCONF_ERR_UNSUPPORTED
          else validate_data_loop cfg ctx d (Suc index) n }"

definition mconf_validate_data ::
  "mconf_config \<Rightarrow> mconf_ctx option \<Rightarrow> byte list option \<Rightarrow> mconf_err option" where
  "mconf_validate_data cfg p pd =
     (let ctx_err = mconf_require_context p in
      if ctx_err \<noteq> MCONF_OK then Some ctx_err
      else case pd of
             None \<Rightarrow> Some MCONF_ERR_NULL
           | Some d \<Rightarrow>
               do { ctx \<leftarrow> p;
                    sch \<leftarrow> ctx_schema ctx;
                    validate_data_loop cfg ctx d 0 (unat (entry_count sch)) })"

subsection \<open>Initialisation\<close>

definition mconf_init ::
  "mconf_config \<Rightarrow> mconf_ctx option \<Rightarrow> size_t \<Rightarrow> mconf_schema option \<Rightarrow> byte list option \<Rightarrow> size_t \<Rightarrow>
    (mconf_err \<times> mconf_ctx option) option" where
  "mconf_init cfg p ctx_size psch pd dsize =
     (case p of
        None \<Rightarrow> Some (MCONF_ERR_NULL, p)
      | Some ctx \<Rightarrow>
          if psch = None \<or> pd = None then Some (MCONF_ERR_NULL, p)
          else if ctx_size \<noteq> sizeof_mconf_t then Some (MCONF_ERR_SIZE, p)
          else
            do { sch \<leftarrow> psch;
                 if dsize \<noteq> schema_data_size sch then Some (MCONF_ERR_SIZE, p)
                 else
                   do { (schema_err, fp) \<leftarrow> mconf_schema_validate cfg psch (Some 0);
                        if schema_err \<noteq> MCONF_OK then Some (schema_err, p)
                        else
                          do { fingerprint \<leftarrow> fp;
                               Some (MCONF_OK, Some (ctx\<lparr>ctx_schema := psch, ctx_data := pd,
                                 ctx_data_size := dsize, schema_fingerprint := fingerprint,
                                 initialized := True\<rparr>)) } } })"

subsection \<open>Defaults\<close>

text \<open>\<open>dst\<close> points at offset \<open>off\<close> of the object \<open>m\<close>; the result holds the object after the call.\<close>

definition mconf_apply_default_to_field ::
  "byte list \<Rightarrow> nat \<Rightarrow> mconf_entry \<Rightarrow> (mconf_err \<times> byte list) option" where
  "mconf_apply_default_to_field m off e =
     (case default_value e of
        None \<Rightarrow>
          do { m1 \<leftarrow> mem_write m off (replicate (unat (entry_size e)) 0);
               Some (MCONF_OK, m1) }
      | Some dv \<Rightarrow>
          if entry_type e = MCONF_TYPE_STRING then
            do { m1 \<leftarrow> mem_write m off (replicate (unat (entry_size e)) 0);
                 bs \<leftarrow> mem_read dv 0 (unat (default_size e));
                 m2 \<leftarrow> mem_write m1 off bs;
                 m3 \<leftarrow> mem_write m2 (off + unat (default_size e)) [0];
                 Some (MCONF_OK, m3) }
          else
            do { bs \<leftarrow> mem_read dv 0 (unat (entry_size e));
                 m1 \<leftarrow> mem_write m off bs;
                 Some (MCONF_OK, m1) })"

fun load_defaults_loop :: "mconf_ctx \<Rightarrow> nat \<Rightarrow> nat \<Rightarrow> byte list \<Rightarrow> (mconf_err \<times> byte list) option" where
  "load_defaults_loop ctx index 0 d = Some (MCONF_OK, d)"
| "load_defaults_loop ctx index (Suc n) d =
     do { e \<leftarrow> mconf_entry_at ctx index;
          (default_err, d1) \<leftarrow> mconf_apply_default_to_field d (mconf_field_ptr e) e;
          if default_err \<noteq> MCONF_OK then Some (default_err, d1)
          else load_defaults_loop ctx (Suc index) n d1 }"

definition mconf_load_defaults :: "mconf_ctx option \<Rightarrow> (mconf_err \<times> mconf_ctx option) option" where
  "mconf_load_defaults p =
     (let err = mconf_require_context p in
      if err \<noteq> MCONF_OK then Some (err, p)
      else
        do { ctx \<leftarrow> p;
             sch \<leftarrow> ctx_schema ctx;
             d \<leftarrow> ctx_data ctx;
             d0 \<leftarrow> mem_write d 0 (replicate (unat (ctx_data_size ctx)) 0);
             (err, d1) \<leftarrow> load_defaults_loop ctx 0 (unat (entry_count sch)) d0;
             Some (err, Some (ctx\<lparr>ctx_data := Some d1\<rparr>)) })"

definition mconf_reset_field :: "mconf_ctx option \<Rightarrow> size_t \<Rightarrow> (mconf_err \<times> mconf_ctx option) option" where
  "mconf_reset_field p index =
     do { err \<leftarrow> mconf_check_index p index;
          if err \<noteq> MCONF_OK then Some (err, p)
          else
            do { ctx \<leftarrow> p;
                 e \<leftarrow> mconf_entry_at ctx (unat index);
                 d \<leftarrow> ctx_data ctx;
                 (err, d1) \<leftarrow> mconf_apply_default_to_field d (mconf_field_ptr e) e;
                 Some (err, Some (ctx\<lparr>ctx_data := Some d1\<rparr>)) } }"

subsection \<open>Lookup by key\<close>

fun find_loop :: "mconf_ctx \<Rightarrow> string \<Rightarrow> nat \<Rightarrow> nat \<Rightarrow> nat option option" where
  "find_loop ctx k index 0 = Some None"
| "find_loop ctx k index (Suc n) =
     do { e \<leftarrow> mconf_entry_at ctx index;
          if key e \<noteq> None \<and> key e = Some k then Some (Some index)
          else find_loop ctx k (Suc index) n }"

text \<open>The result is the error and \<open>*index_out\<close> (\<open>None\<close> for a null pointer).\<close>

definition mconf_find ::
  "mconf_config \<Rightarrow> mconf_ctx option \<Rightarrow> string option \<Rightarrow> size_t option \<Rightarrow>
    (mconf_err \<times> size_t option) option" where
  "mconf_find cfg p pkey index_out =
     (let err = mconf_require_context p in
      if err \<noteq> MCONF_OK then Some (err, index_out)
      else case pkey of
             None \<Rightarrow> Some (MCONF_ERR_NULL, index_out)
           | Some k \<Rightarrow>
               if index_out = None then Some (MCONF_ERR_NULL, index_out)
               else if \<not> ENABLE_NAMES cfg then Some (MCONF_ERR_UNSUPPORTED, index_out)
               else
                 do { ctx \<leftarrow> p;
                      sch \<leftarrow> ctx_schema ctx;
                      found \<leftarrow> find_loop ctx k 0 (unat (entry_count sch));
                      Some (case found of
                              Some index \<Rightarrow> (MCONF_OK, Some (of_nat index))
                            | None \<Rightarrow> (MCONF_ERR_NOT_FOUND, index_out)) })"

end
