(* ===== verification/Mconf_Fields.thy ===== *)
theory Mconf_Fields
  imports Mconf_Context
begin

text \<open>
  What every operation on the fields of a configuration relies on: the contract \<open>field_store\<close> of a
  collection of fixed-width fields, of which writing one leaves the others alone. It is interpreted
  twice, on the data object under a table of entries (where the proof is that validated entries do
  not overlap) and on a context that satisfies the invariant \<open>ctx_ok\<close>. The setters, the defaults and
  the loader all reduce to writes of this store.
\<close>

section \<open>The contract\<close>

text \<open>
  \<open>inv l s\<close> says that state \<open>s\<close> fits the layout \<open>l\<close>; fields are numbered below \<open>count l s\<close>, and field
  \<open>i\<close> holds \<open>width l s i\<close> values.
\<close>

locale field_store =
  fixes inv :: "'l \<Rightarrow> 's \<Rightarrow> bool"
    and count :: "'l \<Rightarrow> 's \<Rightarrow> nat"
    and width :: "'l \<Rightarrow> 's \<Rightarrow> nat \<Rightarrow> nat"
    and rd :: "'l \<Rightarrow> 's \<Rightarrow> nat \<Rightarrow> 'v list"
    and wr :: "'l \<Rightarrow> 's \<Rightarrow> nat \<Rightarrow> 'v list \<Rightarrow> 's"
  assumes wr_inv: "inv l s \<Longrightarrow> i < count l s \<Longrightarrow> length v = width l s i \<Longrightarrow> inv l (wr l s i v)"
    and wr_count: "count l (wr l s i v) = count l s"
    and wr_width: "width l (wr l s i v) j = width l s j"
    and rd_width: "inv l s \<Longrightarrow> i < count l s \<Longrightarrow> length (rd l s i) = width l s i"
    and rd_wr_same: "inv l s \<Longrightarrow> i < count l s \<Longrightarrow> length v = width l s i \<Longrightarrow> rd l (wr l s i v) i = v"
    and rd_wr_other: "inv l s \<Longrightarrow> i < count l s \<Longrightarrow> length v = width l s i \<Longrightarrow> j < count l s \<Longrightarrow>
          j \<noteq> i \<Longrightarrow> rd l (wr l s i v) j = rd l s j"
begin

lemma rd_wr:
  "inv l s \<Longrightarrow> i < count l s \<Longrightarrow> length v = width l s i \<Longrightarrow> j < count l s \<Longrightarrow>
     rd l (wr l s i v) j = (if j = i then v else rd l s j)"
  by (simp add: rd_wr_same rd_wr_other)

text \<open>Writing fields \<open>i ..< n\<close> in order, as the loops of the code do.\<close>

lemma fold_wr:
  assumes "inv l s" and "n \<le> count l s" and "i \<le> n"
    and "\<And>k. k < count l s \<Longrightarrow> length (f k) = width l s k"
  shows "inv l (fold (\<lambda>k s. wr l s k (f k)) [i..<n] s) \<and>
    count l (fold (\<lambda>k s. wr l s k (f k)) [i..<n] s) = count l s \<and>
    (\<forall>j. width l (fold (\<lambda>k s. wr l s k (f k)) [i..<n] s) j = width l s j) \<and>
    (\<forall>j < count l s. rd l (fold (\<lambda>k s. wr l s k (f k)) [i..<n] s) j =
       (if i \<le> j \<and> j < n then f j else rd l s j))"
  using assms
proof (induction "n - i" arbitrary: i s)
  case 0
  then show ?case by auto
next
  case (Suc d)
  then have i: "i < n" "i < count l s" by auto
  let ?s = "wr l s i (f i)"
  have "inv l ?s" using Suc.prems i by (simp add: wr_inv)
  moreover have "rd l ?s j = (if j = i then f i else rd l s j)" if "j < count l s" for j
    using Suc.prems i that by (simp add: rd_wr)
  ultimately show ?case
    using Suc.hyps(1) [of "Suc i" ?s] Suc.hyps(2) Suc.prems i
    by (auto simp: upt_conv_Cons wr_count wr_width) (metis le_antisym not_less_eq_eq)
qed

text \<open>Writes to different fields commute, as far as any read can tell.\<close>

lemma wr_commute:
  assumes "inv l s" "i < count l s" "k < count l s" "i \<noteq> k"
    and "length v = width l s i" "length w = width l s k" "j < count l s"
  shows "rd l (wr l (wr l s i v) k w) j = rd l (wr l (wr l s k w) i v) j"
  using assms by (simp add: rd_wr wr_inv wr_count wr_width)

end

section \<open>Fields of a data object\<close>

definition layout_ok :: "mconf_entry list \<Rightarrow> nat \<Rightarrow> bool" where
  "layout_ok es n \<longleftrightarrow>
     (\<forall>e \<in> set es. entry_end e \<le> n) \<and>
     sorted_wrt (\<lambda>e f. entry_end e \<le> unat (offset f) \<or> entry_end f \<le> unat (offset e)) es"

definition entry_width :: "mconf_entry list \<Rightarrow> byte list \<Rightarrow> nat \<Rightarrow> nat" where
  "entry_width es d i = unat (entry_size (es ! i))"

definition field_get :: "mconf_entry list \<Rightarrow> byte list \<Rightarrow> nat \<Rightarrow> byte list" where
  "field_get es d i = chunk d (unat (offset (es ! i))) (unat (entry_size (es ! i)))"

definition field_put :: "mconf_entry list \<Rightarrow> byte list \<Rightarrow> nat \<Rightarrow> byte list \<Rightarrow> byte list" where
  "field_put es d i bs = patch d (unat (offset (es ! i))) bs"

lemma layout_range:
  "layout_ok es n \<Longrightarrow> i < length es \<Longrightarrow> unat (offset (es ! i)) + unat (entry_size (es ! i)) \<le> n"
  by (auto simp: layout_ok_def entry_end_def)

lemma layout_disjoint:
  assumes "layout_ok es n" and "i < length es" and "j < length es" and "i \<noteq> j"
  shows "entry_end (es ! i) \<le> unat (offset (es ! j)) \<or> entry_end (es ! j) \<le> unat (offset (es ! i))"
proof -
  have "i < j \<or> j < i" using assms(4) by arith
  then show ?thesis using assms unfolding layout_ok_def sorted_wrt_iff_nth_less by blast
qed

interpretation fields: field_store "\<lambda>es d. layout_ok es (length d)" "\<lambda>es d. length es"
  entry_width field_get field_put
proof (unfold_locales, goal_cases)
  case (1 es d i v)
  then have "length (field_put es d i v) = length d"
    using layout_range [of es "length d" i] by (simp add: field_put_def entry_width_def)
  with 1 show ?case by simp
next
  case (4 es d i)
  then show ?case using layout_range by (simp add: field_get_def entry_width_def)
next
  case (5 es d i v)
  then show ?case using layout_range [of es "length d" i]
    by (simp add: field_get_def field_put_def entry_width_def chunk_patch_eq)
next
  case (6 es d i v j)
  then show ?case
    using layout_range [of es "length d" i] layout_range [of es "length d" j]
      layout_disjoint [of es "length d" i j]
    by (auto simp: field_get_def field_put_def entry_width_def entry_end_def intro: chunk_patch_other)
qed (simp_all add: entry_width_def)

lemma length_field_put:
  "layout_ok es (length d) \<Longrightarrow> i < length es \<Longrightarrow> length bs = unat (entry_size (es ! i)) \<Longrightarrow>
     length (field_put es d i bs) = length d"
  using layout_range [of es "length d" i] by (simp add: field_put_def)

lemma length_fold_field_put:
  assumes "layout_ok es (length d)"
    and "\<And>k. k \<in> set ks \<Longrightarrow> k < length es \<and> length (f k) = unat (entry_size (es ! k))"
  shows "length (fold (\<lambda>k d. field_put es d k (f k)) ks d) = length d"
  using assms by (induction ks arbitrary: d) (simp_all add: length_field_put)

section \<open>The context invariant\<close>

text \<open>What the client promises about the objects its schema points to.\<close>

definition client_ok :: "mconf_schema \<Rightarrow> bool" where
  "client_ok sch \<longleftrightarrow>
     schema_array_ok sch \<and>
     (\<forall>e \<in> set (live_entries sch).
        case default_value e of None \<Rightarrow> True | Some bs \<Rightarrow> unat (default_size e) \<le> length bs)"

definition ctx_ok :: "mconf_config \<Rightarrow> mconf_ctx \<Rightarrow> bool" where
  "ctx_ok cfg ctx \<longleftrightarrow>
     initialized ctx \<and>
     (case ctx_schema ctx of
        None \<Rightarrow> False
      | Some sch \<Rightarrow>
          schema_ok cfg sch \<and> client_ok sch \<and> ctx_data_size ctx = schema_data_size sch \<and>
          schema_fingerprint ctx = schema_hash sch) \<and>
     (case ctx_data ctx of None \<Rightarrow> False | Some d \<Rightarrow> length d = unat (ctx_data_size ctx))"

definition ctx_entries :: "mconf_ctx \<Rightarrow> mconf_entry list" where
  "ctx_entries ctx = (case ctx_schema ctx of None \<Rightarrow> [] | Some sch \<Rightarrow> live_entries sch)"

definition ctx_bytes :: "mconf_ctx \<Rightarrow> byte list" where
  "ctx_bytes ctx = (case ctx_data ctx of None \<Rightarrow> [] | Some d \<Rightarrow> d)"

definition ctx_field :: "mconf_ctx \<Rightarrow> nat \<Rightarrow> byte list" where
  "ctx_field ctx i = field_get (ctx_entries ctx) (ctx_bytes ctx) i"

definition ctx_put :: "mconf_ctx \<Rightarrow> nat \<Rightarrow> byte list \<Rightarrow> mconf_ctx" where
  "ctx_put ctx i bs = ctx\<lparr>ctx_data := Some (field_put (ctx_entries ctx) (ctx_bytes ctx) i bs)\<rparr>"

lemma ctx_okE:
  assumes "ctx_ok cfg ctx"
  obtains sch es where "ctx_schema ctx = Some sch" "entries sch = Some es"
    "ctx_data ctx = Some (ctx_bytes ctx)" "schema_ok cfg sch" "client_ok sch"
    "initialized ctx" "ctx_data_size ctx = schema_data_size sch"
    "length (ctx_bytes ctx) = unat (schema_data_size sch)"
    "schema_fingerprint ctx = schema_hash sch" "unat (entry_count sch) \<le> length es"
    "ctx_entries ctx = take (unat (entry_count sch)) es"
proof -
  from assms obtain sch d where s: "ctx_schema ctx = Some sch" "ctx_data ctx = Some d"
      "schema_ok cfg sch" "client_ok sch" "initialized ctx" "ctx_data_size ctx = schema_data_size sch"
      "length d = unat (ctx_data_size ctx)" "schema_fingerprint ctx = schema_hash sch"
    by (auto simp: ctx_ok_def split: option.splits)
  moreover from s obtain es where "entries sch = Some es" by (auto simp: schema_ok_def)
  ultimately show thesis
    by (intro that)
       (auto simp: client_ok_def schema_array_ok_def ctx_entries_def ctx_bytes_def live_entries_def)
qed

lemma ctx_length_entries:
  "ctx_ok cfg ctx \<Longrightarrow> ctx_schema ctx = Some sch \<Longrightarrow> length (ctx_entries ctx) = unat (entry_count sch)"
  by (elim ctx_okE) simp

lemma ctx_layout: "ctx_ok cfg ctx \<Longrightarrow> layout_ok (ctx_entries ctx) (length (ctx_bytes ctx))"
proof (elim ctx_okE)
  fix sch es
  assume s: "schema_ok cfg sch" "entries sch = Some es" "ctx_schema ctx = Some sch"
    "length (ctx_bytes ctx) = unat (schema_data_size sch)"
  then have "sorted_wrt entries_compatible (ctx_entries ctx)"
    "\<forall>e \<in> set (ctx_entries ctx). entry_ok cfg (schema_data_size sch) e"
    by (simp_all add: schema_ok_def ctx_entries_def)
  with s show ?thesis
    by (auto simp: layout_ok_def entry_ok_def entries_compatible_def elim: sorted_wrt_mono_rel [rotated])
qed

lemma ctx_entry_ok:
  "ctx_ok cfg ctx \<Longrightarrow> i < length (ctx_entries ctx) \<Longrightarrow>
     entry_ok cfg (ctx_data_size ctx) (ctx_entries ctx ! i)"
  by (elim ctx_okE) (auto simp: schema_ok_def ctx_entries_def dest!: bspec [OF _ nth_mem])

lemma ctx_entry_range:
  "ctx_ok cfg ctx \<Longrightarrow> i < length (ctx_entries ctx) \<Longrightarrow>
     unat (offset (ctx_entries ctx ! i)) + unat (entry_size (ctx_entries ctx ! i))
       \<le> length (ctx_bytes ctx)"
  by (rule layout_range [OF ctx_layout])

lemma ctx_default_object:
  "ctx_ok cfg ctx \<Longrightarrow> i < length (ctx_entries ctx) \<Longrightarrow>
     default_value (ctx_entries ctx ! i) = Some bs \<Longrightarrow>
     unat (default_size (ctx_entries ctx ! i)) \<le> length bs"
proof (elim ctx_okE)
  fix sch es
  assume i: "i < length (ctx_entries ctx)" and d: "default_value (ctx_entries ctx ! i) = Some bs"
    and s: "ctx_schema ctx = Some sch" "client_ok sch"
  then have "ctx_entries ctx ! i \<in> set (live_entries sch)"
    by (metis ctx_entries_def nth_mem option.simps(5))
  with s(2) d show ?thesis by (force simp: client_ok_def)
qed

lemma ctx_data_bytes [mem_simps]: "ctx_ok cfg ctx \<Longrightarrow> ctx_data ctx = Some (ctx_bytes ctx)"
  by (elim ctx_okE) simp

lemma ctx_ok_set_data [simp]:
  "length d = length (ctx_bytes ctx) \<Longrightarrow> ctx_ok cfg ctx \<Longrightarrow> ctx_ok cfg (ctx\<lparr>ctx_data := Some d\<rparr>)"
  by (auto simp: ctx_ok_def ctx_bytes_def split: option.splits)

lemma ctx_entries_set_data [simp]: "ctx_entries (ctx\<lparr>ctx_data := d\<rparr>) = ctx_entries ctx"
  by (simp add: ctx_entries_def)

lemma ctx_bytes_set_data [simp]: "ctx_bytes (ctx\<lparr>ctx_data := Some d\<rparr>) = d"
  by (simp add: ctx_bytes_def)

interpretation ctx_fields: field_store ctx_ok "\<lambda>cfg ctx. length (ctx_entries ctx)"
  "\<lambda>cfg ctx i. unat (entry_size (ctx_entries ctx ! i))" "\<lambda>cfg ctx. ctx_field ctx"
  "\<lambda>cfg ctx. ctx_put ctx"
proof (unfold_locales, goal_cases)
  case (1 cfg ctx i v)
  then show ?case
    using length_field_put [OF ctx_layout] by (simp add: ctx_put_def)
next
  case (4 cfg ctx i)
  then show ?case
    using fields.rd_width [OF ctx_layout] by (simp add: ctx_field_def entry_width_def)
next
  case (5 cfg ctx i v)
  then show ?case
    using fields.rd_wr_same [OF ctx_layout] by (simp add: ctx_field_def ctx_put_def entry_width_def)
next
  case (6 cfg ctx i v j)
  then show ?case
    using fields.rd_wr_other [OF ctx_layout] by (simp add: ctx_field_def ctx_put_def entry_width_def)
qed (simp_all add: ctx_put_def)

section \<open>The guards on a well-formed context\<close>

lemma require_context_ok [simp]: "ctx_ok cfg ctx \<Longrightarrow> mconf_require_context (Some ctx) = MCONF_OK"
  by (elim ctx_okE) (simp add: mconf_require_context_def)

lemma check_index_eq:
  assumes "ctx_ok cfg ctx"
  shows "mconf_check_index (Some ctx) index =
    Some (if unat index < length (ctx_entries ctx) then MCONF_OK else MCONF_ERR_NOT_FOUND)"
  using assms
  by (elim ctx_okE) (simp add: assms require_context_ok [OF assms] mconf_check_index_def
      word_le_nat_alt not_less)

lemma entry_at_eq:
  assumes "ctx_ok cfg ctx" and "i < length (ctx_entries ctx)"
  shows "mconf_entry_at ctx i = Some (ctx_entries ctx ! i)"
  using assms by (elim ctx_okE) (simp add: mconf_entry_at_def mem_simps)

lemmas ctx_guards = check_index_eq entry_at_eq ctx_data_bytes require_context_ok

section \<open>The context of the tests\<close>

text \<open>The context before \<open>mconf_init\<close>, and after it on a zeroed configuration struct.\<close>

definition blank_ctx :: mconf_ctx where
  "blank_ctx = \<lparr>ctx_schema = None, ctx_data = None, ctx_data_size = 0, schema_fingerprint = 0,
     initialized = False\<rparr>"

definition demo_ctx :: mconf_ctx where
  "demo_ctx = \<lparr>ctx_schema = Some demo_schema, ctx_data = Some (replicate 20 0), ctx_data_size = 20,
     schema_fingerprint = schema_hash demo_schema, initialized = True\<rparr>"

lemma demo_client_ok: "client_ok demo_schema"
  by (simp add: client_ok_def)
     (simp add: schema_array_ok_def demo_schema_def demo_entries_def)

lemma demo_ctx_ok: "ctx_ok default_config demo_ctx"
  using demo_schema_ok demo_client_ok
  by (simp add: ctx_ok_def demo_ctx_def) (simp add: demo_schema_def)

lemma demo_ctx_entries [simp]: "ctx_entries demo_ctx = demo_entries"
  by (simp add: ctx_entries_def demo_ctx_def)

lemma demo_ctx_bytes [simp]: "ctx_bytes demo_ctx = replicate 20 0"
  by (simp add: ctx_bytes_def demo_ctx_def)

section \<open>Properties\<close>

text \<open>
  C18. \<open>mconf_init\<close> succeeds exactly when the size of the context, the size of the data and the schema are
  as required, and then establishes the invariant \<open>ctx_ok\<close> on the caller's data; otherwise it leaves
  the context as it was.
\<close>

theorem init_establishes_invariant:
  assumes "schema_array_ok sch" and "client_ok sch" and "length d = unat dsize"
  shows "\<exists>err p'. mconf_init cfg (Some ctx) n (Some sch) (Some d) dsize = Some (err, p') \<and>
    (err = MCONF_OK \<longleftrightarrow> n = sizeof_mconf_t \<and> dsize = schema_data_size sch \<and> schema_ok cfg sch) \<and>
    (if err = MCONF_OK
     then \<exists>ctx'. p' = Some ctx' \<and> ctx_ok cfg ctx' \<and> ctx_bytes ctx' = d \<and> ctx_entries ctx' = live_entries sch
     else p' = Some ctx)"
  using assms
  by (cases "entries sch = None")
     (auto simp: mconf_init_def schema_validate_eq ctx_ok_def ctx_bytes_def ctx_entries_def schema_ok_def)

theorem init_establishes_invariant_witness:
  "\<exists>err p'. mconf_init default_config (Some blank_ctx) 32 (Some demo_schema) (Some (replicate 20 0)) 20 = Some (err, p') \<and>
    (err = MCONF_OK \<longleftrightarrow> (32 :: size_t) = sizeof_mconf_t \<and> 20 = schema_data_size demo_schema \<and>
       schema_ok default_config demo_schema) \<and>
    (if err = MCONF_OK
     then \<exists>ctx'. p' = Some ctx' \<and> ctx_ok default_config ctx' \<and> ctx_bytes ctx' = replicate 20 0 \<and>
       ctx_entries ctx' = live_entries demo_schema
     else p' = Some blank_ctx)"
proof (rule init_establishes_invariant)
  show "schema_array_ok demo_schema" by (simp add: schema_array_ok_def demo_schema_def demo_entries_def)
qed (simp_all add: demo_client_ok)

end
