(* ===== verification/Mconf_Data.thy ===== *)
theory Mconf_Data
  imports Mconf_Fields
begin

text \<open>
  Validation of a configuration's bytes, defaults and lookup by key, on a well-formed context: each
  operation of Mconf_Context is shown to return, and its result is given in terms of the fields.
\<close>

section \<open>Strings\<close>

definition c_strlen :: "byte list \<Rightarrow> nat" where
  "c_strlen bs = length (takeWhile (\<lambda>b. b \<noteq> 0) bs)"

lemma c_strlen_le: "c_strlen bs \<le> length bs"
  by (simp add: c_strlen_def length_takeWhile_le)

lemma c_strlen_less_iff: "c_strlen bs < length bs \<longleftrightarrow> 0 \<in> set bs"
  unfolding c_strlen_def by (induction bs) auto

lemma c_strlen_Cons: "c_strlen (b # bs) = (if b = 0 then 0 else Suc (c_strlen bs))"
  by (simp add: c_strlen_def)

lemma c_strlen_append_zeros:
  "0 \<notin> set bs \<Longrightarrow> c_strlen (bs @ replicate n 0) = length bs"
  by (induction bs) (auto simp: c_strlen_def takeWhile_eq_Nil_iff takeWhile_append2)

lemma nth_c_strlen: "0 \<in> set bs \<Longrightarrow> bs ! c_strlen bs = 0"
  unfolding c_strlen_def using nth_length_takeWhile [of "\<lambda>b. b \<noteq> 0" bs]
  by (metis c_strlen_def c_strlen_less_iff)

lemma take_c_strlen_no_nul: "0 \<notin> set (take (c_strlen bs) bs)"
  unfolding c_strlen_def takeWhile_eq_take [symmetric] by (auto dest: set_takeWhileD)

lemma string_scan_eq [mem_simps]:
  "off + i + n \<le> length m \<Longrightarrow>
     string_scan m off i n =
       Some (if c_strlen (chunk m (off + i) n) < n
             then Some (i + c_strlen (chunk m (off + i) n)) else None)"
proof (induction n arbitrary: i)
  case 0
  then show ?case by simp
next
  case (Suc n)
  have "chunk m (off + i) (Suc n) = m ! (off + i) # chunk m (off + Suc i) n"
    using Suc.prems by (simp add: chunk_def Cons_nth_drop_Suc [symmetric])
  with Suc show ?case by (simp add: mem_simps c_strlen_Cons)
qed

lemma validate_string_bytes_eq [mem_simps]:
  assumes "off + unat sz \<le> length m" and "2 \<le> sz"
  shows "mconf_validate_string_bytes m off sz lo =
    Some (if 0 \<in> set (chunk m off (unat sz))
          then (MCONF_OK, map_option (\<lambda>_. of_nat (c_strlen (chunk m off (unat sz)))) lo)
          else (MCONF_ERR_INVALID, lo))"
  using assms c_strlen_less_iff [of "chunk m off (unat sz)"]
  by (simp add: mconf_validate_string_bytes_def mem_simps not_less [symmetric])

section \<open>Validation\<close>

text \<open>What \<open>mconf_validate_data\<close> says about one field.\<close>

definition field_error :: "mconf_config \<Rightarrow> mconf_entry \<Rightarrow> byte list \<Rightarrow> mconf_err" where
  "field_error cfg e bs =
     (if entry_type e = MCONF_TYPE_BOOL \<and> bs \<noteq> [0] \<and> bs \<noteq> [1] then MCONF_ERR_INVALID
      else if entry_type e = MCONF_TYPE_STRING \<and> 0 \<notin> set bs then MCONF_ERR_INVALID
      else if entry_type e = MCONF_TYPE_FLOAT32 \<and> \<not> float_supported cfg then MCONF_ERR_UNSUPPORTED
      else MCONF_OK)"

definition first_error :: "mconf_err list \<Rightarrow> mconf_err" where
  "first_error errs = (case filter (\<lambda>e. e \<noteq> MCONF_OK) errs of [] \<Rightarrow> MCONF_OK | e # _ \<Rightarrow> e)"

definition data_valid :: "mconf_config \<Rightarrow> mconf_entry list \<Rightarrow> byte list \<Rightarrow> bool" where
  "data_valid cfg es d \<longleftrightarrow> (\<forall>i < length es. field_error cfg (es ! i) (field_get es d i) = MCONF_OK)"

lemma first_error_Nil [simp]: "first_error [] = MCONF_OK"
  by (simp add: first_error_def)

lemma first_error_Cons [simp]:
  "first_error (e # errs) = (if e = MCONF_OK then first_error errs else e)"
  by (simp add: first_error_def)

lemma first_error_OK_iff: "first_error errs = MCONF_OK \<longleftrightarrow> (\<forall>e \<in> set errs. e = MCONF_OK)"
  by (induction errs) auto

text \<open>The errors of the fields in the order of the schema.\<close>

definition field_errors :: "mconf_config \<Rightarrow> mconf_entry list \<Rightarrow> byte list \<Rightarrow> nat \<Rightarrow> mconf_err list" where
  "field_errors cfg es d i = map (\<lambda>k. field_error cfg (es ! k) (field_get es d k)) [i..<length es]"

lemma field_errors_Cons:
  "i < length es \<Longrightarrow>
     field_errors cfg es d i = field_error cfg (es ! i) (field_get es d i) # field_errors cfg es d (Suc i)"
  by (simp add: field_errors_def upt_conv_Cons)

lemma field_errors_Nil [simp]: "field_errors cfg es d (length es) = []"
  by (simp add: field_errors_def)

lemma validate_data_loop_eq:
  assumes ok: "ctx_ok cfg ctx" and "length d = length (ctx_bytes ctx)"
    and "i + n = length (ctx_entries ctx)"
  shows "validate_data_loop cfg ctx d i n = Some (first_error (field_errors cfg (ctx_entries ctx) d i))"
  using assms(3)
proof (induction n arbitrary: i)
  case 0
  then show ?case by simp
next
  case (Suc n)
  let ?e = "ctx_entries ctx ! i" and ?rest = "first_error (field_errors cfg (ctx_entries ctx) d (Suc i))"
  let ?bs = "field_get (ctx_entries ctx) d i"
  have i: "i < length (ctx_entries ctx)" using Suc.prems by simp
  have range: "unat (offset ?e) + unat (entry_size ?e) \<le> length d"
    using ctx_entry_range [OF ok i] assms(2) by simp
  have e: "entry_ok cfg (ctx_data_size ctx) ?e" using ctx_entry_ok [OF ok i] .
  have IH: "validate_data_loop cfg ctx d (Suc i) n = Some ?rest"
    using Suc.prems by (intro Suc.IH) simp
  note step = IH entry_at_eq [OF ok i] field_error_def field_get_def mconf_field_ptr_def mem_simps
  consider "entry_type ?e = MCONF_TYPE_BOOL" | "entry_type ?e = MCONF_TYPE_STRING"
    | "entry_type ?e \<noteq> MCONF_TYPE_BOOL" "entry_type ?e \<noteq> MCONF_TYPE_STRING" by blast
  then show ?case
  proof cases
    case 1
    then have "entry_size ?e = 1"
      using e by (simp add: entry_ok_def mconf_expected_type_size_def scalar_type_cases)
    with 1 range show ?thesis by (simp add: step field_errors_Cons [OF i])
  next
    case 2
    then have "2 \<le> entry_size ?e" using e by (simp add: entry_ok_def)
    with 2 range show ?thesis by (simp add: step field_errors_Cons [OF i])
  next
    case 3
    with range show ?thesis by (simp add: step field_errors_Cons [OF i])
  qed
qed

lemma validate_data_eq:
  assumes "ctx_ok cfg ctx" and "length d = length (ctx_bytes ctx)"
  shows "mconf_validate_data cfg (Some ctx) (Some d) =
    Some (first_error (field_errors cfg (ctx_entries ctx) d 0))"
proof -
  obtain sch where sch: "ctx_schema ctx = Some sch" using assms(1) by (elim ctx_okE) auto
  show ?thesis
    using validate_data_loop_eq [OF assms, of 0] ctx_length_entries [OF assms(1) sch]
    by (simp add: mconf_validate_data_def require_context_ok [OF assms(1)] sch)
qed

lemma validate_data_OK_iff:
  assumes "ctx_ok cfg ctx" and "length d = length (ctx_bytes ctx)"
  shows "mconf_validate_data cfg (Some ctx) (Some d) = Some MCONF_OK \<longleftrightarrow>
    data_valid cfg (ctx_entries ctx) d"
  by (auto simp: validate_data_eq [OF assms] first_error_OK_iff data_valid_def field_errors_def)

section \<open>Defaults\<close>

text \<open>The bytes that a field holds after its default has been applied.\<close>

definition default_bytes :: "mconf_entry \<Rightarrow> byte list" where
  "default_bytes e =
     (case default_value e of
        None \<Rightarrow> replicate (unat (entry_size e)) 0
      | Some dv \<Rightarrow>
          if entry_type e = MCONF_TYPE_STRING
          then take (unat (default_size e)) dv @ replicate (unat (entry_size e) - unat (default_size e)) 0
          else take (unat (entry_size e)) dv)"

definition default_object_ok :: "mconf_entry \<Rightarrow> bool" where
  "default_object_ok e \<longleftrightarrow>
     (case default_value e of None \<Rightarrow> True | Some bs \<Rightarrow> unat (default_size e) \<le> length bs)"

lemma length_default_bytes:
  "default_ok e \<Longrightarrow> default_object_ok e \<Longrightarrow> length (default_bytes e) = unat (entry_size e)"
  by (auto simp: default_bytes_def default_ok_def default_object_ok_def word_less_nat_alt
      split: option.splits if_splits)

lemma patch_patch_prefix:
  assumes "off + length zs \<le> length m" and "length bs < length zs" and "\<forall>k \<ge> length bs. k < length zs \<longrightarrow> zs ! k = 0"
  shows "patch (patch (patch m off zs) off bs) (off + length bs) [0] =
    patch m off (bs @ drop (length bs) zs)"
proof (rule nth_equalityI)
  show "length (patch (patch (patch m off zs) off bs) (off + length bs) [0]) =
    length (patch m off (bs @ drop (length bs) zs))"
    using assms by simp
  fix i assume "i < length (patch (patch (patch m off zs) off bs) (off + length bs) [0])"
  then have "i < length m" using assms by simp
  then show "patch (patch (patch m off zs) off bs) (off + length bs) [0] ! i =
      patch m off (bs @ drop (length bs) zs) ! i"
    using assms by (auto simp: nth_patch nth_append)
qed

lemma apply_default_eq:
  assumes "default_ok e" and "default_object_ok e" and "off + unat (entry_size e) \<le> length m"
  shows "mconf_apply_default_to_field m off e = Some (MCONF_OK, patch m off (default_bytes e))"
proof (cases "default_value e")
  case None
  then show ?thesis
    using assms by (simp add: mconf_apply_default_to_field_def default_bytes_def mem_simps)
next
  case (Some dv)
  then have len: "unat (default_size e) \<le> length dv"
    using assms(2) by (simp add: default_object_ok_def)
  show ?thesis
  proof (cases "entry_type e = MCONF_TYPE_STRING")
    case True
    then have lt: "unat (default_size e) < unat (entry_size e)"
      using assms(1) Some by (simp add: default_ok_def word_less_nat_alt)
    have l: "length (chunk dv 0 (unat (default_size e))) = unat (default_size e)"
      using len by simp
    show ?thesis
      using patch_patch_prefix [of off "replicate (unat (entry_size e)) 0" m
          "chunk dv 0 (unat (default_size e))"] assms(3) lt l len Some True
      by (simp add: mconf_apply_default_to_field_def default_bytes_def mem_simps)
         (simp add: chunk_def)
  next
    case False
    then have "default_size e = entry_size e"
      using assms(1) Some by (simp add: default_ok_def)
    with Some False len assms(3) show ?thesis
      by (simp add: mconf_apply_default_to_field_def default_bytes_def mem_simps)
         (simp add: chunk_def)
  qed
qed

lemma ctx_default_ok:
  assumes "ctx_ok cfg ctx" and "i < length (ctx_entries ctx)"
  shows "default_ok (ctx_entries ctx ! i)" and "default_object_ok (ctx_entries ctx ! i)"
  using ctx_entry_ok [OF assms] ctx_default_object [OF assms]
  by (auto simp: entry_ok_def default_object_ok_def split: option.splits)

lemma load_defaults_loop_eq:
  assumes ok: "ctx_ok cfg ctx" and "i + n = length (ctx_entries ctx)"
    and "length d = length (ctx_bytes ctx)"
  shows "load_defaults_loop ctx i n d =
    Some (MCONF_OK, fold (\<lambda>k d. field_put (ctx_entries ctx) d k (default_bytes (ctx_entries ctx ! k)))
                         [i..<length (ctx_entries ctx)] d)"
  using assms(2,3)
proof (induction n arbitrary: i d)
  case 0
  then show ?case by simp
next
  case (Suc n)
  let ?e = "ctx_entries ctx ! i"
  have i: "i < length (ctx_entries ctx)" using Suc.prems by simp
  note default = ctx_default_ok [OF ok i]
  have range: "unat (offset ?e) + unat (entry_size ?e) \<le> length d"
    using ctx_entry_range [OF ok i] Suc.prems by simp
  have "length (patch d (unat (offset ?e)) (default_bytes ?e)) = length (ctx_bytes ctx)"
    using range Suc.prems by (simp add: length_default_bytes default)
  then show ?case
    using Suc range upt_conv_Cons [OF i]
    by (simp add: entry_at_eq [OF ok i] apply_default_eq default mconf_field_ptr_def field_put_def)
qed

text \<open>The data after \<open>mconf_load_defaults\<close>.\<close>

definition defaults_image :: "mconf_ctx \<Rightarrow> byte list" where
  "defaults_image ctx =
     fold (\<lambda>k d. field_put (ctx_entries ctx) d k (default_bytes (ctx_entries ctx ! k)))
       [0..<length (ctx_entries ctx)] (replicate (length (ctx_bytes ctx)) 0)"

lemma defaults_image_fields:
  assumes "ctx_ok cfg ctx"
  shows "length (defaults_image ctx) = length (ctx_bytes ctx)"
    and "i < length (ctx_entries ctx) \<Longrightarrow>
      field_get (ctx_entries ctx) (defaults_image ctx) i = default_bytes (ctx_entries ctx ! i)"
proof -
  let ?es = "ctx_entries ctx" and ?z = "replicate (length (ctx_bytes ctx)) (0 :: byte)"
  have inv: "layout_ok ?es (length ?z)" using ctx_layout [OF assms] by simp
  have w: "length (default_bytes (?es ! k)) = entry_width ?es d k" if "k < length ?es" for k d
    using ctx_default_ok [OF assms that] by (simp add: length_default_bytes entry_width_def)
  show "length (defaults_image ctx) = length (ctx_bytes ctx)"
    unfolding defaults_image_def using inv w
    by (subst length_fold_field_put) (simp_all add: entry_width_def)
  show "i < length (ctx_entries ctx) \<Longrightarrow>
      field_get (ctx_entries ctx) (defaults_image ctx) i = default_bytes (ctx_entries ctx ! i)"
    unfolding defaults_image_def
    using fields.fold_wr [OF inv, of "length ?es" 0 "\<lambda>k. default_bytes (?es ! k)"] w by simp
qed

lemma load_defaults_eq:
  assumes "ctx_ok cfg ctx"
  shows "mconf_load_defaults (Some ctx) =
    Some (MCONF_OK, Some (ctx\<lparr>ctx_data := Some (defaults_image ctx)\<rparr>))"
proof -
  obtain sch where sch: "ctx_schema ctx = Some sch" "ctx_data_size ctx = schema_data_size sch"
      "length (ctx_bytes ctx) = unat (schema_data_size sch)"
    using assms by (elim ctx_okE) auto
  have "patch (ctx_bytes ctx) 0 (replicate (length (ctx_bytes ctx)) 0) =
      replicate (length (ctx_bytes ctx)) 0"
    by (simp add: patch_def)
  then show ?thesis
    using load_defaults_loop_eq [OF assms, of 0 "length (ctx_entries ctx)"
        "replicate (length (ctx_bytes ctx)) 0"] ctx_length_entries [OF assms sch(1)] sch
    by (simp add: mconf_load_defaults_def require_context_ok [OF assms] ctx_data_bytes [OF assms]
        mem_simps defaults_image_def)
qed

lemma reset_field_eq:
  assumes "ctx_ok cfg ctx" and "unat index < length (ctx_entries ctx)"
  shows "mconf_reset_field (Some ctx) index =
    Some (MCONF_OK, Some (ctx_put ctx (unat index) (default_bytes (ctx_entries ctx ! unat index))))"
  using assms ctx_entry_range [OF assms]
  by (simp add: mconf_reset_field_def ctx_guards [OF assms(1)] apply_default_eq ctx_default_ok
      mconf_field_ptr_def ctx_put_def field_put_def)

section \<open>Lookup\<close>

lemma find_loop_eq:
  assumes ok: "ctx_ok cfg ctx" and "i + n = length (ctx_entries ctx)"
  shows "find_loop ctx k i n =
    Some (List.find (\<lambda>j. key (ctx_entries ctx ! j) = Some k) [i..<length (ctx_entries ctx)])"
  using assms(2)
proof (induction n arbitrary: i)
  case 0
  then show ?case by simp
next
  case (Suc n)
  then have i: "i < length (ctx_entries ctx)" by simp
  then show ?case using Suc by (auto simp: entry_at_eq [OF ok] upt_conv_Cons [OF i])
qed

text \<open>Keys are unique in a validated schema.\<close>

lemma ctx_keys_distinct:
  assumes "ctx_ok cfg ctx" and "i < length (ctx_entries ctx)" and "j < length (ctx_entries ctx)"
    and "key (ctx_entries ctx ! i) = Some k" and "key (ctx_entries ctx ! j) = Some k"
  shows "i = j"
proof -
  have "sorted_wrt entries_compatible (ctx_entries ctx)"
    using assms(1) by (elim ctx_okE) (simp add: schema_ok_def ctx_entries_def)
  then have no: "\<not> same_key (key (ctx_entries ctx ! a)) (key (ctx_entries ctx ! b))"
    if "a < b" "b < length (ctx_entries ctx)" for a b
    using that by (auto simp: sorted_wrt_iff_nth_less entries_compatible_def)
  show ?thesis
    using no [of i j] no [of j i] assms by (cases i j rule: linorder_cases) (auto simp: same_key_def)
qed

lemma find_loop_unique:
  assumes "ctx_ok cfg ctx" and "i < length (ctx_entries ctx)"
    and "key (ctx_entries ctx ! i) = Some k"
  shows "find_loop ctx k 0 (length (ctx_entries ctx)) = Some (Some i)"
proof -
  have no: "key (ctx_entries ctx ! j) \<noteq> Some k" if "j < i" for j
    using ctx_keys_distinct [OF assms(1) assms(2) _ assms(3), of j] that assms(2) by auto
  have "List.find (\<lambda>j. key (ctx_entries ctx ! j) = Some k) [0..<length (ctx_entries ctx)] = Some i"
    unfolding find_Some_iff using assms(2,3) no by (intro exI [of _ i]) auto
  then show ?thesis using find_loop_eq [OF assms(1), of 0] by simp
qed

lemma find_eq:
  assumes "ctx_ok cfg ctx" and "ENABLE_NAMES cfg"
  shows "mconf_find cfg (Some ctx) (Some k) (Some x) =
    Some (case List.find (\<lambda>j. key (ctx_entries ctx ! j) = Some k) [0..<length (ctx_entries ctx)] of
            Some i \<Rightarrow> (MCONF_OK, Some (of_nat i))
          | None \<Rightarrow> (MCONF_ERR_NOT_FOUND, Some x))"
proof -
  obtain sch where "ctx_schema ctx = Some sch" using assms(1) by (elim ctx_okE) auto
  then show ?thesis
    using find_loop_eq [OF assms(1), of 0 "length (ctx_entries ctx)"] assms
      ctx_length_entries [OF assms(1)]
    by (simp add: mconf_find_def require_context_ok [OF assms(1)])
qed

section \<open>Properties\<close>

text \<open>
  C25. \<open>mconf_validate_data\<close> returns the error of the first field of the schema that is not valid, and
  success when every field is: bools are 0 or 1, strings have a NUL in their field, floats are
  supported by the build.
\<close>

theorem validate_data_exact:
  assumes "ctx_ok cfg ctx" and "length d = length (ctx_bytes ctx)"
  shows "mconf_validate_data cfg (Some ctx) (Some d) =
      Some (first_error (field_errors cfg (ctx_entries ctx) d 0)) \<and>
    (mconf_validate_data cfg (Some ctx) (Some d) = Some MCONF_OK \<longleftrightarrow> data_valid cfg (ctx_entries ctx) d)"
  using validate_data_eq [OF assms] validate_data_OK_iff [OF assms] by simp

theorem validate_data_exact_witness:
  "mconf_validate_data default_config (Some demo_ctx) (Some (2 # replicate 19 0)) =
      Some (first_error (field_errors default_config (ctx_entries demo_ctx) (2 # replicate 19 0) 0)) \<and>
    (mconf_validate_data default_config (Some demo_ctx) (Some (2 # replicate 19 0)) = Some MCONF_OK \<longleftrightarrow>
      data_valid default_config (ctx_entries demo_ctx) (2 # replicate 19 0))"
  by (rule validate_data_exact [OF demo_ctx_ok]) simp

text \<open>
  \<open>mconf_load_defaults\<close> always succeeds on a well-formed context: it keeps the invariant, gives every
  field its default (zero bytes where there is none), and clears the bytes between the fields as if the
  object had been zeroed. The result passes validation when the defaults of the bools are 0 or 1 and
  the build supports the floats.
\<close>

theorem load_defaults_installs:
  assumes "ctx_ok cfg ctx"
  shows "\<exists>ctx'. mconf_load_defaults (Some ctx) = Some (MCONF_OK, Some ctx') \<and> ctx_ok cfg ctx' \<and>
    (\<forall>i < length (ctx_entries ctx). ctx_field ctx' i = default_bytes (ctx_entries ctx ! i)) \<and>
    ((\<forall>i < length (ctx_entries ctx). field_error cfg (ctx_entries ctx ! i) (default_bytes (ctx_entries ctx ! i)) = MCONF_OK) \<longrightarrow>
      data_valid cfg (ctx_entries ctx') (ctx_bytes ctx'))"
  using load_defaults_eq [OF assms] defaults_image_fields [OF assms] assms
  by (auto simp: ctx_field_def data_valid_def)

theorem load_defaults_installs_witness:
  "\<exists>ctx'. mconf_load_defaults (Some demo_ctx) = Some (MCONF_OK, Some ctx') \<and> ctx_ok default_config ctx' \<and>
    (\<forall>i < length (ctx_entries demo_ctx). ctx_field ctx' i = default_bytes (ctx_entries demo_ctx ! i)) \<and>
    ((\<forall>i < length (ctx_entries demo_ctx). field_error default_config (ctx_entries demo_ctx ! i)
        (default_bytes (ctx_entries demo_ctx ! i)) = MCONF_OK) \<longrightarrow>
      data_valid default_config (ctx_entries ctx') (ctx_bytes ctx'))"
  by (rule load_defaults_installs [OF demo_ctx_ok])

text \<open>
  \<open>mconf_reset_field\<close> gives one field its default and leaves every other field as it was; an index
  outside the schema changes nothing.
\<close>

theorem reset_field_frame:
  assumes "ctx_ok cfg ctx"
  shows "\<exists>err p'. mconf_reset_field (Some ctx) index = Some (err, p') \<and>
    (if unat index < length (ctx_entries ctx)
     then err = MCONF_OK \<and> (\<exists>ctx'. p' = Some ctx' \<and> ctx_ok cfg ctx' \<and>
       (\<forall>j < length (ctx_entries ctx). ctx_field ctx' j =
         (if j = unat index then default_bytes (ctx_entries ctx ! j) else ctx_field ctx j)))
     else err = MCONF_ERR_NOT_FOUND \<and> p' = Some ctx)"
proof (cases "unat index < length (ctx_entries ctx)")
  case True
  let ?v = "default_bytes (ctx_entries ctx ! unat index)"
  have "length ?v = unat (entry_size (ctx_entries ctx ! unat index))"
    using ctx_default_ok [OF assms True] by (simp add: length_default_bytes)
  with True show ?thesis
    using ctx_fields.rd_wr [OF assms, of "unat index" ?v] ctx_fields.wr_inv [OF assms, of "unat index" ?v]
    by (simp add: reset_field_eq [OF assms])
next
  case False
  then show ?thesis by (simp add: mconf_reset_field_def ctx_guards [OF assms])
qed

theorem reset_field_frame_witness:
  "\<exists>err p'. mconf_reset_field (Some demo_ctx) 2 = Some (err, p') \<and>
    (if unat (2 :: size_t) < length (ctx_entries demo_ctx)
     then err = MCONF_OK \<and> (\<exists>ctx'. p' = Some ctx' \<and> ctx_ok default_config ctx' \<and>
       (\<forall>j < length (ctx_entries demo_ctx). ctx_field ctx' j =
         (if j = unat (2 :: size_t) then default_bytes (ctx_entries demo_ctx ! j) else ctx_field demo_ctx j)))
     else err = MCONF_ERR_NOT_FOUND \<and> p' = Some demo_ctx)"
  by (rule reset_field_frame [OF demo_ctx_ok])

text \<open>
  C26. \<open>mconf_find\<close> is the inverse of the table of keys: it finds the entry that has the key, there is at
  most one, and reports \<open>MCONF_ERR_NOT_FOUND\<close>, leaving the caller's index alone, when there is none.
\<close>

theorem find_exact:
  assumes "ctx_ok cfg ctx" and "ENABLE_NAMES cfg"
  shows "\<exists>err y. mconf_find cfg (Some ctx) (Some k) (Some x) = Some (err, Some y) \<and>
    (if \<exists>i < length (ctx_entries ctx). key (ctx_entries ctx ! i) = Some k
     then err = MCONF_OK \<and> (\<forall>i < length (ctx_entries ctx). key (ctx_entries ctx ! i) = Some k \<longleftrightarrow> y = of_nat i)
     else err = MCONF_ERR_NOT_FOUND \<and> y = x)"
proof (cases "\<exists>i < length (ctx_entries ctx). key (ctx_entries ctx ! i) = Some k")
  case True
  then obtain i where i: "i < length (ctx_entries ctx)" "key (ctx_entries ctx ! i) = Some k" by blast
  obtain sch where sch: "ctx_schema ctx = Some sch" using assms(1) by (elim ctx_okE) auto
  have n: "length (ctx_entries ctx) < 2 ^ 64"
    using ctx_length_entries [OF assms(1) sch] size_t_bound [of "entry_count sch"] by simp
  have "mconf_find cfg (Some ctx) (Some k) (Some x) = Some (MCONF_OK, Some (of_nat i))"
    using find_loop_unique [OF assms(1) i] assms ctx_length_entries [OF assms(1) sch]
    by (simp add: mconf_find_def require_context_ok [OF assms(1)] sch)
  moreover have "key (ctx_entries ctx ! j) = Some k \<longleftrightarrow> of_nat i = (of_nat j :: size_t)"
    if "j < length (ctx_entries ctx)" for j
  proof
    assume "key (ctx_entries ctx ! j) = Some k"
    with ctx_keys_distinct [OF assms(1) i(1) that i(2)] show "of_nat i = (of_nat j :: size_t)" by simp
  next
    assume "of_nat i = (of_nat j :: size_t)"
    then have "unat (of_nat i :: size_t) = unat (of_nat j :: size_t)" by simp
    then show "key (ctx_entries ctx ! j) = Some k"
      using i that n by (simp add: unat_of_nat_size)
  qed
  ultimately show ?thesis using True by auto
next
  case False
  then have "List.find (\<lambda>j. key (ctx_entries ctx ! j) = Some k) [0..<length (ctx_entries ctx)] = None"
    by (auto simp: find_None_iff)
  with False show ?thesis by (auto simp: find_eq [OF assms])
qed

theorem find_exact_witness:
  "\<exists>err y. mconf_find default_config (Some demo_ctx) (Some ''name'') (Some 9) = Some (err, Some y) \<and>
    (if \<exists>i < length (ctx_entries demo_ctx). key (ctx_entries demo_ctx ! i) = Some ''name''
     then err = MCONF_OK \<and> (\<forall>i < length (ctx_entries demo_ctx). key (ctx_entries demo_ctx ! i) = Some ''name'' \<longleftrightarrow> y = of_nat i)
     else err = MCONF_ERR_NOT_FOUND \<and> y = 9)"
  by (rule find_exact [OF demo_ctx_ok]) (simp add: default_config_def)

end
