(* ===== verification/Mconf_Access.thy ===== *)
theory Mconf_Access
  imports Mconf_Data
begin

text \<open>
  The accessors of single fields (src/mconf.c, lines 601 to 833): raw, typed, blob and string
  getters and setters. Output buffers are nullable objects of the caller; the source of a setter is
  a \<open>src_ptr\<close>, which may point into the context's own data.
\<close>

section \<open>The code\<close>

definition mconf_copy_field_out ::
  "mconf_entry \<Rightarrow> byte list \<Rightarrow> nat \<Rightarrow> byte list \<Rightarrow> size_t \<Rightarrow> (mconf_err \<times> byte list) option" where
  "mconf_copy_field_out e m off out out_size =
     (if out_size \<noteq> entry_size e then Some (MCONF_ERR_SIZE, out)
      else do { bs \<leftarrow> mem_read m off (unat (entry_size e));
                out' \<leftarrow> mem_write out 0 bs;
                Some (MCONF_OK, out') })"

definition mconf_get ::
  "mconf_ctx option \<Rightarrow> size_t \<Rightarrow> byte list option \<Rightarrow> size_t \<Rightarrow> (mconf_err \<times> byte list option) option" where
  "mconf_get p index out out_size =
     do { err \<leftarrow> mconf_check_index p index;
          if err \<noteq> MCONF_OK then Some (err, out)
          else case out of
                 None \<Rightarrow> Some (MCONF_ERR_NULL, out)
               | Some buf \<Rightarrow>
                   do { ctx \<leftarrow> p;
                        e \<leftarrow> mconf_entry_at ctx (unat index);
                        d \<leftarrow> ctx_data ctx;
                        (err, buf') \<leftarrow> mconf_copy_field_out e d (mconf_field_ptr e) buf out_size;
                        Some (err, Some buf') } }"

subsection \<open>Strings\<close>

text \<open>The search for an embedded NUL: \<open>n\<close> bytes of the source from \<open>i\<close> on are still to be read.\<close>

fun src_has_nul :: "byte list \<Rightarrow> src_ptr \<Rightarrow> nat \<Rightarrow> nat \<Rightarrow> bool option" where
  "src_has_nul d src i 0 = Some False"
| "src_has_nul d src i (Suc n) =
     do { bs \<leftarrow> src_read d src i 1;
          if bs = [0] then Some True else src_has_nul d src (Suc i) n }"

definition mconf_set_string ::
  "mconf_ctx option \<Rightarrow> size_t \<Rightarrow> src_ptr \<Rightarrow> size_t \<Rightarrow> size_t option \<Rightarrow>
    (mconf_err \<times> mconf_ctx option \<times> size_t option) option" where
  "mconf_set_string p index src value_length required_capacity_out =
     do { err \<leftarrow> mconf_check_index p index;
          if err \<noteq> MCONF_OK then Some (err, p, required_capacity_out)
          else if src = NullPtr then Some (MCONF_ERR_NULL, p, required_capacity_out)
          else
            do { ctx \<leftarrow> p;
                 e \<leftarrow> mconf_entry_at ctx (unat index);
                 d \<leftarrow> ctx_data ctx;
                 if entry_type e \<noteq> MCONF_TYPE_STRING
                 then Some (MCONF_ERR_TYPE, p, required_capacity_out)
                 else
                   do { let required = map_option (\<lambda>_. value_length + 1) required_capacity_out;
                        if value_length + 1 > entry_size e then Some (MCONF_ERR_SIZE, p, required)
                        else
                          do { has_nul \<leftarrow> src_has_nul d src 0 (unat value_length);
                               if has_nul then Some (MCONF_ERR_INVALID, p, required)
                               else
                                 do { let dst = mconf_field_ptr e;
                                      d1 \<leftarrow> mem_write d dst (replicate (unat (entry_size e)) 0);
                                      bs \<leftarrow> src_read d1 src 0 (unat value_length);
                                      d2 \<leftarrow> mem_write d1 dst bs;
                                      d3 \<leftarrow> mem_write d2 (dst + unat value_length) [0];
                                      Some (MCONF_OK, Some (ctx\<lparr>ctx_data := Some d3\<rparr>), required) } } } } }"

definition mconf_get_string ::
  "mconf_ctx option \<Rightarrow> size_t \<Rightarrow> byte list option \<Rightarrow> size_t \<Rightarrow> size_t option \<Rightarrow>
    (mconf_err \<times> byte list option \<times> size_t option) option" where
  "mconf_get_string p index out out_size required_size_out =
     do { err \<leftarrow> mconf_check_index p index;
          if err \<noteq> MCONF_OK then Some (err, out, required_size_out)
          else if out = None \<and> out_size \<noteq> 0 then Some (MCONF_ERR_NULL, out, required_size_out)
          else
            do { ctx \<leftarrow> p;
                 e \<leftarrow> mconf_entry_at ctx (unat index);
                 d \<leftarrow> ctx_data ctx;
                 if entry_type e \<noteq> MCONF_TYPE_STRING
                 then Some (MCONF_ERR_TYPE, out, required_size_out)
                 else
                   do { (err, length_out) \<leftarrow>
                          mconf_validate_string_bytes d (mconf_field_ptr e) (entry_size e) (Some 0);
                        if err \<noteq> MCONF_OK then Some (err, out, required_size_out)
                        else
                          do { len \<leftarrow> length_out;
                               let required = map_option (\<lambda>_. len + 1) required_size_out;
                               if out_size < len + 1 then Some (MCONF_ERR_SIZE, out, required)
                               else case out of
                                      None \<Rightarrow> Some (MCONF_OK, out, required)
                                    | Some buf \<Rightarrow>
                                        do { bs \<leftarrow> mem_read d (mconf_field_ptr e) (unat (len + 1));
                                             buf' \<leftarrow> mem_write buf 0 bs;
                                             Some (MCONF_OK, Some buf', required) } } } } }"

subsection \<open>Raw and blob setters\<close>

text \<open>The test \<open>(value[0] != 0) && (value[0] != 1)\<close> that guards every write of a bool.\<close>

definition not_a_bool :: "byte list \<Rightarrow> src_ptr \<Rightarrow> bool option" where
  "not_a_bool d src = do { bs \<leftarrow> src_read d src 0 1; Some (bs \<noteq> [0] \<and> bs \<noteq> [1]) }"

text \<open>\<open>memmove(dst, value, entry->size)\<close>\<close>

definition store_field ::
  "mconf_ctx \<Rightarrow> mconf_entry \<Rightarrow> byte list \<Rightarrow> src_ptr \<Rightarrow> (mconf_err \<times> mconf_ctx option) option" where
  "store_field ctx e d src =
     do { bs \<leftarrow> src_read d src 0 (unat (entry_size e));
          d1 \<leftarrow> mem_write d (mconf_field_ptr e) bs;
          Some (MCONF_OK, Some (ctx\<lparr>ctx_data := Some d1\<rparr>)) }"

definition mconf_set ::
  "mconf_ctx option \<Rightarrow> size_t \<Rightarrow> src_ptr \<Rightarrow> size_t \<Rightarrow> (mconf_err \<times> mconf_ctx option) option" where
  "mconf_set p index src value_size =
     do { err \<leftarrow> mconf_check_index p index;
          if err \<noteq> MCONF_OK then Some (err, p)
          else if src = NullPtr then Some (MCONF_ERR_NULL, p)
          else
            do { ctx \<leftarrow> p;
                 e \<leftarrow> mconf_entry_at ctx (unat index);
                 d \<leftarrow> ctx_data ctx;
                 if entry_type e = MCONF_TYPE_STRING then
                   do { (err, p', _) \<leftarrow> mconf_set_string p index src value_size (Some 0);
                        Some (err, p') }
                 else if value_size = 0 \<or> value_size \<noteq> entry_size e then Some (MCONF_ERR_SIZE, p)
                 else
                   do { bad \<leftarrow> (if entry_type e = MCONF_TYPE_BOOL then not_a_bool d src else Some False);
                        if bad then Some (MCONF_ERR_INVALID, p)
                        else store_field ctx e d src } } }"

definition mconf_set_blob ::
  "mconf_ctx option \<Rightarrow> size_t \<Rightarrow> src_ptr \<Rightarrow> size_t \<Rightarrow> (mconf_err \<times> mconf_ctx option) option" where
  "mconf_set_blob p index src value_size =
     do { err \<leftarrow> mconf_check_index p index;
          if err \<noteq> MCONF_OK then Some (err, p)
          else if src = NullPtr then Some (MCONF_ERR_NULL, p)
          else
            do { ctx \<leftarrow> p;
                 e \<leftarrow> mconf_entry_at ctx (unat index);
                 d \<leftarrow> ctx_data ctx;
                 if entry_type e \<noteq> MCONF_TYPE_BLOB then Some (MCONF_ERR_TYPE, p)
                 else if value_size = 0 \<or> value_size \<noteq> entry_size e then Some (MCONF_ERR_SIZE, p)
                 else store_field ctx e d src } }"

definition mconf_get_blob ::
  "mconf_ctx option \<Rightarrow> size_t \<Rightarrow> byte list option \<Rightarrow> size_t \<Rightarrow> (mconf_err \<times> byte list option) option" where
  "mconf_get_blob p index out out_size =
     do { err \<leftarrow> mconf_check_index p index;
          if err \<noteq> MCONF_OK then Some (err, out)
          else case out of
                 None \<Rightarrow> Some (MCONF_ERR_NULL, out)
               | Some buf \<Rightarrow>
                   do { ctx \<leftarrow> p;
                        e \<leftarrow> mconf_entry_at ctx (unat index);
                        d \<leftarrow> ctx_data ctx;
                        if entry_type e \<noteq> MCONF_TYPE_BLOB then Some (MCONF_ERR_TYPE, out)
                        else do { (err, buf') \<leftarrow> mconf_copy_field_out e d (mconf_field_ptr e) buf out_size;
                                  Some (err, Some buf') } } }"

subsection \<open>Typed scalars\<close>

definition mconf_get_typed_scalar ::
  "mconf_config \<Rightarrow> mconf_ctx option \<Rightarrow> size_t \<Rightarrow> mconf_type \<Rightarrow> byte list option \<Rightarrow> size_t \<Rightarrow>
    (mconf_err \<times> byte list option) option" where
  "mconf_get_typed_scalar cfg p index expected_type out out_size =
     do { err \<leftarrow> mconf_check_index p index;
          if err \<noteq> MCONF_OK then Some (err, out)
          else case out of
                 None \<Rightarrow> Some (MCONF_ERR_NULL, out)
               | Some buf \<Rightarrow>
                   do { ctx \<leftarrow> p;
                        e \<leftarrow> mconf_entry_at ctx (unat index);
                        d \<leftarrow> ctx_data ctx;
                        if entry_type e \<noteq> expected_type then Some (MCONF_ERR_TYPE, out)
                        else if expected_type = MCONF_TYPE_FLOAT32 \<and> \<not> float_supported cfg
                        then Some (MCONF_ERR_UNSUPPORTED, out)
                        else do { (err, buf') \<leftarrow> mconf_copy_field_out e d (mconf_field_ptr e) buf out_size;
                                  Some (err, Some buf') } } }"

definition mconf_set_typed_scalar ::
  "mconf_config \<Rightarrow> mconf_ctx option \<Rightarrow> size_t \<Rightarrow> mconf_type \<Rightarrow> src_ptr \<Rightarrow> size_t \<Rightarrow>
    (mconf_err \<times> mconf_ctx option) option" where
  "mconf_set_typed_scalar cfg p index expected_type src value_size =
     do { err \<leftarrow> mconf_check_index p index;
          if err \<noteq> MCONF_OK then Some (err, p)
          else if src = NullPtr then Some (MCONF_ERR_NULL, p)
          else
            do { ctx \<leftarrow> p;
                 e \<leftarrow> mconf_entry_at ctx (unat index);
                 d \<leftarrow> ctx_data ctx;
                 if entry_type e \<noteq> expected_type then Some (MCONF_ERR_TYPE, p)
                 else if value_size \<noteq> entry_size e then Some (MCONF_ERR_SIZE, p)
                 else if expected_type = MCONF_TYPE_FLOAT32 \<and> \<not> float_supported cfg
                 then Some (MCONF_ERR_UNSUPPORTED, p)
                 else
                   do { bad \<leftarrow> (if expected_type = MCONF_TYPE_BOOL then not_a_bool d src else Some False);
                        if bad then Some (MCONF_ERR_INVALID, p)
                        else store_field ctx e d src } } }"

definition mconf_get_bool ::
  "mconf_config \<Rightarrow> mconf_ctx option \<Rightarrow> size_t \<Rightarrow> bool option \<Rightarrow> (mconf_err \<times> bool option) option" where
  "mconf_get_bool cfg p index out =
     do { (err, raw) \<leftarrow> mconf_get_typed_scalar cfg p index MCONF_TYPE_BOOL (Some [0]) 1;
          if err \<noteq> MCONF_OK then Some (err, out)
          else do { bs \<leftarrow> raw;
                    r \<leftarrow> arr_get bs 0;
                    if r \<noteq> 0 \<and> r \<noteq> 1 then Some (MCONF_ERR_INVALID, out)
                    else do { _ \<leftarrow> out;
                              Some (MCONF_OK, Some (r \<noteq> 0)) } } }"

definition mconf_set_bool ::
  "mconf_config \<Rightarrow> mconf_ctx option \<Rightarrow> size_t \<Rightarrow> bool \<Rightarrow> (mconf_err \<times> mconf_ctx option) option" where
  "mconf_set_bool cfg p index v =
     mconf_set_typed_scalar cfg p index MCONF_TYPE_BOOL (ExtPtr [if v then 1 else 0]) 1"

definition mconf_get_u8 ::
  "mconf_config \<Rightarrow> mconf_ctx option \<Rightarrow> size_t \<Rightarrow> byte option \<Rightarrow> (mconf_err \<times> byte option) option" where
  "mconf_get_u8 cfg p index out =
     do { (err, raw) \<leftarrow> mconf_get_typed_scalar cfg p index MCONF_TYPE_U8 (map_option (\<lambda>v. [v]) out) 1;
          Some (err, map_option (\<lambda>bs. bs ! 0) raw) }"

definition mconf_set_u8 ::
  "mconf_config \<Rightarrow> mconf_ctx option \<Rightarrow> size_t \<Rightarrow> byte \<Rightarrow> (mconf_err \<times> mconf_ctx option) option" where
  "mconf_set_u8 cfg p index v = mconf_set_typed_scalar cfg p index MCONF_TYPE_U8 (ExtPtr [v]) 1"

definition mconf_get_u16 ::
  "mconf_config \<Rightarrow> mconf_ctx option \<Rightarrow> size_t \<Rightarrow> uint16 option \<Rightarrow> (mconf_err \<times> uint16 option) option" where
  "mconf_get_u16 cfg p index out =
     do { (err, raw) \<leftarrow>
            mconf_get_typed_scalar cfg p index MCONF_TYPE_U16 (map_option (host_store16 cfg) out) 2;
          Some (err, map_option (host_load16 cfg) raw) }"

definition mconf_set_u16 ::
  "mconf_config \<Rightarrow> mconf_ctx option \<Rightarrow> size_t \<Rightarrow> uint16 \<Rightarrow> (mconf_err \<times> mconf_ctx option) option" where
  "mconf_set_u16 cfg p index v =
     mconf_set_typed_scalar cfg p index MCONF_TYPE_U16 (ExtPtr (host_store16 cfg v)) 2"

text \<open>\<open>uint32_t\<close>, \<open>int32_t\<close> and \<open>float\<close> differ only in the type identifier they require.\<close>

definition get_word32 ::
  "mconf_type \<Rightarrow> mconf_config \<Rightarrow> mconf_ctx option \<Rightarrow> size_t \<Rightarrow> uint32 option \<Rightarrow>
    (mconf_err \<times> uint32 option) option" where
  "get_word32 ty cfg p index out =
     do { (err, raw) \<leftarrow>
            mconf_get_typed_scalar cfg p index ty (map_option (host_store32 cfg) out) 4;
          Some (err, map_option (host_load32 cfg) raw) }"

definition set_word32 ::
  "mconf_type \<Rightarrow> mconf_config \<Rightarrow> mconf_ctx option \<Rightarrow> size_t \<Rightarrow> uint32 \<Rightarrow>
    (mconf_err \<times> mconf_ctx option) option" where
  "set_word32 ty cfg p index v =
     mconf_set_typed_scalar cfg p index ty (ExtPtr (host_store32 cfg v)) 4"

definition mconf_get_u32 where "mconf_get_u32 = get_word32 MCONF_TYPE_U32"
definition mconf_set_u32 where "mconf_set_u32 = set_word32 MCONF_TYPE_U32"
definition mconf_get_i32 where "mconf_get_i32 = get_word32 MCONF_TYPE_I32"
definition mconf_set_i32 where "mconf_set_i32 = set_word32 MCONF_TYPE_I32"
definition mconf_get_float where "mconf_get_float = get_word32 MCONF_TYPE_FLOAT32"
definition mconf_set_float where "mconf_set_float = set_word32 MCONF_TYPE_FLOAT32"

section \<open>Sources\<close>

text \<open>At least \<open>n\<close> bytes can be read at the source, and which ones.\<close>

fun src_ok :: "byte list \<Rightarrow> src_ptr \<Rightarrow> nat \<Rightarrow> bool" where
  "src_ok d NullPtr n \<longleftrightarrow> False"
| "src_ok d (ExtPtr bs) n \<longleftrightarrow> n \<le> length bs"
| "src_ok d (DataPtr off) n \<longleftrightarrow> off + n \<le> length d"

fun src_object :: "byte list \<Rightarrow> src_ptr \<Rightarrow> byte list" where
  "src_object d NullPtr = []"
| "src_object d (ExtPtr bs) = bs"
| "src_object d (DataPtr off) = drop off d"

lemma src_ok_iff: "src_ok d src n \<longleftrightarrow> src \<noteq> NullPtr \<and> n \<le> length (src_object d src) \<and>
    (\<forall>off. src = DataPtr off \<longrightarrow> off \<le> length d)"
  by (cases src) auto

lemma src_read_eq:
  "src_ok d src (i + n) \<Longrightarrow> src_read d src i n = Some (chunk (src_object d src) i n)"
  by (cases src) (auto simp: mem_simps chunk_def add.commute)

lemma src_ok_mono: "src_ok d src n \<Longrightarrow> k \<le> n \<Longrightarrow> src_ok d src k"
  by (cases src) auto

lemma src_ok_same_length: "src_ok d src n \<Longrightarrow> length d' = length d \<Longrightarrow> src_ok d' src n"
  by (cases src) auto

lemma src_object_length: "src_ok d src n \<Longrightarrow> n \<le> length (src_object d src)"
  by (cases src) auto

lemma src_has_nul_eq:
  "src_ok d src (i + n) \<Longrightarrow> src_has_nul d src i n = Some (0 \<in> set (chunk (src_object d src) i n))"
proof (induction n arbitrary: i)
  case 0
  then show ?case by simp
next
  case (Suc n)
  let ?o = "src_object d src"
  have len: "i + Suc n \<le> length ?o" using Suc.prems by (rule src_object_length)
  have "src_read d src i 1 = Some [?o ! i]"
    using src_read_eq [OF src_ok_mono [OF Suc.prems, of "i + 1"]] len by (simp add: chunk_single)
  moreover have "chunk ?o i (Suc n) = ?o ! i # chunk ?o (Suc i) n"
    using len by (simp add: chunk_def Cons_nth_drop_Suc [symmetric])
  ultimately show ?case using Suc by auto
qed

section \<open>What a setter does\<close>

text \<open>The values that the library accepts in a field, whatever the build.\<close>

definition value_ok :: "mconf_entry \<Rightarrow> byte list \<Rightarrow> bool" where
  "value_ok e bs \<longleftrightarrow>
     (entry_type e = MCONF_TYPE_BOOL \<longrightarrow> bs = [0] \<or> bs = [1]) \<and>
     (entry_type e = MCONF_TYPE_STRING \<longrightarrow> 0 \<in> set bs)"

lemma field_error_OK_iff:
  "field_error cfg e bs = MCONF_OK \<longleftrightarrow>
     value_ok e bs \<and> (entry_type e = MCONF_TYPE_FLOAT32 \<longrightarrow> float_supported cfg)"
  by (auto simp: field_error_def value_ok_def)

text \<open>
  A setter that fails leaves the context alone; one that succeeds has written an acceptable value of
  the right width to its field and nothing else.
\<close>

definition setter_effect :: "mconf_ctx \<Rightarrow> nat \<Rightarrow> mconf_err \<Rightarrow> mconf_ctx option \<Rightarrow> bool" where
  "setter_effect ctx i err p' \<longleftrightarrow>
     (if err = MCONF_OK
      then i < length (ctx_entries ctx) \<and>
           (\<exists>bs. length bs = unat (entry_size (ctx_entries ctx ! i)) \<and>
                 value_ok (ctx_entries ctx ! i) bs \<and> p' = Some (ctx_put ctx i bs))
      else p' = Some ctx)"

lemma setter_effect_err [simp]: "err \<noteq> MCONF_OK \<Longrightarrow> setter_effect ctx i err (Some ctx)"
  by (simp add: setter_effect_def)

lemma setter_effect_put:
  "i < length (ctx_entries ctx) \<Longrightarrow> length bs = unat (entry_size (ctx_entries ctx ! i)) \<Longrightarrow>
     value_ok (ctx_entries ctx ! i) bs \<Longrightarrow> setter_effect ctx i MCONF_OK (Some (ctx_put ctx i bs))"
  by (auto simp: setter_effect_def)

lemma store_field_eq:
  assumes "ctx_ok cfg ctx" and "i < length (ctx_entries ctx)"
    and "src_ok (ctx_bytes ctx) src (unat (entry_size (ctx_entries ctx ! i)))"
  shows "store_field ctx (ctx_entries ctx ! i) (ctx_bytes ctx) src =
    Some (MCONF_OK, Some (ctx_put ctx i
      (take (unat (entry_size (ctx_entries ctx ! i))) (src_object (ctx_bytes ctx) src))))"
  using assms ctx_entry_range [OF assms(1,2)] src_object_length [OF assms(3)]
    src_read_eq [of "ctx_bytes ctx" src 0]
  by (simp add: store_field_def mem_simps mconf_field_ptr_def ctx_put_def field_put_def)
     (simp add: chunk_def)

lemma ctx_bool_size:
  assumes "ctx_ok cfg ctx" and "i < length (ctx_entries ctx)"
    and "entry_type (ctx_entries ctx ! i) = MCONF_TYPE_BOOL"
  shows "entry_size (ctx_entries ctx ! i) = 1"
  using ctx_entry_ok [OF assms(1,2)] assms(3)
  by (simp add: entry_ok_def mconf_expected_type_size_def scalar_type_cases)

lemma not_a_bool_eq:
  "src_ok d src 1 \<Longrightarrow>
     not_a_bool d src = Some (take 1 (src_object d src) \<noteq> [0] \<and> take 1 (src_object d src) \<noteq> [1])"
  using src_read_eq [of d src 0 1] by (simp add: not_a_bool_def chunk_def)

text \<open>The common tail of the raw and the typed setters.\<close>

lemma guarded_store_effect:
  assumes ok: "ctx_ok cfg ctx" and i: "i < length (ctx_entries ctx)"
    and src: "src_ok (ctx_bytes ctx) src (unat (entry_size (ctx_entries ctx ! i)))"
    and ty: "entry_type (ctx_entries ctx ! i) \<noteq> MCONF_TYPE_STRING"
  shows "\<exists>err p'. do { bad \<leftarrow> (if entry_type (ctx_entries ctx ! i) = MCONF_TYPE_BOOL
                                then not_a_bool (ctx_bytes ctx) src else Some False);
                      if bad then Some (MCONF_ERR_INVALID, Some ctx)
                      else store_field ctx (ctx_entries ctx ! i) (ctx_bytes ctx) src } = Some (err, p') \<and>
    setter_effect ctx i err p'"
proof (cases "entry_type (ctx_entries ctx ! i) = MCONF_TYPE_BOOL")
  case True
  then have one: "entry_size (ctx_entries ctx ! i) = 1" using ctx_bool_size [OF ok i] by simp
  with src have "src_ok (ctx_bytes ctx) src 1" by simp
  with True one src src_object_length [OF src] show ?thesis
    by (auto simp: not_a_bool_eq store_field_eq [OF ok i] value_ok_def intro!: setter_effect_put i)
next
  case False
  with src ty src_object_length [OF src] show ?thesis
    by (auto simp: store_field_eq [OF ok i] value_ok_def intro!: setter_effect_put i)
qed

lemma set_string_eq:
  assumes ok: "ctx_ok cfg ctx" and i: "unat index < length (ctx_entries ctx)"
    and ty: "entry_type (ctx_entries ctx ! unat index) = MCONF_TYPE_STRING"
    and len: "unat len < unat (entry_size (ctx_entries ctx ! unat index))"
    and src: "src_ok (ctx_bytes ctx) src (unat len)"
    and no_nul: "0 \<notin> set (take (unat len) (src_object (ctx_bytes ctx) src))"
  shows "\<exists>bs. length bs = unat len \<and>
    (\<forall>ext. src = ExtPtr ext \<longrightarrow> bs = take (unat len) ext) \<and>
    (\<forall>a. src = DataPtr a \<longrightarrow> unat (offset (ctx_entries ctx ! unat index)) \<le> a \<longrightarrow>
       a + unat len \<le> unat (offset (ctx_entries ctx ! unat index)) + unat (entry_size (ctx_entries ctx ! unat index)) \<longrightarrow>
       bs = replicate (unat len) 0) \<and>
    mconf_set_string (Some ctx) index src len req =
      Some (MCONF_OK,
        Some (ctx_put ctx (unat index)
          (bs @ replicate (unat (entry_size (ctx_entries ctx ! unat index)) - unat len) 0)),
        map_option (\<lambda>_. len + 1) req)"
proof -
  let ?e = "ctx_entries ctx ! unat index" and ?d = "ctx_bytes ctx"
  let ?off = "unat (offset ?e)" and ?z = "replicate (unat (entry_size ?e)) (0 :: byte)"
  let ?d1 = "patch ?d ?off ?z"
  have range: "?off + unat (entry_size ?e) \<le> length ?d" using ctx_entry_range [OF ok i] .
  have src1: "src_ok ?d1 src (unat len)" using src range by (auto elim: src_ok_same_length)
  let ?bs = "chunk (src_object ?d1 src) 0 (unat len)"
  have l: "length ?bs = unat len" using src_object_length [OF src1] by simp
  have nowrap: "\<not> len + 1 > entry_size ?e"
    using len size_t_bound [of "entry_size ?e"] unat_add_le [of len 1 "entry_size ?e"]
    by (simp add: word_less_nat_alt)
  have "patch (patch ?d1 ?off ?bs) (?off + unat len) [0] =
      patch ?d ?off (?bs @ replicate (unat (entry_size ?e) - unat len) 0)"
    using patch_patch_prefix [of ?off ?z ?d ?bs] range len l by simp
  then have "mconf_set_string (Some ctx) index src len req =
      Some (MCONF_OK,
        Some (ctx_put ctx (unat index) (?bs @ replicate (unat (entry_size ?e) - unat len) 0)),
        map_option (\<lambda>_. len + 1) req)"
    using src src1 no_nul nowrap ty range len l src_has_nul_eq [of ?d src 0 "unat len"]
      src_read_eq [of ?d1 src 0 "unat len"]
    by (cases src)
       (simp_all add: mconf_set_string_def ctx_guards [OF ok] i Let_def mem_simps mconf_field_ptr_def
        ctx_put_def field_put_def chunk_def)
  moreover have "src = ExtPtr ext \<Longrightarrow> ?bs = take (unat len) ext" for ext
    by (simp add: chunk_def)
  moreover have "?bs = replicate (unat len) 0"
    if "src = DataPtr a" "?off \<le> a" "a + unat len \<le> ?off + unat (entry_size ?e)" for a
    using that range by (intro nth_equalityI) (auto simp: chunk_def nth_patch)
  ultimately show ?thesis using l by blast
qed

text \<open>
  What the caller owes a setter: the source is null or holds as many bytes as announced, and the
  announced length is not \<open>SIZE_MAX\<close> (for which \<open>value_length + 1\<close> wraps to zero).
\<close>

definition caller_ok :: "mconf_ctx \<Rightarrow> src_ptr \<Rightarrow> size_t \<Rightarrow> bool" where
  "caller_ok ctx src n \<longleftrightarrow> src = NullPtr \<or> (src_ok (ctx_bytes ctx) src (unat n) \<and> n + 1 \<noteq> 0)"

lemma unat_Suc_size: "(n :: size_t) + 1 \<noteq> 0 \<Longrightarrow> unat (n + 1) = Suc (unat n)"
  by (simp add: unatSuc add.commute)

lemma set_string_effect:
  assumes ok: "ctx_ok cfg ctx" and src: "caller_ok ctx src len"
  shows "\<exists>err p' req'. mconf_set_string (Some ctx) index src len req = Some (err, p', req') \<and>
    setter_effect ctx (unat index) err p'"
proof (cases "unat index < length (ctx_entries ctx) \<and> src \<noteq> NullPtr \<and>
    entry_type (ctx_entries ctx ! unat index) = MCONF_TYPE_STRING \<and>
    \<not> len + 1 > entry_size (ctx_entries ctx ! unat index)")
  case False
  then show ?thesis
    by (auto simp: mconf_set_string_def ctx_guards [OF ok] Let_def)
next
  case True
  let ?e = "ctx_entries ctx ! unat index"
  have s: "src_ok (ctx_bytes ctx) src (unat len)" and n: "len + 1 \<noteq> 0"
    using True src by (auto simp: caller_ok_def)
  have lt: "unat len < unat (entry_size ?e)"
    using True unat_Suc_size [OF n] by (simp add: word_less_nat_alt)
  show ?thesis
  proof (cases "0 \<in> set (take (unat len) (src_object (ctx_bytes ctx) src))")
    case nul: True
    with True s src_has_nul_eq [of "ctx_bytes ctx" src 0 "unat len"] show ?thesis
      by (simp add: mconf_set_string_def ctx_guards [OF ok] Let_def chunk_def)
  next
    case False
    from set_string_eq [OF ok _ _ lt s False, of req] True obtain bs where
      "length bs = unat len"
      "mconf_set_string (Some ctx) index src len req = Some (MCONF_OK,
        Some (ctx_put ctx (unat index) (bs @ replicate (unat (entry_size ?e) - unat len) 0)),
        map_option (\<lambda>_. len + 1) req)" by blast
    with True lt show ?thesis
      by (auto simp: value_ok_def intro!: setter_effect_put)
  qed
qed

lemma set_effect:
  assumes ok: "ctx_ok cfg ctx" and src: "caller_ok ctx src n"
  shows "\<exists>err p'. mconf_set (Some ctx) index src n = Some (err, p') \<and>
    setter_effect ctx (unat index) err p'"
proof (cases "unat index < length (ctx_entries ctx) \<and> src \<noteq> NullPtr")
  case False
  then show ?thesis by (auto simp: mconf_set_def ctx_guards [OF ok])
next
  case True
  let ?e = "ctx_entries ctx ! unat index"
  show ?thesis
  proof (cases "entry_type ?e = MCONF_TYPE_STRING")
    case string: True
    from set_string_effect [OF ok src, of index "Some 0"] True string show ?thesis
      by (auto simp: mconf_set_def ctx_guards [OF ok])
  next
    case False
    show ?thesis
    proof (cases "n = 0 \<or> n \<noteq> entry_size ?e")
      case True
      then show ?thesis
        using \<open>unat index < _ \<and> _\<close> False by (auto simp: mconf_set_def ctx_guards [OF ok])
    next
      case size: False
      with True src have "src_ok (ctx_bytes ctx) src (unat (entry_size ?e))"
        by (auto simp: caller_ok_def)
      from guarded_store_effect [OF ok _ this False] True False size show ?thesis
        by (simp add: mconf_set_def ctx_guards [OF ok])
    qed
  qed
qed

lemma set_blob_effect:
  assumes ok: "ctx_ok cfg ctx" and src: "caller_ok ctx src n"
  shows "\<exists>err p'. mconf_set_blob (Some ctx) index src n = Some (err, p') \<and>
    setter_effect ctx (unat index) err p'"
proof (cases "unat index < length (ctx_entries ctx) \<and> src \<noteq> NullPtr \<and>
    entry_type (ctx_entries ctx ! unat index) = MCONF_TYPE_BLOB \<and>
    n \<noteq> 0 \<and> n = entry_size (ctx_entries ctx ! unat index)")
  case False
  then show ?thesis by (auto simp: mconf_set_blob_def ctx_guards [OF ok])
next
  case True
  with src have "src_ok (ctx_bytes ctx) src (unat (entry_size (ctx_entries ctx ! unat index)))"
    by (auto simp: caller_ok_def)
  from guarded_store_effect [OF ok _ this] True show ?thesis
    by (simp add: mconf_set_blob_def ctx_guards [OF ok])
qed

lemma set_typed_scalar_effect:
  assumes ok: "ctx_ok cfg ctx" and src: "src = NullPtr \<or> src_ok (ctx_bytes ctx) src (unat n)"
    and ty: "expected \<noteq> MCONF_TYPE_STRING"
  shows "\<exists>err p'. mconf_set_typed_scalar cfg (Some ctx) index expected src n = Some (err, p') \<and>
    setter_effect ctx (unat index) err p'"
proof (cases "unat index < length (ctx_entries ctx) \<and> src \<noteq> NullPtr \<and>
    entry_type (ctx_entries ctx ! unat index) = expected \<and>
    n = entry_size (ctx_entries ctx ! unat index) \<and>
    \<not> (expected = MCONF_TYPE_FLOAT32 \<and> \<not> float_supported cfg)")
  case False
  then show ?thesis by (auto simp: mconf_set_typed_scalar_def ctx_guards [OF ok])
next
  case True
  with src have "src_ok (ctx_bytes ctx) src (unat (entry_size (ctx_entries ctx ! unat index)))"
    by auto
  from guarded_store_effect [OF ok _ this] True ty show ?thesis
    by (simp add: mconf_set_typed_scalar_def ctx_guards [OF ok])
qed

section \<open>What a getter does\<close>

lemma copy_field_out_eq:
  assumes "ctx_ok cfg ctx" and "i < length (ctx_entries ctx)"
    and "unat (entry_size (ctx_entries ctx ! i)) \<le> length buf"
  shows "mconf_copy_field_out (ctx_entries ctx ! i) (ctx_bytes ctx)
      (mconf_field_ptr (ctx_entries ctx ! i)) buf (entry_size (ctx_entries ctx ! i)) =
    Some (MCONF_OK, patch buf 0 (ctx_field ctx i))"
  using ctx_entry_range [OF assms(1,2)] assms(3)
  by (simp add: mconf_copy_field_out_def mconf_field_ptr_def mem_simps ctx_field_def field_get_def)

lemma get_eq:
  assumes "ctx_ok cfg ctx" and "unat index < length (ctx_entries ctx)"
    and "unat (entry_size (ctx_entries ctx ! unat index)) \<le> length buf"
  shows "mconf_get (Some ctx) index (Some buf) (entry_size (ctx_entries ctx ! unat index)) =
    Some (MCONF_OK, Some (patch buf 0 (ctx_field ctx (unat index))))"
  using assms by (simp add: mconf_get_def ctx_guards [OF assms(1)] copy_field_out_eq)

lemma patch_exact: "length bs = length buf \<Longrightarrow> patch buf 0 bs = bs"
  by (simp add: patch_def)

lemma ctx_field_length:
  "ctx_ok cfg ctx \<Longrightarrow> i < length (ctx_entries ctx) \<Longrightarrow>
     length (ctx_field ctx i) = unat (entry_size (ctx_entries ctx ! i))"
  by (rule ctx_fields.rd_width)

lemma get_typed_scalar_eq:
  assumes ok: "ctx_ok cfg ctx" and i: "unat index < length (ctx_entries ctx)"
    and ty: "scalar_ok cfg (entry_type (ctx_entries ctx ! unat index))"
    and len: "length buf = unat n" and n: "n = mconf_expected_type_size (entry_type (ctx_entries ctx ! unat index))"
  shows "mconf_get_typed_scalar cfg (Some ctx) index (entry_type (ctx_entries ctx ! unat index)) (Some buf) n =
    Some (MCONF_OK, Some (ctx_field ctx (unat index)))"
proof -
  let ?e = "ctx_entries ctx ! unat index"
  have size: "entry_size ?e = n"
    using ctx_entry_ok [OF ok i] ty n by (simp add: entry_ok_def scalar_ok_def)
  then show ?thesis
    using copy_field_out_eq [OF ok i, of buf] ty len i ctx_field_length [OF ok i]
    by (simp add: mconf_get_typed_scalar_def ctx_guards [OF ok] patch_exact scalar_ok_def)
qed

lemma set_typed_scalar_eq:
  assumes ok: "ctx_ok cfg ctx" and i: "unat index < length (ctx_entries ctx)"
    and ty: "scalar_ok cfg (entry_type (ctx_entries ctx ! unat index))"
    and len: "length bs = unat n" and n: "n = mconf_expected_type_size (entry_type (ctx_entries ctx ! unat index))"
    and v: "value_ok (ctx_entries ctx ! unat index) bs"
  shows "mconf_set_typed_scalar cfg (Some ctx) index (entry_type (ctx_entries ctx ! unat index)) (ExtPtr bs) n =
    Some (MCONF_OK, Some (ctx_put ctx (unat index) bs))"
proof -
  let ?e = "ctx_entries ctx ! unat index"
  have size: "entry_size ?e = n"
    using ctx_entry_ok [OF ok i] ty n by (simp add: entry_ok_def scalar_ok_def)
  show ?thesis
  proof (cases "entry_type ?e = MCONF_TYPE_BOOL")
    case True
    then have "n = 1" using n by (simp add: mconf_expected_type_size_def)
    with True v len size show ?thesis
      using store_field_eq [OF ok i, of "ExtPtr bs"] ty i
      by (simp add: mconf_set_typed_scalar_def ctx_guards [OF ok] scalar_ok_def not_a_bool_eq value_ok_def)
  next
    case False
    with len size show ?thesis
      using store_field_eq [OF ok i, of "ExtPtr bs"] ty i
      by (simp add: mconf_set_typed_scalar_def ctx_guards [OF ok] scalar_ok_def)
  qed
qed

section \<open>Properties\<close>

text \<open>What a setter that is given a valid source guarantees, error or not.\<close>

definition setter_safe :: "mconf_config \<Rightarrow> mconf_ctx \<Rightarrow> nat \<Rightarrow> mconf_err \<Rightarrow> mconf_ctx option \<Rightarrow> bool" where
  "setter_safe cfg ctx i err p' \<longleftrightarrow>
     (if err = MCONF_OK
      then \<exists>ctx'. p' = Some ctx' \<and> ctx_ok cfg ctx' \<and> i < length (ctx_entries ctx) \<and>
        ctx_entries ctx' = ctx_entries ctx \<and> value_ok (ctx_entries ctx ! i) (ctx_field ctx' i) \<and>
        (\<forall>j < length (ctx_entries ctx). j \<noteq> i \<longrightarrow> ctx_field ctx' j = ctx_field ctx j)
      else p' = Some ctx)"

lemma ctx_entries_put [simp]: "ctx_entries (ctx_put ctx i bs) = ctx_entries ctx"
  by (simp add: ctx_put_def)

lemma setter_effect_safe:
  assumes "ctx_ok cfg ctx" and "setter_effect ctx i err p'"
  shows "setter_safe cfg ctx i err p'"
  using assms ctx_fields.rd_wr [OF assms(1), of i] ctx_fields.wr_inv [OF assms(1), of i]
  by (auto simp: setter_effect_def setter_safe_def split: if_splits)

text \<open>
  C19. Whatever the index, the source (null, an object of the caller, a pointer into the configuration
  itself) and the announced size, the raw, string, blob and scalar setters return, stay inside their
  objects, and either fail and change nothing or store an acceptable value in the one field and leave
  every other field as it was.
\<close>

theorem setters_safe:
  assumes "ctx_ok cfg ctx" and "caller_ok ctx src n" and "ty \<noteq> MCONF_TYPE_STRING"
  shows "(\<exists>err p'. mconf_set (Some ctx) index src n = Some (err, p') \<and> setter_safe cfg ctx (unat index) err p') \<and>
    (\<exists>err p' req'. mconf_set_string (Some ctx) index src n req = Some (err, p', req') \<and>
      setter_safe cfg ctx (unat index) err p') \<and>
    (\<exists>err p'. mconf_set_blob (Some ctx) index src n = Some (err, p') \<and> setter_safe cfg ctx (unat index) err p') \<and>
    (\<exists>err p'. mconf_set_typed_scalar cfg (Some ctx) index ty src n = Some (err, p') \<and>
      setter_safe cfg ctx (unat index) err p')"
proof -
  have "src = NullPtr \<or> src_ok (ctx_bytes ctx) src (unat n)" using assms(2) by (auto simp: caller_ok_def)
  note typed = set_typed_scalar_effect [OF assms(1) this assms(3), of index]
  note safe = setter_effect_safe [OF assms(1)]
  show ?thesis
  proof (intro conjI)
    show "\<exists>err p'. mconf_set (Some ctx) index src n = Some (err, p') \<and> setter_safe cfg ctx (unat index) err p'"
      using set_effect [OF assms(1,2), of index] safe by metis
    show "\<exists>err p' req'. mconf_set_string (Some ctx) index src n req = Some (err, p', req') \<and>
        setter_safe cfg ctx (unat index) err p'"
      using set_string_effect [OF assms(1,2), of index req] safe by metis
    show "\<exists>err p'. mconf_set_blob (Some ctx) index src n = Some (err, p') \<and> setter_safe cfg ctx (unat index) err p'"
      using set_blob_effect [OF assms(1,2), of index] safe by metis
    show "\<exists>err p'. mconf_set_typed_scalar cfg (Some ctx) index ty src n = Some (err, p') \<and>
        setter_safe cfg ctx (unat index) err p'"
      using typed safe by metis
  qed
qed

theorem setters_safe_witness:
  "(\<exists>err p'. mconf_set (Some demo_ctx) 3 (DataPtr 15) 4 = Some (err, p') \<and>
      setter_safe default_config demo_ctx (unat (3 :: size_t)) err p') \<and>
    (\<exists>err p' req'. mconf_set_string (Some demo_ctx) 3 (DataPtr 15) 4 None = Some (err, p', req') \<and>
      setter_safe default_config demo_ctx (unat (3 :: size_t)) err p') \<and>
    (\<exists>err p'. mconf_set_blob (Some demo_ctx) 3 (DataPtr 15) 4 = Some (err, p') \<and>
      setter_safe default_config demo_ctx (unat (3 :: size_t)) err p') \<and>
    (\<exists>err p'. mconf_set_typed_scalar default_config (Some demo_ctx) 3 MCONF_TYPE_U32 (DataPtr 15) 4 = Some (err, p') \<and>
      setter_safe default_config demo_ctx (unat (3 :: size_t)) err p')"
  by (rule setters_safe [OF demo_ctx_ok]) (simp_all add: caller_ok_def)

text \<open>The typed accessors, for any scalar type: what is set is what is got.\<close>

lemma typed_round_trip:
  assumes ok: "ctx_ok cfg ctx" and i: "unat index < length (ctx_entries ctx)"
    and ty: "entry_type (ctx_entries ctx ! unat index) = ty" and sc: "scalar_ok cfg ty"
    and n: "n = mconf_expected_type_size ty" and len: "length bs = unat n" "length buf = unat n"
    and v: "value_ok (ctx_entries ctx ! unat index) bs"
  shows "mconf_set_typed_scalar cfg (Some ctx) index ty (ExtPtr bs) n = Some (MCONF_OK, Some (ctx_put ctx (unat index) bs))"
    and "mconf_get_typed_scalar cfg (Some (ctx_put ctx (unat index) bs)) index ty (Some buf) n = Some (MCONF_OK, Some bs)"
proof -
  let ?i = "unat index"
  have size: "entry_size (ctx_entries ctx ! ?i) = n"
    using ctx_entry_ok [OF ok i] sc ty n by (simp add: entry_ok_def scalar_ok_def)
  have "ctx_ok cfg (ctx_put ctx ?i bs)" "ctx_field (ctx_put ctx ?i bs) ?i = bs"
    using ctx_fields.wr_inv [OF ok i] ctx_fields.rd_wr_same [OF ok i] size len(1) by simp_all
  then show "mconf_get_typed_scalar cfg (Some (ctx_put ctx ?i bs)) index ty (Some buf) n = Some (MCONF_OK, Some bs)"
    using get_typed_scalar_eq [of cfg "ctx_put ctx ?i bs" index buf n] i ty sc n len(2) by simp
  show "mconf_set_typed_scalar cfg (Some ctx) index ty (ExtPtr bs) n = Some (MCONF_OK, Some (ctx_put ctx ?i bs))"
    using set_typed_scalar_eq [OF ok i _ len(1)] ty sc n v by simp
qed

lemma bool_set_get:
  assumes "ctx_ok cfg ctx" and "unat index < length (ctx_entries ctx)"
    and "entry_type (ctx_entries ctx ! unat index) = MCONF_TYPE_BOOL"
  shows "\<exists>p'. mconf_set_bool cfg (Some ctx) index v = Some (MCONF_OK, p') \<and>
    mconf_get_bool cfg p' index (Some w) = Some (MCONF_OK, Some v)"
  using typed_round_trip [OF assms, of 1 "[if v then 1 else 0]" "[0]"] assms(3)
  by (simp add: mconf_set_bool_def mconf_get_bool_def mem_simps scalar_ok_def scalar_type_cases
      mconf_expected_type_size_def value_ok_def)

lemma u8_set_get:
  assumes "ctx_ok cfg ctx" and "unat index < length (ctx_entries ctx)"
    and "entry_type (ctx_entries ctx ! unat index) = MCONF_TYPE_U8"
  shows "\<exists>p'. mconf_set_u8 cfg (Some ctx) index v = Some (MCONF_OK, p') \<and>
    mconf_get_u8 cfg p' index (Some w) = Some (MCONF_OK, Some v)"
  using typed_round_trip [OF assms, of 1 "[v]" "[w]"] assms(3)
  by (simp add: mconf_set_u8_def mconf_get_u8_def scalar_ok_def scalar_type_cases
      mconf_expected_type_size_def value_ok_def)

lemma u16_set_get:
  assumes "ctx_ok cfg ctx" and "unat index < length (ctx_entries ctx)"
    and "entry_type (ctx_entries ctx ! unat index) = MCONF_TYPE_U16"
  shows "\<exists>p'. mconf_set_u16 cfg (Some ctx) index v = Some (MCONF_OK, p') \<and>
    mconf_get_u16 cfg p' index (Some w) = Some (MCONF_OK, Some v)"
  using typed_round_trip [OF assms, of 2 "host_store16 cfg v" "host_store16 cfg w"] assms(3)
  by (simp add: mconf_set_u16_def mconf_get_u16_def scalar_ok_def scalar_type_cases
      mconf_expected_type_size_def value_ok_def)

lemma word32_set_get:
  assumes "ctx_ok cfg ctx" and "unat index < length (ctx_entries ctx)"
    and "entry_type (ctx_entries ctx ! unat index) = ty" and "scalar_ok cfg ty" and "ty \<in> {6, 7, 8}"
  shows "\<exists>p'. set_word32 ty cfg (Some ctx) index v = Some (MCONF_OK, p') \<and>
    get_word32 ty cfg p' index (Some w) = Some (MCONF_OK, Some v)"
  using typed_round_trip [OF assms(1-4), of 4 "host_store32 cfg v" "host_store32 cfg w"] assms(3,5)
  by (auto simp: set_word32_def get_word32_def mconf_expected_type_size_def value_ok_def)

text \<open>
  C23. What a typed setter stores the getter of the same type returns, for every type that has
  accessors and in either byte order; the old value of the output variable does not matter.
\<close>

theorem typed_set_get:
  assumes "ctx_ok cfg ctx" and "unat index < length (ctx_entries ctx)"
    and "entry_type (ctx_entries ctx ! unat index) = ty"
  shows "(ty = MCONF_TYPE_BOOL \<longrightarrow> (\<exists>p'. mconf_set_bool cfg (Some ctx) index b = Some (MCONF_OK, p') \<and>
      mconf_get_bool cfg p' index (Some ob) = Some (MCONF_OK, Some b))) \<and>
    (ty = MCONF_TYPE_U8 \<longrightarrow> (\<exists>p'. mconf_set_u8 cfg (Some ctx) index vb = Some (MCONF_OK, p') \<and>
      mconf_get_u8 cfg p' index (Some wb) = Some (MCONF_OK, Some vb))) \<and>
    (ty = MCONF_TYPE_U16 \<longrightarrow> (\<exists>p'. mconf_set_u16 cfg (Some ctx) index vh = Some (MCONF_OK, p') \<and>
      mconf_get_u16 cfg p' index (Some wh) = Some (MCONF_OK, Some vh))) \<and>
    (ty = MCONF_TYPE_U32 \<longrightarrow> (\<exists>p'. mconf_set_u32 cfg (Some ctx) index v = Some (MCONF_OK, p') \<and>
      mconf_get_u32 cfg p' index (Some w) = Some (MCONF_OK, Some v))) \<and>
    (ty = MCONF_TYPE_I32 \<longrightarrow> (\<exists>p'. mconf_set_i32 cfg (Some ctx) index v = Some (MCONF_OK, p') \<and>
      mconf_get_i32 cfg p' index (Some w) = Some (MCONF_OK, Some v))) \<and>
    (ty = MCONF_TYPE_FLOAT32 \<and> float_supported cfg \<longrightarrow>
      (\<exists>p'. mconf_set_float cfg (Some ctx) index v = Some (MCONF_OK, p') \<and>
        mconf_get_float cfg p' index (Some w) = Some (MCONF_OK, Some v)))"
proof -
  have "\<exists>p'. set_word32 ty cfg (Some ctx) index v = Some (MCONF_OK, p') \<and>
      get_word32 ty cfg p' index (Some w) = Some (MCONF_OK, Some v)"
    if "ty = 6 \<or> ty = 7 \<or> ty = 8 \<and> float_supported cfg"
    using word32_set_get [OF assms, of v w] that by (auto simp: scalar_ok_def scalar_type_cases)
  with bool_set_get [OF assms(1,2)] u8_set_get [OF assms(1,2)] u16_set_get [OF assms(1,2)] assms(3)
  show ?thesis
    unfolding mconf_set_u32_def mconf_get_u32_def mconf_set_i32_def mconf_get_i32_def
      mconf_set_float_def mconf_get_float_def by (intro conjI impI; simp)
qed

theorem typed_set_get_witness:
  "\<exists>p'. mconf_set_u16 default_config (Some demo_ctx) 1 500 = Some (MCONF_OK, p') \<and>
      mconf_get_u16 default_config p' 1 (Some 0) = Some (MCONF_OK, Some 500)"
  using typed_set_get [OF demo_ctx_ok, where index = 1 and ty = MCONF_TYPE_U16 and vh = 500 and wh = 0]
  by (simp add: demo_entries_def)

text \<open>
  The raw accessors round-trip: after \<open>mconf_set\<close> of an acceptable value on a field that is not a
  string, \<open>mconf_get\<close> returns exactly its bytes and leaves the rest of a longer buffer alone.
\<close>

theorem set_get_raw:
  assumes ok: "ctx_ok cfg ctx" and i: "unat index < length (ctx_entries ctx)"
    and ty: "entry_type (ctx_entries ctx ! unat index) \<noteq> MCONF_TYPE_STRING"
    and n: "n = entry_size (ctx_entries ctx ! unat index)" and bs: "length bs = unat n"
    and v: "value_ok (ctx_entries ctx ! unat index) bs" and buf: "unat n \<le> length buf"
  shows "\<exists>p'. mconf_set (Some ctx) index (ExtPtr bs) n = Some (MCONF_OK, p') \<and>
    mconf_get p' index (Some buf) n = Some (MCONF_OK, Some (bs @ drop (unat n) buf))"
proof -
  let ?e = "ctx_entries ctx ! unat index"
  have "n \<noteq> 0" using ctx_entry_ok [OF ok i] n by (simp add: entry_ok_def)
  moreover have "do { bad \<leftarrow> (if entry_type ?e = MCONF_TYPE_BOOL then not_a_bool (ctx_bytes ctx) (ExtPtr bs) else Some False);
      if bad then Some (MCONF_ERR_INVALID, Some ctx) else store_field ctx ?e (ctx_bytes ctx) (ExtPtr bs) } =
    Some (MCONF_OK, Some (ctx_put ctx (unat index) bs))"
    using store_field_eq [OF ok i, of "ExtPtr bs"] v bs n
    by (auto simp: not_a_bool_eq value_ok_def)
  ultimately have "mconf_set (Some ctx) index (ExtPtr bs) n = Some (MCONF_OK, Some (ctx_put ctx (unat index) bs))"
    using i ty n by (simp add: mconf_set_def ctx_guards [OF ok])
  moreover have "ctx_ok cfg (ctx_put ctx (unat index) bs)" "ctx_field (ctx_put ctx (unat index) bs) (unat index) = bs"
    using ctx_fields.wr_inv [OF ok i] ctx_fields.rd_wr_same [OF ok i] n bs by simp_all
  ultimately show ?thesis
    using get_eq [of cfg "ctx_put ctx (unat index) bs" index buf] i n bs buf by (simp add: patch_def)
qed

theorem set_get_raw_witness:
  "\<exists>p'. mconf_set (Some demo_ctx) 3 (ExtPtr [9, 8, 7, 6]) 4 = Some (MCONF_OK, p') \<and>
    mconf_get p' 3 (Some [0, 0, 0, 0, 5]) 4 = Some (MCONF_OK, Some ([9, 8, 7, 6] @ drop (unat (4 :: size_t)) [0, 0, 0, 0, 5]))"
  by (rule set_get_raw [OF demo_ctx_ok]) (simp_all add: demo_entries_def value_ok_def)

section \<open>Strings\<close>

lemma get_string_eq:
  assumes ok: "ctx_ok cfg ctx" and i: "unat index < length (ctx_entries ctx)"
    and ty: "entry_type (ctx_entries ctx ! unat index) = MCONF_TYPE_STRING"
    and v: "0 \<in> set (ctx_field ctx (unat index))" and l: "l = c_strlen (ctx_field ctx (unat index))"
    and buf: "\<forall>b. out = Some b \<longrightarrow> unat n \<le> length b"
  shows "mconf_get_string (Some ctx) index out n req =
    Some (if out = None \<and> n \<noteq> 0 then (MCONF_ERR_NULL, out, req)
          else if unat n \<le> l then (MCONF_ERR_SIZE, out, map_option (\<lambda>_. of_nat l + 1) req)
          else (MCONF_OK, map_option (\<lambda>b. patch b 0 (take l (ctx_field ctx (unat index)) @ [0])) out,
                map_option (\<lambda>_. of_nat l + 1) req))"
proof -
  let ?e = "ctx_entries ctx ! unat index" and ?f = "ctx_field ctx (unat index)"
  note range = ctx_entry_range [OF ok i]
  have f: "?f = chunk (ctx_bytes ctx) (unat (offset ?e)) (unat (entry_size ?e))"
    by (simp add: ctx_field_def field_get_def)
  have lt: "l < unat (entry_size ?e)" using v c_strlen_less_iff [of ?f] ctx_field_length [OF ok i] l by simp
  then have ul: "unat (of_nat l :: size_t) = l" "unat (of_nat l + 1 :: size_t) = Suc l"
    using size_t_bound [of "entry_size ?e"]
    by (simp_all add: unat_of_nat_size) (simp add: unat_add_no_wrap unat_of_nat_size)
  have size: "2 \<le> entry_size ?e" using ctx_entry_ok [OF ok i] ty by (simp add: entry_ok_def)
  have small: "n < of_nat l + 1 \<longleftrightarrow> unat n \<le> l" by (simp add: word_less_nat_alt ul less_Suc_eq_le)
  have "chunk (ctx_bytes ctx) (unat (offset ?e)) (Suc l) = take (Suc l) ?f"
    using lt by (simp add: f chunk_def min_def)
  also have "\<dots> = take l ?f @ [0]"
    using nth_c_strlen [OF v] lt ctx_field_length [OF ok i] l by (simp add: take_Suc_conv_app_nth)
  finally have read: "mem_read (ctx_bytes ctx) (unat (offset ?e)) (Suc l) = Some (take l ?f @ [0])"
    using range lt by (simp add: mem_simps)
  have wrt: "mem_write b 0 (take l ?f @ [0]) = Some (patch b 0 (take l ?f @ [0]))"
    if "out = Some b" "\<not> unat n \<le> l" for b
    using that buf lt ctx_field_length [OF ok i] by (simp add: mem_simps)
  show ?thesis
    using i ty size range v read wrt small ul
    by (cases out) (auto simp: mconf_get_string_def ctx_guards [OF ok] mconf_field_ptr_def mem_simps f [symmetric] l [symmetric])
qed

text \<open>
  C24. A string round-trips: after \<open>mconf_set_string\<close> of characters without a NUL that fit the field,
  \<open>mconf_get_string\<close> returns them with one NUL and the required size; a buffer that is too small is
  left alone, the required size is still reported, and the field is otherwise cleared.
\<close>

theorem string_round_trip:
  assumes ok: "ctx_ok cfg ctx" and i: "unat index < length (ctx_entries ctx)"
    and ty: "entry_type (ctx_entries ctx ! unat index) = MCONF_TYPE_STRING"
    and len: "unat len = length str" "length str < unat (entry_size (ctx_entries ctx ! unat index))"
    and no_nul: "0 \<notin> set str" and buf: "unat n \<le> length out"
  shows "\<exists>ctx'. mconf_set_string (Some ctx) index (ExtPtr (str @ rest)) len req = Some (MCONF_OK, Some ctx', map_option (\<lambda>_. len + 1) req) \<and>
    mconf_get_string (Some ctx') index (Some out) n (Some r) =
      Some (if unat n \<le> length str then (MCONF_ERR_SIZE, Some out, Some (len + 1))
            else (MCONF_OK, Some (str @ 0 # drop (Suc (length str)) out), Some (len + 1))) \<and>
    ctx_field ctx' (unat index) = str @ replicate (unat (entry_size (ctx_entries ctx ! unat index)) - length str) 0"
proof -
  let ?e = "ctx_entries ctx ! unat index"
  let ?v = "str @ replicate (unat (entry_size ?e) - length str) 0"
  let ?ctx = "ctx_put ctx (unat index) ?v"
  have set: "mconf_set_string (Some ctx) index (ExtPtr (str @ rest)) len req =
      Some (MCONF_OK, Some ?ctx, map_option (\<lambda>_. len + 1) req)"
    using set_string_eq [OF ok i ty, of len "ExtPtr (str @ rest)" req] len no_nul by force
  have lv: "length ?v = unat (entry_size ?e)" using len(2) by simp
  have ok': "ctx_ok cfg ?ctx" using ctx_fields.wr_inv [OF ok i lv] .
  have field: "ctx_field ?ctx (unat index) = ?v" using ctx_fields.rd_wr_same [OF ok i lv] .
  have "c_strlen ?v = length str" "0 \<in> set ?v" using c_strlen_append_zeros [OF no_nul] len(2) by simp_all
  then have "mconf_get_string (Some ?ctx) index (Some out) n (Some r) =
      Some (if unat n \<le> length str then (MCONF_ERR_SIZE, Some out, Some (of_nat (length str) + 1))
            else (MCONF_OK, Some (patch out 0 (str @ [0])), Some (of_nat (length str) + 1)))"
    using get_string_eq [OF ok', of index "length str" "Some out" n "Some r"] i ty buf field by simp
  moreover have "of_nat (length str) = len" using len(1) [symmetric] by simp
  ultimately show ?thesis using set field by (auto simp: patch_def)
qed

theorem string_round_trip_witness:
  "\<exists>ctx'. mconf_set_string (Some demo_ctx) 2 (ExtPtr [104, 105, 0]) 2 (Some 0) = Some (MCONF_OK, Some ctx', Some 3) \<and>
    mconf_get_string (Some ctx') 2 (Some [7, 7, 7, 7]) 4 (Some 0) = Some (MCONF_OK, Some [104, 105, 0, 7], Some 3)"
  using string_round_trip [OF demo_ctx_ok, where index = 2 and len = 2 and str = "[104, 105]" and rest = "[0]"
      and req = "Some 0" and out = "[7, 7, 7, 7]" and n = 4 and r = 0]
  by (auto simp: demo_entries_def)

section \<open>Misuse\<close>

lemma src_has_nul_overrun:
  "0 \<notin> set ext \<Longrightarrow> i \<le> length ext \<Longrightarrow> length ext < i + n \<Longrightarrow> src_has_nul d (ExtPtr ext) i n = None"
proof (induction n arbitrary: i)
  case (Suc n)
  show ?case
  proof (cases "i < length ext")
    case True
    then have "chunk ext i 1 = [ext ! i]" "ext ! i \<noteq> 0"
      using chunk_single [of i ext] Suc.prems(1) by (auto simp: in_set_conv_nth)
    with True Suc show ?thesis by (simp add: mem_simps)
  qed (simp add: mem_read_def)
qed simp

lemma src_has_nul_without:
  "0 \<notin> set ext \<Longrightarrow> src_has_nul d (ExtPtr ext) i n = None \<or> src_has_nul d (ExtPtr ext) i n = Some False"
proof (induction n arbitrary: i)
  case (Suc n)
  show ?case
  proof (cases "i < length ext")
    case True
    then have "chunk ext i 1 = [ext ! i]" "ext ! i \<noteq> 0"
      using chunk_single [of i ext] Suc.prems by (auto simp: in_set_conv_nth)
    with True Suc show ?thesis by (simp add: mem_simps)
  qed (simp add: mem_read_def)
qed simp

text \<open>A string of \<open>SIZE_MAX\<close> bytes does not fit into any object with its terminator.\<close>

lemma set_string_size_max:
  assumes ok: "ctx_ok cfg ctx" and i: "unat index < length (ctx_entries ctx)"
    and ty: "entry_type (ctx_entries ctx ! unat index) = MCONF_TYPE_STRING" and "0 \<notin> set ext"
  shows "mconf_set_string (Some ctx) index (ExtPtr ext) (- 1) req = None"
proof -
  let ?e = "ctx_entries ctx ! unat index" and ?n = "unat (- 1 :: size_t)"
  have n: "?n = 2 ^ 64 - 1" by (simp add: unsigned_minus_1_eq_mask mask_eq_exp_minus_1)
  have small: "length (ctx_bytes ctx) < 2 ^ 64"
    using ok size_t_bound by (elim ctx_okE) simp
  have False if run: "mconf_set_string (Some ctx) index (ExtPtr ext) (- 1) req = Some r" for r
  proof -
    obtain d1 bs d2 d3 where w: "mem_write (ctx_bytes ctx) (mconf_field_ptr ?e) (replicate (unat (entry_size ?e)) 0) = Some d1"
      "src_read d1 (ExtPtr ext) 0 ?n = Some bs" "mem_write d1 (mconf_field_ptr ?e) bs = Some d2"
      "mem_write d2 (mconf_field_ptr ?e + ?n) [0] = Some d3"
      using run src_has_nul_without [OF assms(4), of "ctx_bytes ctx" 0 ?n] ty i
      by (auto simp: mconf_set_string_def ctx_guards [OF ok] Let_def bind_Some_iff simp del: src_read.simps)
    then have "length d1 = length (ctx_bytes ctx)" "length d2 = length d1" "mconf_field_ptr ?e + ?n + 1 \<le> length d2"
      by (auto simp: mem_write_def split: if_splits)
    with small n show False by simp
  qed
  then show ?thesis by (cases "mconf_set_string (Some ctx) index (ExtPtr ext) (- 1) req") auto
qed

text \<open>
  C40. What the guards of the accessors let pass, for every valid context and every field of it.
  \<open>mconf_set_string\<close> with a source without a NUL leaves an object exactly when the source is shorter
  than the announced length and that length fits into the field, or when the length is \<open>SIZE_MAX\<close>, for
  which the capacity check wraps to zero: that is the one length beyond the capacity that it accepts.
  A source that lies inside the field itself is cleared before it is copied: the call reports success
  and the field is empty, whatever the string was. \<open>mconf_get_bool\<close> stores through a null result
  pointer, which all other typed getters report as \<open>MCONF_ERR_NULL\<close>.
\<close>

theorem unguarded_misuse:
  assumes ok: "ctx_ok cfg ctx" and i: "unat index < length (ctx_entries ctx)" and e: "e = ctx_entries ctx ! unat index"
  shows "(entry_type e = MCONF_TYPE_STRING \<longrightarrow>
      (\<forall>ext n. 0 \<notin> set ext \<longrightarrow> (mconf_set_string (Some ctx) index (ExtPtr ext) n req = None \<longleftrightarrow>
         n = - 1 \<or> (length ext < unat n \<and> unat n < unat (entry_size e)))) \<and>
      (\<forall>a n. unat (offset e) \<le> a \<and> a + unat n \<le> unat (offset e) + unat (entry_size e) \<and> unat n < unat (entry_size e) \<and>
         0 \<notin> set (chunk (ctx_bytes ctx) a (unat n)) \<longrightarrow>
         mconf_set_string (Some ctx) index (DataPtr a) n req =
           Some (MCONF_OK, Some (ctx_put ctx (unat index) (replicate (unat (entry_size e)) 0)), map_option (\<lambda>_. n + 1) req))) \<and>
    (entry_type e = MCONF_TYPE_BOOL \<and> value_ok e (ctx_field ctx (unat index)) \<longrightarrow>
      mconf_get_bool cfg (Some ctx) index None = None) \<and>
    mconf_get_u8 cfg (Some ctx) index None = Some (MCONF_ERR_NULL, None) \<and>
    mconf_get_u16 cfg (Some ctx) index None = Some (MCONF_ERR_NULL, None) \<and>
    mconf_get_u32 cfg (Some ctx) index None = Some (MCONF_ERR_NULL, None) \<and>
    mconf_get_i32 cfg (Some ctx) index None = Some (MCONF_ERR_NULL, None) \<and>
    mconf_get_float cfg (Some ctx) index None = Some (MCONF_ERR_NULL, None)"
proof -
  have ext: "mconf_set_string (Some ctx) index (ExtPtr ext) n req = None \<longleftrightarrow>
      n = - 1 \<or> (length ext < unat n \<and> unat n < unat (entry_size e))"
    if str: "entry_type e = MCONF_TYPE_STRING" and nul: "0 \<notin> set ext" for ext n
  proof (cases "n = - 1")
    case True
    then show ?thesis using set_string_size_max [OF ok i _ nul] str e by simp
  next
    case False
    then have "n + 1 \<noteq> 0" by (simp add: eq_neg_iff_add_eq_0)
    note Suc = unat_Suc_size [OF this]
    show ?thesis
    proof (cases "length ext < unat n")
      case True
      then have "src_has_nul (ctx_bytes ctx) (ExtPtr ext) 0 (unat n) = None"
        using src_has_nul_overrun [OF nul, of 0 "unat n"] by simp
      then show ?thesis
        using True False i str e
        by (auto simp: mconf_set_string_def ctx_guards [OF ok] Let_def word_less_nat_alt Suc)
    next
      case fits: False
      then have "caller_ok ctx (ExtPtr ext) n" using \<open>n + 1 \<noteq> 0\<close> by (simp add: caller_ok_def)
      from set_string_effect [OF ok this, of index req] fits False show ?thesis by auto
    qed
  qed
  have aliased: "mconf_set_string (Some ctx) index (DataPtr a) n req =
      Some (MCONF_OK, Some (ctx_put ctx (unat index) (replicate (unat (entry_size e)) 0)), map_option (\<lambda>_. n + 1) req)"
    if str: "entry_type e = MCONF_TYPE_STRING" and a: "unat (offset e) \<le> a"
      "a + unat n \<le> unat (offset e) + unat (entry_size e)" "unat n < unat (entry_size e)"
      "0 \<notin> set (chunk (ctx_bytes ctx) a (unat n))" for a n
  proof -
    have "src_ok (ctx_bytes ctx) (DataPtr a) (unat n)" using ctx_entry_range [OF ok i] a(2) e by simp
    from set_string_eq [OF ok i _ _ this, of req] a e str obtain bs where
      "bs = replicate (unat n) 0" "mconf_set_string (Some ctx) index (DataPtr a) n req =
        Some (MCONF_OK, Some (ctx_put ctx (unat index) (bs @ replicate (unat (entry_size e) - unat n) 0)), map_option (\<lambda>_. n + 1) req)"
      by (auto simp: chunk_def)
    with a(3) show ?thesis by (simp add: replicate_add [symmetric])
  qed
  have bool: "mconf_get_bool cfg (Some ctx) index None = None"
    if "entry_type e = MCONF_TYPE_BOOL" "value_ok e (ctx_field ctx (unat index))"
    using that get_typed_scalar_eq [OF ok i, of "[0]" 1] e
    by (auto simp: mconf_get_bool_def value_ok_def scalar_ok_def scalar_type_cases mconf_expected_type_size_def arr_get_def)
  show ?thesis
    using ext aliased bool i
    by (auto simp: mconf_get_u8_def mconf_get_u16_def mconf_get_u32_def mconf_get_i32_def mconf_get_float_def
        get_word32_def mconf_get_typed_scalar_def ctx_guards [OF ok])
qed

theorem unguarded_misuse_witness:
  "mconf_set_string (Some demo_ctx) 2 (ExtPtr [97, 98]) (- 1) None = None \<and>
   mconf_set_string (Some demo_ctx) 2 (ExtPtr [97, 98]) 3 None = None \<and>
   mconf_set_string (Some demo_ctx) 2 (ExtPtr [97, 98]) 2 None \<noteq> None \<and>
   mconf_get_bool default_config (Some demo_ctx) 0 None = None"
  using unguarded_misuse [OF demo_ctx_ok, of 2 "demo_entries ! 2" None]
    unguarded_misuse [OF demo_ctx_ok, of 0 "demo_entries ! 0" None]
  by (auto simp: demo_entries_def value_ok_def ctx_field_def field_get_def chunk_def)

end
