(* ===== verification/Mconf_Storage.thy ===== *)
theory Mconf_Storage
  imports Mconf_Access
begin

text \<open>
  The storage layer (src/mconf.c, lines 14 to 33 and 835 to 1156): the callbacks of the backend, the
  32-byte slot header, the serialised payload with its length and CRC, and the streaming reader of a
  slot. The backend's callbacks are client code, hence arbitrary functions over a state \<open>'s\<close>, which
  stands for everything behind \<open>callback_ctx\<close>.
\<close>

section \<open>Callbacks\<close>

text \<open>
  A read gets the buffer as it is and yields the return code, the buffer afterwards and the new
  state; \<open>None\<close> is undefined behaviour inside the callback. The \<open>size\<close> argument is the buffer's length.
\<close>

type_synonym 's mconf_read_fn = "'s \<Rightarrow> size_t \<Rightarrow> byte list \<Rightarrow> (int \<times> byte list \<times> 's) option"
type_synonym 's mconf_write_fn = "'s \<Rightarrow> size_t \<Rightarrow> byte list \<Rightarrow> (int \<times> 's) option"
type_synonym 's mconf_erase_fn = "'s \<Rightarrow> size_t \<Rightarrow> size_t \<Rightarrow> (int \<times> 's) option"

record 's mconf_io =
  storage_size :: size_t
  slot_size :: size_t
  io_read :: "'s mconf_read_fn option"
  io_write :: "'s mconf_write_fn option"
  io_erase :: "'s mconf_erase_fn option"

text \<open>A callback that returns a buffer of another length has written outside the one it was given.\<close>

definition mconf_io_read_exact ::
  "'s mconf_io \<Rightarrow> 's \<Rightarrow> size_t \<Rightarrow> byte list \<Rightarrow> (mconf_err \<times> byte list \<times> 's) option" where
  "mconf_io_read_exact io s off buffer =
     (case io_read io of
        None \<Rightarrow> Some (MCONF_ERR_NULL, buffer, s)
      | Some rd \<Rightarrow>
          do { (rc, buffer', s') \<leftarrow> rd s off buffer;
               if length buffer' \<noteq> length buffer then None
               else Some (if rc \<noteq> 0 then MCONF_ERR_IO else MCONF_OK, buffer', s') })"

definition mconf_io_write_exact ::
  "'s mconf_io \<Rightarrow> 's \<Rightarrow> size_t \<Rightarrow> byte list \<Rightarrow> (mconf_err \<times> 's) option" where
  "mconf_io_write_exact io s off bs =
     (case io_write io of
        None \<Rightarrow> Some (MCONF_ERR_NULL, s)
      | Some wr \<Rightarrow>
          do { (rc, s') \<leftarrow> wr s off bs;
               Some (if rc \<noteq> 0 then MCONF_ERR_IO else MCONF_OK, s') })"

section \<open>The header\<close>

abbreviation MCONF_STORAGE_STATE_UNCOMMITTED :: byte where "MCONF_STORAGE_STATE_UNCOMMITTED \<equiv> 0x3C"
abbreviation MCONF_STORAGE_STATE_COMMITTED :: byte where "MCONF_STORAGE_STATE_COMMITTED \<equiv> 0xA5"
abbreviation MCONF_STORAGE_HEADER_SIZE :: size_t where "MCONF_STORAGE_HEADER_SIZE \<equiv> 32"
abbreviation MCONF_STORAGE_STATE_OFFSET :: size_t where "MCONF_STORAGE_STATE_OFFSET \<equiv> 18"
abbreviation MCONF_STORAGE_FORMAT_VERSION :: uint16 where "MCONF_STORAGE_FORMAT_VERSION \<equiv> 1"
abbreviation MCONF_U16_MAX_VALUE :: size_t where "MCONF_U16_MAX_VALUE \<equiv> 0xFFFF"

definition mconf_storage_magic :: "byte list" where
  "mconf_storage_magic = [0x4D, 0x43, 0x46, 0x47]"

record mconf_record_info =
  info_schema_fingerprint :: uint32
  info_schema_version :: uint32
  info_generation :: uint32
  info_payload_length :: uint32
  info_payload_crc32 :: uint32
  info_entry_count :: uint16
  info_format_version :: uint16
  info_state :: byte

definition mconf_encode_header ::
  "byte list \<Rightarrow> mconf_ctx \<Rightarrow> uint32 \<Rightarrow> uint32 \<Rightarrow> uint32 \<Rightarrow> byte \<Rightarrow> (mconf_err \<times> byte list) option" where
  "mconf_encode_header header ctx generation payload_length payload_crc32 state =
     do { sch \<leftarrow> ctx_schema ctx;
          h \<leftarrow> mem_write header 0 (replicate 32 0);
          h \<leftarrow> mem_write h 0 mconf_storage_magic;
          h \<leftarrow> mem_write h 4 (mconf_write_u16_le MCONF_STORAGE_FORMAT_VERSION);
          h \<leftarrow> mem_write h 6 (mconf_write_u16_le 32);
          h \<leftarrow> mem_write h 8 (mconf_write_u32_le (schema_version sch));
          h \<leftarrow> mem_write h 12 (mconf_write_u32_le (schema_fingerprint ctx));
          if entry_count sch > MCONF_U16_MAX_VALUE then Some (MCONF_ERR_SIZE, h)
          else
            do { h \<leftarrow> mem_write h 16 (mconf_write_u16_le (ucast (entry_count sch)));
                 h \<leftarrow> mem_write h 18 [state];
                 h \<leftarrow> mem_write h 19 [0];
                 h \<leftarrow> mem_write h 20 (mconf_write_u32_le payload_length);
                 h \<leftarrow> mem_write h 24 (mconf_write_u32_le generation);
                 h \<leftarrow> mem_write h 28 (mconf_write_u32_le payload_crc32);
                 Some (MCONF_OK, h) } }"

text \<open>\<open>header\<close> is an array of 32 bytes; \<open>*info\<close> is written only on success.\<close>

definition mconf_decode_header :: "byte list \<Rightarrow> mconf_err \<times> mconf_record_info option" where
  "mconf_decode_header header =
     (if take 4 header \<noteq> mconf_storage_magic then (MCONF_ERR_MAGIC, None)
      else if mconf_read_u16_le (chunk header 6 2) \<noteq> 32 then (MCONF_ERR_INVALID, None)
      else (MCONF_OK, Some
        \<lparr>info_schema_fingerprint = mconf_read_u32_le (chunk header 12 4),
         info_schema_version = mconf_read_u32_le (chunk header 8 4),
         info_generation = mconf_read_u32_le (chunk header 24 4),
         info_payload_length = mconf_read_u32_le (chunk header 20 4),
         info_payload_crc32 = mconf_read_u32_le (chunk header 28 4),
         info_entry_count = mconf_read_u16_le (chunk header 16 2),
         info_format_version = mconf_read_u16_le (chunk header 4 2),
         info_state = header ! 18\<rparr>))"

definition mconf_probe_slot_header ::
  "mconf_ctx \<Rightarrow> 's mconf_io \<Rightarrow> 's \<Rightarrow> size_t \<Rightarrow> bool \<Rightarrow>
    (mconf_err \<times> mconf_record_info option \<times> 's) option" where
  "mconf_probe_slot_header ctx io s slot_index require_committed =
     (if (slot_index + 1) * slot_size io > storage_size io then Some (MCONF_ERR_SIZE, None, s)
      else
        do { (err, header, s) \<leftarrow> mconf_io_read_exact io s (slot_index * slot_size io) (replicate 32 0);
             if err \<noteq> MCONF_OK then Some (err, None, s)
             else case mconf_decode_header header of
               (err, None) \<Rightarrow> Some (err, None, s)
             | (err, Some info) \<Rightarrow>
                 do { sch \<leftarrow> ctx_schema ctx;
                      if (require_committed \<and> info_state info \<noteq> MCONF_STORAGE_STATE_COMMITTED) \<or>
                         (\<not> require_committed \<and> info_state info \<noteq> MCONF_STORAGE_STATE_COMMITTED \<and>
                            info_state info \<noteq> MCONF_STORAGE_STATE_UNCOMMITTED)
                      then Some (MCONF_ERR_INVALID, None, s)
                      else if info_format_version info \<noteq> MCONF_STORAGE_FORMAT_VERSION
                      then Some (MCONF_ERR_INVALID, None, s)
                      else if info_schema_version info \<noteq> schema_version sch \<or>
                              info_schema_fingerprint info \<noteq> schema_fingerprint ctx
                      then Some (MCONF_ERR_VERSION, None, s)
                      else if ucast (info_entry_count info) \<noteq> entry_count sch
                      then Some (MCONF_ERR_INVALID, None, s)
                      else if MCONF_STORAGE_HEADER_SIZE + ucast (info_payload_length info) > slot_size io
                      then Some (MCONF_ERR_SIZE, None, s)
                      else Some (MCONF_OK, Some info, s) } })"

section \<open>The payload\<close>

text \<open>The result is the size and \<open>*err_out\<close>.\<close>

definition mconf_serialized_entry_size ::
  "byte list \<Rightarrow> nat \<Rightarrow> mconf_entry \<Rightarrow> (size_t \<times> mconf_err) option" where
  "mconf_serialized_entry_size m off e =
     (if entry_type e = MCONF_TYPE_STRING then
        do { (err, length_out) \<leftarrow> mconf_validate_string_bytes m off (entry_size e) (Some 0);
             string_length \<leftarrow> length_out;
             Some (if err \<noteq> MCONF_OK then 0 else 2 + string_length, err) }
      else Some (entry_size e, MCONF_OK))"

text \<open>
  The loop of \<open>mconf_compute_payload_layout\<close>; \<open>encoded\<close> is its four-byte array. The result is the
  error, the running total and the running CRC.
\<close>

fun payload_layout_loop ::
  "mconf_config \<Rightarrow> mconf_ctx \<Rightarrow> byte list \<Rightarrow> nat \<Rightarrow> nat \<Rightarrow> size_t \<Rightarrow> uint32 \<Rightarrow> byte list \<Rightarrow>
    (mconf_err \<times> size_t \<times> uint32) option" where
  "payload_layout_loop cfg ctx d index 0 tot crc encoded = Some (MCONF_OK, tot, crc)"
| "payload_layout_loop cfg ctx d index (Suc n) tot crc encoded =
     do { e \<leftarrow> mconf_entry_at ctx index;
          let field = mconf_field_ptr e;
          (esize, entry_err) \<leftarrow> mconf_serialized_entry_size d field e;
          if entry_err \<noteq> MCONF_OK then Some (entry_err, tot, crc)
          else if tot > - 1 - esize then Some (MCONF_ERR_SIZE, tot, crc)
          else
            do { let tot = tot + esize;
                 if entry_type e = MCONF_TYPE_STRING then
                   do { (_, length_out) \<leftarrow> mconf_validate_string_bytes d field (entry_size e) (Some 0);
                        len \<leftarrow> length_out;
                        let crc = mconf_crc32_update_byte crc (ucast (len AND 0xFF));
                        let crc = mconf_crc32_update_byte crc (ucast (drop_bit 8 len AND 0xFF));
                        crc \<leftarrow> crc32_update_range d field (unat len) crc;
                        payload_layout_loop cfg ctx d (Suc index) n tot crc encoded }
                 else if entry_type e = MCONF_TYPE_BLOB then
                   do { crc \<leftarrow> crc32_update_range d field (unat (entry_size e)) crc;
                        payload_layout_loop cfg ctx d (Suc index) n tot crc encoded }
                 else
                   do { (entry_err, encoded, encoded_size) \<leftarrow>
                          mconf_encode_field_bytes cfg e d field encoded 0;
                        if entry_err \<noteq> MCONF_OK then Some (entry_err, tot, crc)
                        else
                          do { crc \<leftarrow> crc32_update_range encoded 0 (unat encoded_size) crc;
                               payload_layout_loop cfg ctx d (Suc index) n tot crc encoded } } } }"

text \<open>The result is the error, \<open>*payload_length_out\<close> and \<open>*crc_out\<close>.\<close>

definition mconf_compute_payload_layout ::
  "mconf_config \<Rightarrow> mconf_ctx \<Rightarrow> size_t \<Rightarrow> uint32 \<Rightarrow> (mconf_err \<times> size_t \<times> uint32) option" where
  "mconf_compute_payload_layout cfg ctx payload_length crc_out =
     do { data_err \<leftarrow> mconf_validate_data cfg (Some ctx) (ctx_data ctx);
          if data_err \<noteq> MCONF_OK then Some (data_err, payload_length, crc_out)
          else
            do { sch \<leftarrow> ctx_schema ctx;
                 d \<leftarrow> ctx_data ctx;
                 (err, tot, crc) \<leftarrow>
                   payload_layout_loop cfg ctx d 0 (unat (entry_count sch)) 0 0xFFFFFFFF (replicate 4 0);
                 if err \<noteq> MCONF_OK then Some (err, payload_length, crc_out)
                 else Some (MCONF_OK, tot, mconf_crc32_finalize crc) } }"

fun serialize_loop ::
  "mconf_config \<Rightarrow> mconf_ctx \<Rightarrow> 's mconf_io \<Rightarrow> byte list \<Rightarrow> nat \<Rightarrow> nat \<Rightarrow> size_t \<Rightarrow> byte list \<Rightarrow> 's \<Rightarrow>
    (mconf_err \<times> 's) option" where
  "serialize_loop cfg ctx io d index 0 off encoded s = Some (MCONF_OK, s)"
| "serialize_loop cfg ctx io d index (Suc n) off encoded s =
     do { e \<leftarrow> mconf_entry_at ctx index;
          let field = mconf_field_ptr e;
          if entry_type e = MCONF_TYPE_STRING then
            do { (err, length_out) \<leftarrow> mconf_validate_string_bytes d field (entry_size e) (Some 0);
                 if err \<noteq> MCONF_OK then Some (err, s)
                 else
                   do { len \<leftarrow> length_out;
                        (err, s) \<leftarrow> mconf_io_write_exact io s off (mconf_write_u16_le (ucast len));
                        if err \<noteq> MCONF_OK then Some (err, s)
                        else if len \<noteq> 0 then
                          do { bs \<leftarrow> mem_read d field (unat len);
                               (err, s) \<leftarrow> mconf_io_write_exact io s (off + 2) bs;
                               if err \<noteq> MCONF_OK then Some (err, s)
                               else serialize_loop cfg ctx io d (Suc index) n (off + 2 + len) encoded s }
                        else serialize_loop cfg ctx io d (Suc index) n (off + 2) encoded s } }
          else if entry_type e = MCONF_TYPE_BLOB then
            do { bs \<leftarrow> mem_read d field (unat (entry_size e));
                 (err, s) \<leftarrow> mconf_io_write_exact io s off bs;
                 if err \<noteq> MCONF_OK then Some (err, s)
                 else serialize_loop cfg ctx io d (Suc index) n (off + entry_size e) encoded s }
          else
            do { (err, encoded, encoded_size) \<leftarrow> mconf_encode_field_bytes cfg e d field encoded 0;
                 if err \<noteq> MCONF_OK then Some (err, s)
                 else
                   do { bs \<leftarrow> mem_read encoded 0 (unat encoded_size);
                        (err, s) \<leftarrow> mconf_io_write_exact io s off bs;
                        if err \<noteq> MCONF_OK then Some (err, s)
                        else serialize_loop cfg ctx io d (Suc index) n (off + encoded_size) encoded s } } }"

definition mconf_serialize_payload_to_storage ::
  "mconf_config \<Rightarrow> mconf_ctx \<Rightarrow> 's mconf_io \<Rightarrow> size_t \<Rightarrow> 's \<Rightarrow> (mconf_err \<times> 's) option" where
  "mconf_serialize_payload_to_storage cfg ctx io base_offset s =
     do { sch \<leftarrow> ctx_schema ctx;
          d \<leftarrow> ctx_data ctx;
          serialize_loop cfg ctx io d 0 (unat (entry_count sch)) base_offset (replicate 4 0) s }"

section \<open>Reading a slot\<close>

text \<open>
  The loop of \<open>mconf_load_slot_into_buffer\<close>. The result is the error, the buffer, the running CRC,
  the running offset and the backend's state.
\<close>

fun load_slot_loop ::
  "mconf_config \<Rightarrow> mconf_ctx \<Rightarrow> 's mconf_io \<Rightarrow> nat \<Rightarrow> nat \<Rightarrow> byte list \<Rightarrow> uint32 \<Rightarrow> size_t \<Rightarrow>
    byte list \<Rightarrow> 's \<Rightarrow> (mconf_err \<times> byte list \<times> uint32 \<times> size_t \<times> 's) option" where
  "load_slot_loop cfg ctx io index 0 scratch crc running_offset encoded s =
     Some (MCONF_OK, scratch, crc, running_offset, s)"
| "load_slot_loop cfg ctx io index (Suc n) scratch crc running_offset encoded s =
     do { e \<leftarrow> mconf_entry_at ctx index;
          let dst = mconf_field_ptr e;
          if entry_type e = MCONF_TYPE_STRING then
            do { (err, length_le, s) \<leftarrow> mconf_io_read_exact io s running_offset [0, 0];
                 if err \<noteq> MCONF_OK then Some (err, scratch, crc, running_offset, s)
                 else
                   do { let running_offset = running_offset + 2;
                        let crc = mconf_crc32_update_byte crc (length_le ! 0);
                        let crc = mconf_crc32_update_byte crc (length_le ! 1);
                        let len = mconf_read_u16_le length_le;
                        if ucast len + 1 > entry_size e
                        then Some (MCONF_ERR_INVALID, scratch, crc, running_offset, s)
                        else
                          do { scratch \<leftarrow> mem_write scratch dst (replicate (unat (entry_size e)) 0);
                               if len \<noteq> 0 then
                                 do { buffer \<leftarrow> mem_read scratch dst (unat len);
                                      (err, buffer, s) \<leftarrow> mconf_io_read_exact io s running_offset buffer;
                                      scratch \<leftarrow> mem_write scratch dst buffer;
                                      if err \<noteq> MCONF_OK then Some (err, scratch, crc, running_offset, s)
                                      else
                                        do { crc \<leftarrow> crc32_update_range scratch dst (unat len) crc;
                                             scratch \<leftarrow> mem_write scratch (dst + unat len) [0];
                                             load_slot_loop cfg ctx io (Suc index) n scratch crc
                                               (running_offset + ucast len) encoded s } }
                               else
                                 do { scratch \<leftarrow> mem_write scratch (dst + unat len) [0];
                                      load_slot_loop cfg ctx io (Suc index) n scratch crc
                                        running_offset encoded s } } } }
          else if entry_type e = MCONF_TYPE_BLOB then
            do { buffer \<leftarrow> mem_read scratch dst (unat (entry_size e));
                 (err, buffer, s) \<leftarrow> mconf_io_read_exact io s running_offset buffer;
                 scratch \<leftarrow> mem_write scratch dst buffer;
                 if err \<noteq> MCONF_OK then Some (err, scratch, crc, running_offset, s)
                 else
                   do { crc \<leftarrow> crc32_update_range scratch dst (unat (entry_size e)) crc;
                        load_slot_loop cfg ctx io (Suc index) n scratch crc
                          (running_offset + entry_size e) encoded s } }
          else
            do { let encoded_size = mconf_expected_type_size (entry_type e);
                 buffer \<leftarrow> mem_read encoded 0 (unat encoded_size);
                 (err, buffer, s) \<leftarrow> mconf_io_read_exact io s running_offset buffer;
                 encoded \<leftarrow> mem_write encoded 0 buffer;
                 if err \<noteq> MCONF_OK then Some (err, scratch, crc, running_offset, s)
                 else
                   do { let running_offset = running_offset + encoded_size;
                        crc \<leftarrow> crc32_update_range encoded 0 (unat encoded_size) crc;
                        (err, scratch) \<leftarrow> mconf_decode_field_bytes cfg e encoded encoded_size scratch dst;
                        if err \<noteq> MCONF_OK then Some (err, scratch, crc, running_offset, s)
                        else load_slot_loop cfg ctx io (Suc index) n scratch crc running_offset encoded s } } }"

text \<open>The result is the error, \<open>*info_out\<close> (written on success), the buffer and the backend's state.\<close>

definition mconf_load_slot_into_buffer ::
  "mconf_config \<Rightarrow> mconf_ctx \<Rightarrow> 's mconf_io \<Rightarrow> size_t \<Rightarrow> byte list \<Rightarrow> bool \<Rightarrow> 's \<Rightarrow>
    (mconf_err \<times> mconf_record_info option \<times> byte list \<times> 's) option" where
  "mconf_load_slot_into_buffer cfg ctx io slot_index buffer require_committed s =
     do { (err, pinfo, s) \<leftarrow> mconf_probe_slot_header ctx io s slot_index require_committed;
          if err \<noteq> MCONF_OK then Some (err, None, buffer, s)
          else
            do { info \<leftarrow> pinfo;
                 sch \<leftarrow> ctx_schema ctx;
                 let payload_offset = slot_index * slot_size io + MCONF_STORAGE_HEADER_SIZE;
                 scratch \<leftarrow> mem_write buffer 0 (replicate (unat (ctx_data_size ctx)) 0);
                 (err, scratch, crc, running_offset, s) \<leftarrow>
                   load_slot_loop cfg ctx io 0 (unat (entry_count sch)) scratch 0xFFFFFFFF payload_offset
                     (replicate 4 0) s;
                 if err \<noteq> MCONF_OK then Some (err, None, scratch, s)
                 else if running_offset - payload_offset \<noteq> ucast (info_payload_length info)
                 then Some (MCONF_ERR_SIZE, None, scratch, s)
                 else if mconf_crc32_finalize crc \<noteq> info_payload_crc32 info
                 then Some (MCONF_ERR_CRC, None, scratch, s)
                 else
                   do { err \<leftarrow> mconf_validate_data cfg (Some ctx) (Some scratch);
                        if err \<noteq> MCONF_OK then Some (MCONF_ERR_INVALID, None, scratch, s)
                        else Some (MCONF_OK, Some info, scratch, s) } } }"

end
