(* ===== verification/Mconf_Persist.thy ===== *)
theory Mconf_Persist
  imports Mconf_Storage
begin

text \<open>
  Loading and saving a configuration through the two slots (src/mconf.c, lines 1158 to 1308). A load
  reads the slot with the newer generation first and falls back to the other one and then to the
  defaults. A save writes the other slot: erase, header in the uncommitted state, payload, read
  back, and last the single byte that commits it.
\<close>

definition mconf_generation_is_newer :: "uint32 \<Rightarrow> uint32 \<Rightarrow> bool" where
  "mconf_generation_is_newer lhs rhs \<longleftrightarrow> sint (lhs - rhs) > 0"

text \<open>
  The calls \<open>if (mconf_load_slot_into_buffer(ctx, io, k, ctx->data, NULL, true) == MCONF_OK) return
  MCONF_OK;\<close> for the slots of a list in order. Every attempt works on \<open>ctx->data\<close> itself.
\<close>

fun load_first_of ::
  "mconf_config \<Rightarrow> 's mconf_io \<Rightarrow> size_t list \<Rightarrow> mconf_ctx \<Rightarrow> 's \<Rightarrow> (bool \<times> mconf_ctx \<times> 's) option" where
  "load_first_of cfg io [] ctx s = Some (False, ctx, s)"
| "load_first_of cfg io (slot # slots) ctx s =
     do { d \<leftarrow> ctx_data ctx;
          (err, _, d, s) \<leftarrow> mconf_load_slot_into_buffer cfg ctx io slot d True s;
          let ctx = ctx\<lparr>ctx_data := Some d\<rparr>;
          if err = MCONF_OK then Some (True, ctx, s) else load_first_of cfg io slots ctx s }"

text \<open>Which slots a load tries, from what the two header probes returned.\<close>

definition slots_to_try ::
  "mconf_err \<Rightarrow> mconf_record_info option \<Rightarrow> mconf_err \<Rightarrow> mconf_record_info option \<Rightarrow> size_t list option" where
  "slots_to_try slot0_err slot0_info slot1_err slot1_info =
     (if slot0_err = MCONF_OK \<and> slot1_err = MCONF_OK then
        do { i0 \<leftarrow> slot0_info;
             i1 \<leftarrow> slot1_info;
             Some (if mconf_generation_is_newer (info_generation i1) (info_generation i0)
                   then [1, 0] else [0, 1]) }
      else if slot0_err = MCONF_OK then Some [0]
      else if slot1_err = MCONF_OK then Some [1]
      else Some [])"

definition mconf_load ::
  "mconf_config \<Rightarrow> mconf_ctx option \<Rightarrow> 's mconf_io option \<Rightarrow> 's \<Rightarrow>
    (mconf_err \<times> mconf_ctx option \<times> 's) option" where
  "mconf_load cfg p pio s =
     (let ctx_err = mconf_require_context p in
      if ctx_err \<noteq> MCONF_OK then Some (ctx_err, p, s)
      else case pio of
        None \<Rightarrow> Some (MCONF_ERR_NULL, p, s)
      | Some io \<Rightarrow>
          if io_read io = None then Some (MCONF_ERR_NULL, p, s)
          else if slot_size io < MCONF_STORAGE_HEADER_SIZE \<or> storage_size io < slot_size io * 2
          then Some (MCONF_ERR_SIZE, p, s)
          else
            do { ctx \<leftarrow> p;
                 (slot0_err, slot0_info, s) \<leftarrow> mconf_probe_slot_header ctx io s 0 True;
                 (slot1_err, slot1_info, s) \<leftarrow> mconf_probe_slot_header ctx io s 1 True;
                 slots \<leftarrow> slots_to_try slot0_err slot0_info slot1_err slot1_info;
                 (loaded, ctx, s) \<leftarrow> load_first_of cfg io slots ctx s;
                 if loaded then Some (MCONF_OK, Some ctx, s)
                 else
                   do { (_, p) \<leftarrow> mconf_load_defaults (Some ctx);
                        Some (if slot0_err = MCONF_ERR_CRC \<or> slot1_err = MCONF_ERR_CRC
                              then MCONF_ERR_CRC
                              else if slot0_err = MCONF_ERR_VERSION \<or> slot1_err = MCONF_ERR_VERSION
                              then MCONF_ERR_VERSION
                              else if slot0_err = MCONF_ERR_MAGIC \<or> slot1_err = MCONF_ERR_MAGIC
                              then MCONF_ERR_MAGIC
                              else MCONF_ERR_INVALID, p, s) } })"

text \<open>The slot that a save writes and the generation it gives it.\<close>

definition save_target ::
  "mconf_err \<Rightarrow> mconf_record_info option \<Rightarrow> mconf_err \<Rightarrow> mconf_record_info option \<Rightarrow>
    (size_t \<times> uint32) option" where
  "save_target slot0_err slot0_info slot1_err slot1_info =
     do { (target_slot, next_generation) \<leftarrow>
            (if slot0_err = MCONF_OK \<and> slot1_err = MCONF_OK then
               do { i0 \<leftarrow> slot0_info;
                    i1 \<leftarrow> slot1_info;
                    Some (if mconf_generation_is_newer (info_generation i1) (info_generation i0)
                          then (0, info_generation i1 + 1) else (1, info_generation i0 + 1)) }
             else if slot0_err = MCONF_OK then do { i0 \<leftarrow> slot0_info; Some (1, info_generation i0 + 1) }
             else if slot1_err = MCONF_OK then do { i1 \<leftarrow> slot1_info; Some (0, info_generation i1 + 1) }
             else Some (0, 1));
          Some (target_slot, if next_generation = 0 then 1 else next_generation) }"

text \<open>
  The second half of a save: the payload, the read-back of the header and of the whole record, which
  goes into \<open>ctx->data\<close>, and the commit.
\<close>

definition save_payload_and_commit ::
  "mconf_config \<Rightarrow> mconf_ctx \<Rightarrow> 's mconf_io \<Rightarrow> size_t \<Rightarrow> byte list \<Rightarrow> 's \<Rightarrow>
    (mconf_err \<times> mconf_ctx option \<times> 's) option" where
  "save_payload_and_commit cfg ctx io target_slot header s =
     do { let target_offset = target_slot * slot_size io;
          (err, s) \<leftarrow>
            mconf_serialize_payload_to_storage cfg ctx io (target_offset + MCONF_STORAGE_HEADER_SIZE) s;
          if err \<noteq> MCONF_OK then Some (err, Some ctx, s)
          else
     do { (err, verify_header, s) \<leftarrow> mconf_io_read_exact io s target_offset (replicate 32 0);
          if err \<noteq> MCONF_OK then Some (err, Some ctx, s)
          else if verify_header \<noteq> header then Some (MCONF_ERR_IO, Some ctx, s)
          else
     do { d \<leftarrow> ctx_data ctx;
          (err, _, d, s) \<leftarrow> mconf_load_slot_into_buffer cfg ctx io target_slot d False s;
          let ctx = ctx\<lparr>ctx_data := Some d\<rparr>;
          if err \<noteq> MCONF_OK then Some (err, Some ctx, s)
          else
     do { (err, s) \<leftarrow> mconf_io_write_exact io s (target_offset + MCONF_STORAGE_STATE_OFFSET)
            [MCONF_STORAGE_STATE_COMMITTED];
          Some (err, Some ctx, s) } } } }"

text \<open>The writes of a save into its target slot, from the erase to the commit.\<close>

definition save_record ::
  "mconf_config \<Rightarrow> mconf_ctx \<Rightarrow> 's mconf_io \<Rightarrow> size_t \<Rightarrow> byte list \<Rightarrow> 's \<Rightarrow>
    (mconf_err \<times> mconf_ctx option \<times> 's) option" where
  "save_record cfg ctx io target_slot header s =
     do { let target_offset = target_slot * slot_size io;
          erase \<leftarrow> io_erase io;
          (rc, s) \<leftarrow> erase s target_offset (slot_size io);
          if rc \<noteq> 0 then Some (MCONF_ERR_IO, Some ctx, s)
          else
     do { (err, s) \<leftarrow> mconf_io_write_exact io s target_offset header;
          if err \<noteq> MCONF_OK then Some (err, Some ctx, s)
          else save_payload_and_commit cfg ctx io target_slot header s } }"

definition mconf_save ::
  "mconf_config \<Rightarrow> mconf_ctx option \<Rightarrow> 's mconf_io option \<Rightarrow> 's \<Rightarrow>
    (mconf_err \<times> mconf_ctx option \<times> 's) option" where
  "mconf_save cfg p pio s =
     (let err = mconf_require_context p in
      if err \<noteq> MCONF_OK then Some (err, p, s)
      else case pio of
        None \<Rightarrow> Some (MCONF_ERR_NULL, p, s)
      | Some io \<Rightarrow>
          if io_read io = None \<or> io_write io = None \<or> io_erase io = None
          then Some (MCONF_ERR_NULL, p, s)
          else if slot_size io < MCONF_STORAGE_HEADER_SIZE \<or> storage_size io < slot_size io * 2
          then Some (MCONF_ERR_SIZE, p, s)
          else
            do { ctx \<leftarrow> p;
                 (err, payload_length, payload_crc) \<leftarrow> mconf_compute_payload_layout cfg ctx 0 0;
                 if err \<noteq> MCONF_OK then Some (err, p, s)
                 else if MCONF_STORAGE_HEADER_SIZE + payload_length > slot_size io
                 then Some (MCONF_ERR_SIZE, p, s)
                 else
                   do { (slot0_err, slot0_info, s) \<leftarrow> mconf_probe_slot_header ctx io s 0 True;
                        (slot1_err, slot1_info, s) \<leftarrow> mconf_probe_slot_header ctx io s 1 True;
                        (target_slot, next_generation) \<leftarrow>
                          save_target slot0_err slot0_info slot1_err slot1_info;
                        (err, header) \<leftarrow> mconf_encode_header (replicate 32 0) ctx next_generation
                          (ucast payload_length) payload_crc MCONF_STORAGE_STATE_UNCOMMITTED;
                        if err \<noteq> MCONF_OK then Some (err, p, s)
                        else save_record cfg ctx io target_slot header s } })"

end
