(* ===== verification/Mconf_Payload.thy ===== *)
theory Mconf_Payload
  imports Mconf_Storage
begin

text \<open>
  The format of a slot as pure functions: the 32 bytes of the header, the payload of a table of
  entries, and a parser of payloads. The code that measures a payload is shown to compute the length
  and the CRC of exactly this byte string, and the parser to undo it.
\<close>

section \<open>The payload\<close>

definition entry_payload :: "mconf_config \<Rightarrow> mconf_entry \<Rightarrow> byte list \<Rightarrow> byte list" where
  "entry_payload cfg e bs =
     (if entry_type e = MCONF_TYPE_STRING
      then mconf_write_u16_le (of_nat (c_strlen bs)) @ take (c_strlen bs) bs
      else if entry_type e = MCONF_TYPE_BLOB then bs
      else scalar_encoding cfg (entry_type e) bs)"

definition payload_from :: "mconf_config \<Rightarrow> mconf_entry list \<Rightarrow> byte list \<Rightarrow> nat \<Rightarrow> byte list" where
  "payload_from cfg es d i =
     concat (map (\<lambda>k. entry_payload cfg (es ! k) (field_get es d k)) [i..<length es])"

definition payload :: "mconf_config \<Rightarrow> mconf_entry list \<Rightarrow> byte list \<Rightarrow> byte list" where
  "payload cfg es d = payload_from cfg es d 0"

lemma payload_from_Cons:
  "i < length es \<Longrightarrow>
     payload_from cfg es d i = entry_payload cfg (es ! i) (field_get es d i) @ payload_from cfg es d (Suc i)"
  by (simp add: payload_from_def upt_conv_Cons)

lemma payload_from_Nil [simp]: "payload_from cfg es d (length es) = []"
  by (simp add: payload_from_def)

text \<open>A field that has a payload: a string, a blob or a scalar that the build supports.\<close>

definition storable :: "mconf_config \<Rightarrow> mconf_entry \<Rightarrow> bool" where
  "storable cfg e \<longleftrightarrow> entry_type e = MCONF_TYPE_STRING \<or> entry_type e = MCONF_TYPE_BLOB \<or>
     scalar_ok cfg (entry_type e)"

text \<open>The two length bytes of a string can hold its length.\<close>

definition string_fits :: "mconf_entry \<Rightarrow> byte list \<Rightarrow> bool" where
  "string_fits e bs \<longleftrightarrow> entry_type e = MCONF_TYPE_STRING \<longrightarrow> c_strlen bs < 65536"

lemma length_entry_payload:
  assumes "entry_ok cfg dsz e" and "storable cfg e" and "length bs = unat (entry_size e)"
    and "value_ok e bs"
  shows "length (entry_payload cfg e bs) =
    (if entry_type e = MCONF_TYPE_STRING then 2 + c_strlen bs else unat (entry_size e))"
  using assms c_strlen_le [of bs]
  by (auto simp: entry_payload_def storable_def scalar_ok_def entry_ok_def)

text \<open>A payload never takes more than one byte more than its field.\<close>

lemma length_entry_payload_le:
  assumes "entry_ok cfg dsz e" and "storable cfg e" and "length bs = unat (entry_size e)"
    and "value_ok e bs"
  shows "length (entry_payload cfg e bs) \<le> Suc (unat (entry_size e))"
  using length_entry_payload [OF assms] assms c_strlen_less_iff [of bs]
  by (auto simp: value_ok_def split: if_splits)

section \<open>Measuring a payload\<close>

lemma serialized_entry_size_eq:
  assumes e: "entry_ok cfg dsz e" and s: "storable cfg e" and v: "value_ok e (chunk m off (unat (entry_size e)))"
    and range: "off + unat (entry_size e) \<le> length m"
  shows "mconf_serialized_entry_size m off e =
    Some (of_nat (length (entry_payload cfg e (chunk m off (unat (entry_size e))))), MCONF_OK)"
proof -
  have "length (chunk m off (unat (entry_size e))) = unat (entry_size e)" using range by simp
  from length_entry_payload [OF e s this v] e v range show ?thesis
    by (auto simp: mconf_serialized_entry_size_def mem_simps entry_ok_def value_ok_def)
qed

lemma take_chunk: "k \<le> n \<Longrightarrow> take k (chunk m off n) = chunk m off k"
  by (simp add: chunk_def min_def)

text \<open>The low and the high byte of a \<open>size_t\<close>, as the loop feeds them to the CRC.\<close>

lemma length_bytes:
  "[ucast ((n :: size_t) AND 0xFF), ucast (drop_bit 8 n AND 0xFF)] = mconf_write_u16_le (ucast n)"
  unfolding mconf_write_u16_le_def
  by (simp add: list_eq_iff_nth_eq)
     (auto intro!: bit_word_eqI simp: byte_bits bit_simps less_Suc_eq)

lemma unat_of_nat_byte_count: "n < 2 ^ 64 \<Longrightarrow> unat (of_nat n :: size_t) = n"
  by (rule unat_of_nat_size) simp

lemma length_bytes_of_nat:
  "mconf_write_u16_le (ucast (of_nat n :: size_t)) = mconf_write_u16_le (of_nat n)"
  by (rule arg_cong [where f = mconf_write_u16_le], rule bit_word_eqI) (simp add: bit_simps)

lemma crc_length_bytes:
  "mconf_crc32_update_byte (mconf_crc32_update_byte crc (ucast ((of_nat n :: size_t) AND 0xFF)))
     (ucast (drop_bit 8 (of_nat n :: size_t) AND 0xFF)) =
   crc_bytes crc (mconf_write_u16_le (of_nat n))"
  unfolding length_bytes_of_nat [symmetric] length_bytes [symmetric] by simp

text \<open>The facts about one field of a context whose data is valid.\<close>

lemma ctx_field_facts:
  assumes "ctx_ok cfg ctx" and "data_valid cfg (ctx_entries ctx) (ctx_bytes ctx)"
    and "i < length (ctx_entries ctx)"
  shows "entry_ok cfg (ctx_data_size ctx) (ctx_entries ctx ! i)"
    and "value_ok (ctx_entries ctx ! i) (field_get (ctx_entries ctx) (ctx_bytes ctx) i)"
    and "length (field_get (ctx_entries ctx) (ctx_bytes ctx) i) = unat (entry_size (ctx_entries ctx ! i))"
    and "unat (offset (ctx_entries ctx ! i)) + unat (entry_size (ctx_entries ctx ! i)) \<le> length (ctx_bytes ctx)"
  using assms ctx_field_length [OF assms(1,3)] ctx_entry_ok [OF assms(1,3)] ctx_entry_range [OF assms(1,3)]
  by (auto simp: data_valid_def field_error_OK_iff ctx_field_def)

lemma payload_layout_step:
  assumes ok: "ctx_ok cfg ctx" and valid: "data_valid cfg (ctx_entries ctx) (ctx_bytes ctx)"
    and i: "i < length (ctx_entries ctx)" and s: "storable cfg (ctx_entries ctx ! i)"
    and p: "p = entry_payload cfg (ctx_entries ctx ! i) (field_get (ctx_entries ctx) (ctx_bytes ctx) i)"
    and room: "unat tot + length p < 2 ^ 64" and enc: "length encoded = 4"
  shows "\<exists>encoded'. length encoded' = 4 \<and>
    payload_layout_loop cfg ctx (ctx_bytes ctx) i (Suc n) tot crc encoded =
    payload_layout_loop cfg ctx (ctx_bytes ctx) (Suc i) n (tot + of_nat (length p)) (crc_bytes crc p) encoded'"
proof -
  let ?e = "ctx_entries ctx ! i" and ?d = "ctx_bytes ctx"
  let ?bs = "chunk ?d (unat (offset ?e)) (unat (entry_size ?e))"
  note f = ctx_field_facts [OF ok valid i, unfolded field_get_def]
  have p': "p = entry_payload cfg ?e ?bs" using p by (simp add: field_get_def)
  define l :: size_t where "l = of_nat (length p)"
  have size: "mconf_serialized_entry_size ?d (unat (offset ?e)) ?e = Some (l, MCONF_OK)"
    using serialized_entry_size_eq [OF f(1) s f(2,4)] by (simp add: l_def p')
  have len: "unat l = length p"
    using room by (simp add: l_def unat_of_nat_byte_count)
  have nowrap: "\<not> tot > - 1 - l"
  proof -
    have "unat (- 1 - l) = 2 ^ 64 - 1 - length p"
      using len by (simp add: unat_sub unsigned_minus_1_eq_mask mask_eq_exp_minus_1)
    then show ?thesis using room by (simp add: word_less_nat_alt)
  qed
  note step = entry_at_eq [OF ok i] mconf_field_ptr_def Let_def size nowrap
  consider (str) "entry_type ?e = MCONF_TYPE_STRING" | (blob) "entry_type ?e = MCONF_TYPE_BLOB"
    | (scal) "scalar_ok cfg (entry_type ?e)" using s by (auto simp: storable_def)
  then have "\<exists>encoded'. length encoded' = 4 \<and>
    payload_layout_loop cfg ctx ?d i (Suc n) tot crc encoded =
    payload_layout_loop cfg ctx ?d (Suc i) n (tot + l) (crc_bytes crc p) encoded'"
  proof cases
    case str
    then have "0 \<in> set ?bs" "2 \<le> entry_size ?e" using f(1,2) by (auto simp: value_ok_def entry_ok_def)
    moreover have "c_strlen ?bs \<le> unat (entry_size ?e)" using c_strlen_le [of ?bs] f(3) by simp
    moreover from this have "unat (of_nat (c_strlen ?bs) :: size_t) = c_strlen ?bs"
      using size_t_bound [of "entry_size ?e"] by (intro unat_of_nat_size) simp
    ultimately show ?thesis
      using str f(4) enc p'
      by (intro exI [of _ encoded])
         (simp add: step mem_simps entry_payload_def crc_bytes_append crc_length_bytes take_chunk)
  next
    case blob
    then show ?thesis using f(4) enc p'
      by (intro exI [of _ encoded]) (simp add: step mem_simps entry_payload_def)
  next
    case scal
    then have "entry_size ?e = mconf_expected_type_size (entry_type ?e)"
      using f(1) by (simp add: entry_ok_def scalar_ok_def)
    then show ?thesis
      using encode_scalar [OF scal _ f(4), of encoded 0] enc scal p' f(3)
      by (intro exI [of _ "patch encoded 0 p"])
         (auto simp: step mem_simps entry_payload_def scalar_ok_def scalar_type_cases chunk_patch_eq
           mconf_expected_type_size_def)
  qed
  then show ?thesis by (simp only: l_def)
qed

lemma payload_layout_loop_eq:
  assumes ok: "ctx_ok cfg ctx" and valid: "data_valid cfg (ctx_entries ctx) (ctx_bytes ctx)"
    and "i + n = length (ctx_entries ctx)"
    and "\<forall>k \<in> {i..<length (ctx_entries ctx)}. storable cfg (ctx_entries ctx ! k)"
    and "unat tot + length (payload_from cfg (ctx_entries ctx) (ctx_bytes ctx) i) < 2 ^ 64"
    and "length encoded = 4"
  shows "payload_layout_loop cfg ctx (ctx_bytes ctx) i n tot crc encoded =
    Some (MCONF_OK, tot + of_nat (length (payload_from cfg (ctx_entries ctx) (ctx_bytes ctx) i)),
      crc_bytes crc (payload_from cfg (ctx_entries ctx) (ctx_bytes ctx) i))"
  using assms(3-6)
proof (induction n arbitrary: i tot crc encoded)
  case 0
  then show ?case by simp
next
  case (Suc n)
  let ?es = "ctx_entries ctx" and ?d = "ctx_bytes ctx"
  let ?p = "entry_payload cfg (?es ! i) (field_get ?es ?d i)"
  have i: "i < length ?es" using Suc.prems(1) by simp
  have room: "unat tot + length ?p + length (payload_from cfg ?es ?d (Suc i)) < 2 ^ 64"
    using Suc.prems(3) by (simp add: payload_from_Cons [OF i])
  obtain encoded' where "length encoded' = 4" and
    step: "payload_layout_loop cfg ctx ?d i (Suc n) tot crc encoded =
      payload_layout_loop cfg ctx ?d (Suc i) n (tot + of_nat (length ?p)) (crc_bytes crc ?p) encoded'"
    using payload_layout_step [OF ok valid i _ refl] Suc.prems room by force
  moreover have "unat (tot + of_nat (length ?p)) = unat tot + length ?p"
    using room by (simp add: unat_add_no_wrap unat_of_nat_size)
  ultimately show ?case
    using Suc.IH [of "Suc i" "tot + of_nat (length ?p)" encoded' "crc_bytes crc ?p"] Suc.prems room
    by (simp add: step payload_from_Cons [OF i] crc_bytes_append)
qed

text \<open>Fields that do not overlap take together no more than the object that holds them.\<close>

definition sizes_from :: "mconf_entry list \<Rightarrow> nat \<Rightarrow> nat" where
  "sizes_from es i = (\<Sum>k \<leftarrow> [i..<length es]. unat (entry_size (es ! k)))"

lemma sizes_from_Cons:
  "i < length es \<Longrightarrow> sizes_from es i = unat (entry_size (es ! i)) + sizes_from es (Suc i)"
  by (simp add: sizes_from_def upt_conv_Cons)

lemma layout_ok_sizes:
  assumes "layout_ok es n"
  shows "sizes_from es 0 \<le> n"
proof -
  let ?I = "\<lambda>k. {unat (offset (es ! k))..<entry_end (es ! k)}"
  have disj: "?I i \<inter> ?I j = {}" if "i < length es" "j < length es" "i \<noteq> j" for i j
    using layout_disjoint [OF assms that] by auto
  have "sizes_from es 0 = (\<Sum>k = 0..<length es. card (?I k))"
    by (simp add: sizes_from_def entry_end_def interv_sum_list_conv_sum_set_nat)
  also have "\<dots> = card (\<Union>k \<in> {0..<length es}. ?I k)"
    using disj by (subst card_UN_disjoint) auto
  also have "\<dots> \<le> card {0..<n}"
    using assms by (intro card_mono) (auto simp: layout_ok_def dest!: bspec [OF _ nth_mem])
  finally show ?thesis by simp
qed

lemma length_payload_le:
  assumes ok: "ctx_ok cfg ctx" and valid: "data_valid cfg (ctx_entries ctx) (ctx_bytes ctx)"
    and "\<forall>k < length (ctx_entries ctx). storable cfg (ctx_entries ctx ! k)"
    and "i \<le> length (ctx_entries ctx)"
  shows "length (payload_from cfg (ctx_entries ctx) (ctx_bytes ctx) i) \<le> 2 * sizes_from (ctx_entries ctx) i"
  using assms(4)
proof (induction i rule: inc_induct)
  case base
  then show ?case by simp
next
  case (step i)
  note f = ctx_field_facts [OF ok valid step.hyps(2)]
  have "length (entry_payload cfg (ctx_entries ctx ! i) (field_get (ctx_entries ctx) (ctx_bytes ctx) i))
      \<le> Suc (unat (entry_size (ctx_entries ctx ! i)))"
    using length_entry_payload_le [OF f(1) _ f(3,2)] assms(3) step.hyps(2) by blast
  moreover have "unat (entry_size (ctx_entries ctx ! i)) \<noteq> 0"
    using f(1) by (simp add: entry_ok_def unat_eq_0)
  ultimately show ?case
    using step by (simp add: payload_from_Cons sizes_from_Cons)
qed

text \<open>A field of a type that the library does not know stops the measurement.\<close>

lemma payload_layout_loop_unstorable:
  assumes ok: "ctx_ok cfg ctx" and valid: "data_valid cfg (ctx_entries ctx) (ctx_bytes ctx)"
    and "i + n = length (ctx_entries ctx)"
    and "k \<in> {i..<length (ctx_entries ctx)}" and "\<not> storable cfg (ctx_entries ctx ! k)"
    and "unat tot + 2 * sizes_from (ctx_entries ctx) i < 2 ^ 64"
    and "length encoded = 4"
  shows "\<exists>err tot' crc'. payload_layout_loop cfg ctx (ctx_bytes ctx) i n tot crc encoded =
    Some (err, tot', crc') \<and> err \<noteq> MCONF_OK"
  using assms(3-7)
proof (induction n arbitrary: i tot crc encoded)
  case 0
  then show ?case by simp
next
  case (Suc n)
  let ?es = "ctx_entries ctx" and ?d = "ctx_bytes ctx"
  let ?e = "?es ! i" and ?bs = "field_get ?es ?d i"
  let ?p = "entry_payload cfg ?e ?bs"
  have i: "i < length ?es" using Suc.prems(1) by simp
  note f = ctx_field_facts [OF ok valid i]
  show ?case
  proof (cases "storable cfg ?e")
    case False
    moreover from False valid i have "\<not> mconf_is_scalar_type (entry_type ?e)"
      by (auto simp: storable_def scalar_ok_def data_valid_def field_error_OK_iff)
    ultimately show ?thesis
      by (auto simp: entry_at_eq [OF ok i] Let_def mconf_serialized_entry_size_def storable_def
          encode_other)
  next
    case True
    with Suc.prems(3) have "k \<noteq> i" by auto
    have room: "unat tot + length ?p + 2 * sizes_from ?es (Suc i) < 2 ^ 64"
    proof -
      have "length ?p \<le> Suc (unat (entry_size ?e))" by (rule length_entry_payload_le [OF f(1) True f(3,2)])
      moreover have "unat (entry_size ?e) \<noteq> 0" using f(1) by (simp add: entry_ok_def unat_eq_0)
      ultimately show ?thesis using Suc.prems(4) by (simp add: sizes_from_Cons [OF i])
    qed
    then have tot: "unat (tot + of_nat (length ?p)) = unat tot + length ?p"
      by (simp add: unat_add_no_wrap unat_of_nat_size)
    obtain encoded' where e: "length encoded' = 4" and
      step: "payload_layout_loop cfg ctx ?d i (Suc n) tot crc encoded =
        payload_layout_loop cfg ctx ?d (Suc i) n (tot + of_nat (length ?p)) (crc_bytes crc ?p) encoded'"
      using payload_layout_step [OF ok valid i True refl _ Suc.prems(5)] room by force
    show ?thesis
      unfolding step using Suc.prems \<open>k \<noteq> i\<close> room tot e by (intro Suc.IH) auto
  qed
qed

section \<open>The measurement is the payload\<close>

text \<open>
  What can be saved: the data is valid, and every field is of a type that the build can write.
\<close>

definition saveable :: "mconf_config \<Rightarrow> mconf_ctx \<Rightarrow> bool" where
  "saveable cfg ctx \<longleftrightarrow>
     data_valid cfg (ctx_entries ctx) (ctx_bytes ctx) \<and>
     (\<forall>e \<in> set (ctx_entries ctx). storable cfg e)"

abbreviation ctx_payload :: "mconf_config \<Rightarrow> mconf_ctx \<Rightarrow> byte list" where
  "ctx_payload cfg ctx \<equiv> payload cfg (ctx_entries ctx) (ctx_bytes ctx)"

lemma ctx_sizes: "ctx_ok cfg ctx \<Longrightarrow> sizes_from (ctx_entries ctx) 0 \<le> length (ctx_bytes ctx)"
  by (rule layout_ok_sizes [OF ctx_layout])

lemma length_ctx_payload_le:
  "ctx_ok cfg ctx \<Longrightarrow> saveable cfg ctx \<Longrightarrow> length (ctx_payload cfg ctx) \<le> 2 * length (ctx_bytes ctx)"
  using length_payload_le [of cfg ctx 0] ctx_sizes [of cfg ctx]
  by (auto simp: saveable_def payload_def)

lemma compute_payload_layout_eq:
  assumes ok: "ctx_ok cfg ctx" and s: "saveable cfg ctx"
    and small: "2 * length (ctx_bytes ctx) < 2 ^ 64"
  shows "mconf_compute_payload_layout cfg ctx l0 c0 =
    Some (MCONF_OK, of_nat (length (ctx_payload cfg ctx)), crc32_of (ctx_payload cfg ctx))"
proof -
  obtain sch where sch: "ctx_schema ctx = Some sch" using ok by (elim ctx_okE) auto
  have "length (payload_from cfg (ctx_entries ctx) (ctx_bytes ctx) 0) < 2 ^ 64"
    using length_ctx_payload_le [OF ok s] small by (simp add: payload_def)
  then have "payload_layout_loop cfg ctx (ctx_bytes ctx) 0 (unat (entry_count sch)) 0 0xFFFFFFFF
      (replicate 4 0) = Some (MCONF_OK, of_nat (length (ctx_payload cfg ctx)),
        crc_bytes 0xFFFFFFFF (ctx_payload cfg ctx))"
    using payload_layout_loop_eq [OF ok, where i = 0 and tot = 0 and n = "unat (entry_count sch)"
        and encoded = "replicate 4 0" and crc = "0xFFFFFFFF"]
      ctx_length_entries [OF ok sch] s by (simp add: saveable_def payload_def)
  moreover have "mconf_validate_data cfg (Some ctx) (Some (ctx_bytes ctx)) = Some MCONF_OK"
    using s by (simp add: validate_data_OK_iff [OF ok] saveable_def)
  ultimately show ?thesis
    by (simp add: mconf_compute_payload_layout_def ctx_data_bytes [OF ok] sch crc32_of_def)
qed

lemma compute_payload_layout_error:
  assumes ok: "ctx_ok cfg ctx" and s: "\<not> saveable cfg ctx"
    and small: "2 * length (ctx_bytes ctx) < 2 ^ 64"
  shows "\<exists>err. mconf_compute_payload_layout cfg ctx l0 c0 = Some (err, l0, c0) \<and> err \<noteq> MCONF_OK"
proof -
  obtain sch where sch: "ctx_schema ctx = Some sch" using ok by (elim ctx_okE) auto
  note val = validate_data_eq [OF ok, of "ctx_bytes ctx"] validate_data_OK_iff [OF ok, of "ctx_bytes ctx"]
  show ?thesis
  proof (cases "data_valid cfg (ctx_entries ctx) (ctx_bytes ctx)")
    case False
    with val show ?thesis
      by (auto simp: mconf_compute_payload_layout_def ctx_data_bytes [OF ok])
  next
    case True
    with s obtain k where k: "k < length (ctx_entries ctx)" "\<not> storable cfg (ctx_entries ctx ! k)"
      by (auto simp: saveable_def in_set_conv_nth)
    have "\<exists>err tot' crc'. payload_layout_loop cfg ctx (ctx_bytes ctx) 0 (unat (entry_count sch)) 0
        0xFFFFFFFF (replicate 4 0) = Some (err, tot', crc') \<and> err \<noteq> MCONF_OK"
      using k ctx_length_entries [OF ok sch] ctx_sizes [OF ok] small
      by (intro payload_layout_loop_unstorable [OF ok True, where k = k]) auto
    then show ?thesis using True val
      by (auto simp: mconf_compute_payload_layout_def ctx_data_bytes [OF ok] sch)
  qed
qed

section \<open>Properties\<close>

lemma demo_saveable: "saveable default_config demo_ctx"
proof -
  have "mconf_validate_data default_config (Some demo_ctx) (Some (ctx_bytes demo_ctx)) = Some MCONF_OK"
    by code_simp
  moreover have "\<forall>e \<in> set demo_entries. storable default_config e"
    by (simp add: demo_entries_def storable_def scalar_ok_def mconf_is_scalar_type_def)
  ultimately show ?thesis by (simp only: validate_data_OK_iff [OF demo_ctx_ok refl] saveable_def demo_ctx_entries)
qed

lemma demo_payload: "payload default_config demo_entries (replicate 20 0) = replicate 9 0"
  by code_simp

text \<open>
  C20. \<open>mconf_compute_payload_layout\<close> measures exactly the bytes that a save writes: for data that can be
  saved it reports the length and the CRC-32 of the payload, and otherwise an error and no length or CRC.
\<close>

theorem layout_measures_payload:
  assumes "ctx_ok cfg ctx" and "2 * length (ctx_bytes ctx) < 2 ^ 64"
  shows "\<exists>err n c. mconf_compute_payload_layout cfg ctx n0 c0 = Some (err, n, c) \<and>
    (if saveable cfg ctx
     then err = MCONF_OK \<and> unat n = length (ctx_payload cfg ctx) \<and>
       mconf_crc32 (ctx_payload cfg ctx) n = Some c
     else err \<noteq> MCONF_OK \<and> n = n0 \<and> c = c0)"
proof (cases "saveable cfg ctx")
  case True
  have "unat (of_nat (length (ctx_payload cfg ctx)) :: size_t) = length (ctx_payload cfg ctx)"
    using length_ctx_payload_le [OF assms(1) True] assms(2) by (simp add: unat_of_nat_size)
  with True show ?thesis
    by (simp add: compute_payload_layout_eq [OF assms(1) True assms(2)] mconf_crc32_eq)
next
  case False
  from compute_payload_layout_error [OF assms(1) this assms(2), of n0 c0] False show ?thesis by auto
qed

theorem layout_measures_payload_witness:
  "\<exists>c. mconf_compute_payload_layout default_config demo_ctx 0 0 = Some (MCONF_OK, 9, c) \<and>
    mconf_crc32 (replicate 9 0) 9 = Some c"
proof -
  from layout_measures_payload [OF demo_ctx_ok, of 0 0] obtain n c where
    *: "mconf_compute_payload_layout default_config demo_ctx 0 0 = Some (MCONF_OK, n, c)" "unat n = 9"
      "mconf_crc32 (replicate 9 0) n = Some c"
    by (auto simp: demo_saveable demo_payload)
  then have "n = 9" by (simp add: word_unat_eq_iff)
  with * show ?thesis by auto
qed

end
