(* ===== verification/Mconf_Backend.thy ===== *)
theory Mconf_Backend
  imports Mconf_Storage
begin

text \<open>
  The contract of a storage backend, as locales: what the library may rely on when it calls the three
  callbacks of an \<open>mconf_io_t\<close>. \<open>contents\<close> is what the medium holds and \<open>inv\<close> what is true of the
  backend's state between calls. The contract is interpreted on the in-memory store of the project's
  test program (tests/test_all.c, lines 37 to 75), with its injected write faults.
\<close>

section \<open>The contract\<close>

text \<open>The bytes of two media agree outside the range of \<open>n\<close> bytes at \<open>off\<close>.\<close>

definition same_outside :: "byte list \<Rightarrow> byte list \<Rightarrow> nat \<Rightarrow> nat \<Rightarrow> bool" where
  "same_outside c c' off n \<longleftrightarrow>
     length c' = length c \<and> (\<forall>i < length c. i < off \<or> off + n \<le> i \<longrightarrow> c' ! i = c ! i)"

lemma same_outside_refl [simp]: "same_outside c c off n"
  by (simp add: same_outside_def)

lemma same_outside_trans:
  "same_outside c c' off n \<Longrightarrow> same_outside c' c'' off n \<Longrightarrow> same_outside c c'' off n"
  by (auto simp: same_outside_def)

lemma same_outside_mono:
  "same_outside c c' off n \<Longrightarrow> off' \<le> off \<Longrightarrow> off + n \<le> off' + n' \<Longrightarrow> same_outside c c' off' n'"
  by (auto simp: same_outside_def)

lemma same_outside_patch:
  "off + length bs \<le> length c \<Longrightarrow> same_outside c (patch c off bs) off (length bs)"
  by (auto simp: same_outside_def nth_patch)

lemma same_outside_chunk:
  assumes "same_outside c c' off n" and "o2 + k \<le> off \<or> off + n \<le> o2"
  shows "chunk c' o2 k = chunk c o2 k"
  using assms by (intro nth_equalityI) (auto simp: same_outside_def chunk_def)

text \<open>The backend can fail a read, a write, or an erase inside the storage.\<close>

definition read_fault :: "'s mconf_io \<Rightarrow> ('s \<Rightarrow> byte list) \<Rightarrow> ('s \<Rightarrow> bool) \<Rightarrow> bool" where
  "read_fault io contents ok \<longleftrightarrow>
     (\<exists>s off buf rc buf' s'. ok s \<and> unat off + length buf \<le> length (contents s) \<and>
        the (io_read io) s off buf = Some (rc, buf', s') \<and> rc \<noteq> 0)"

definition write_fault :: "'s mconf_io \<Rightarrow> ('s \<Rightarrow> byte list) \<Rightarrow> ('s \<Rightarrow> bool) \<Rightarrow> bool" where
  "write_fault io contents ok \<longleftrightarrow>
     (\<exists>s off bs rc s'. ok s \<and> unat off + length bs \<le> length (contents s) \<and>
        the (io_write io) s off bs = Some (rc, s') \<and> rc \<noteq> 0)"

definition erase_fault :: "'s mconf_io \<Rightarrow> ('s \<Rightarrow> byte list) \<Rightarrow> ('s \<Rightarrow> bool) \<Rightarrow> bool" where
  "erase_fault io contents ok \<longleftrightarrow>
     (\<exists>s off n rc s'. ok s \<and> unat off + unat n \<le> length (contents s) \<and>
        the (io_erase io) s off n = Some (rc, s') \<and> rc \<noteq> 0)"

text \<open>
  A callback is called on a range that does not wrap around. A read that reports success has
  delivered the bytes of the medium; one that fails may have left anything in the buffer, but neither
  changes the medium. A write or an erase that reports success has taken effect; one that fails may
  have changed bytes of its range and no others. Success means that the range lies in the storage.
\<close>

locale storage_backend =
  fixes io :: "'s mconf_io"
    and contents :: "'s \<Rightarrow> byte list"
    and inv :: "'s \<Rightarrow> bool"
  assumes callbacks: "io_read io \<noteq> None" "io_write io \<noteq> None" "io_erase io \<noteq> None"
    and contents_size: "inv s \<Longrightarrow> length (contents s) = unat (storage_size io)"
    and read_spec: "inv s \<Longrightarrow> unat off + length buf < 2 ^ 64 \<Longrightarrow>
      \<exists>rc buf' s'. the (io_read io) s off buf = Some (rc, buf', s') \<and> length buf' = length buf \<and>
        inv s' \<and> contents s' = contents s \<and>
        (rc = 0 \<longrightarrow> unat off + length buf \<le> length (contents s) \<and>
          buf' = chunk (contents s) (unat off) (length buf))"
    and write_spec: "inv s \<Longrightarrow> unat off + length bs < 2 ^ 64 \<Longrightarrow>
      \<exists>rc s'. the (io_write io) s off bs = Some (rc, s') \<and> inv s' \<and>
        same_outside (contents s) (contents s') (unat off) (length bs) \<and>
        (rc = 0 \<longrightarrow> unat off + length bs \<le> length (contents s) \<and>
          contents s' = patch (contents s) (unat off) bs)"
    and erase_spec: "inv s \<Longrightarrow> unat off + unat n < 2 ^ 64 \<Longrightarrow>
      \<exists>rc s'. the (io_erase io) s off n = Some (rc, s') \<and> inv s' \<and>
        same_outside (contents s) (contents s') (unat off) (unat n) \<and>
        (rc = 0 \<longrightarrow> unat off + unat n \<le> length (contents s) \<and>
          contents s' = patch (contents s) (unat off) (replicate (unat n) 0xFF))"
begin

text \<open>The two wrappers of the library over the callbacks.\<close>

lemma read_exact:
  assumes "inv s" and "unat off + n < 2 ^ 64" and "length buf = n"
  obtains err buf' s' where "mconf_io_read_exact io s off buf = Some (err, buf', s')"
    "length buf' = n" "inv s'" "contents s' = contents s"
    "(err = MCONF_OK \<and> unat off + n \<le> length (contents s) \<and>
        buf' = chunk (contents s) (unat off) n) \<or>
     (err = MCONF_ERR_IO \<and> (read_fault io contents inv \<or> length (contents s) < unat off + n))"
proof -
  obtain rd where rd: "io_read io = Some rd" using callbacks(1) by blast
  from read_spec [of s off buf] assms obtain rc buf' s' where r: "rd s off buf = Some (rc, buf', s')"
    "length buf' = length buf" "inv s'" "contents s' = contents s"
    "rc = 0 \<longrightarrow> unat off + length buf \<le> length (contents s) \<and> buf' = chunk (contents s) (unat off) (length buf)"
    by (auto simp: rd)
  note r = r [unfolded assms(3)]
  have "read_fault io contents inv" if "rc \<noteq> 0" "unat off + n \<le> length (contents s)"
    unfolding read_fault_def using that assms(1,3) r(1) rd by (metis option.sel)
  then show thesis
    by (intro that [of "if rc \<noteq> 0 then MCONF_ERR_IO else MCONF_OK" buf' s'])
       (use r assms(3) in \<open>auto simp: mconf_io_read_exact_def rd not_less [symmetric] split: if_splits\<close>)
qed

lemma write_exact:
  assumes "inv s" and "unat off + length bs \<le> length (contents s)"
  obtains (ok) s' where "mconf_io_write_exact io s off bs = Some (MCONF_OK, s')" "inv s'"
    "contents s' = patch (contents s) (unat off) bs"
  | (fault) s' where "mconf_io_write_exact io s off bs = Some (MCONF_ERR_IO, s')" "inv s'"
    "same_outside (contents s) (contents s') (unat off) (length bs)" "write_fault io contents inv"
proof -
  obtain wr where wr: "io_write io = Some wr" using callbacks(2) by blast
  have "unat off + length bs < 2 ^ 64"
    using assms contents_size size_t_bound [of "storage_size io"] by simp
  from write_spec [OF assms(1) this] obtain rc s' where r: "wr s off bs = Some (rc, s')" "inv s'"
    "same_outside (contents s) (contents s') (unat off) (length bs)"
    "rc = 0 \<longrightarrow> contents s' = patch (contents s) (unat off) bs"
    by (auto simp: wr)
  show thesis
  proof (cases "rc = 0")
    case True
    with r show thesis by (intro ok [of s']) (auto simp: mconf_io_write_exact_def wr)
  next
    case False
    then have "write_fault io contents inv"
      unfolding write_fault_def using assms r(1) wr by (metis option.sel)
    with False r show thesis by (intro fault [of s']) (auto simp: mconf_io_write_exact_def wr)
  qed
qed

end

text \<open>Reads inside the storage succeed.\<close>

locale readable_backend = storage_backend +
  assumes read_ok: "inv s \<Longrightarrow> unat off + length buf \<le> length (contents s) \<Longrightarrow>
    the (io_read io) s off buf = Some (rc, buf', s') \<Longrightarrow> rc = 0"
begin

lemma no_read_fault: "\<not> read_fault io contents inv"
  by (auto simp: read_fault_def dest: read_ok)

lemma read_exact_ok:
  assumes "inv s" and "unat off + length buf \<le> length (contents s)"
  obtains s' where "mconf_io_read_exact io s off buf =
      Some (MCONF_OK, chunk (contents s) (unat off) (length buf), s')"
    "inv s'" "contents s' = contents s"
proof -
  obtain rd where rd: "io_read io = Some rd" using callbacks(1) by blast
  have "unat off + length buf < 2 ^ 64"
    using assms contents_size size_t_bound [of "storage_size io"] by simp
  from read_spec [OF assms(1) this] obtain rc buf' s' where r: "rd s off buf = Some (rc, buf', s')"
    "length buf' = length buf" "inv s'" "contents s' = contents s"
    "rc = 0 \<longrightarrow> buf' = chunk (contents s) (unat off) (length buf)"
    by (auto simp: rd)
  moreover from read_ok [OF assms, of rc buf' s'] r(1) have "rc = 0" by (simp add: rd)
  ultimately show thesis
    by (intro that [of s']) (auto simp: mconf_io_read_exact_def rd)
qed

end

text \<open>
  Writes proceed from the low to the high addresses: one that fails, or that a power cut interrupts,
  has written some first bytes of its range.
\<close>

locale torn_backend = readable_backend +
  assumes write_torn: "inv s \<Longrightarrow> unat off + length bs < 2 ^ 64 \<Longrightarrow>
      the (io_write io) s off bs = Some (rc, s') \<Longrightarrow>
      \<exists>k \<le> length bs. contents s' = patch (contents s) (unat off) (take k bs)"
    and erase_torn: "inv s \<Longrightarrow> unat off + unat n < 2 ^ 64 \<Longrightarrow>
      the (io_erase io) s off n = Some (rc, s') \<Longrightarrow>
      \<exists>k \<le> unat n. contents s' = patch (contents s) (unat off) (replicate k 0xFF)"

begin

lemma write_exact_torn:
  assumes "inv s" and "unat off + length bs \<le> length (contents s)"
  obtains (ok) s' where "mconf_io_write_exact io s off bs = Some (MCONF_OK, s')" "inv s'"
    "contents s' = patch (contents s) (unat off) bs"
  | (fault) s' k where "mconf_io_write_exact io s off bs = Some (MCONF_ERR_IO, s')" "inv s'"
    "k \<le> length bs" "contents s' = patch (contents s) (unat off) (take k bs)" "write_fault io contents inv"
proof (rule write_exact [OF assms])
  fix s'
  assume s': "mconf_io_write_exact io s off bs = Some (MCONF_ERR_IO, s')" "inv s'"
    "write_fault io contents inv"
  obtain wr where wr: "io_write io = Some wr" using callbacks(2) by blast
  have "unat off + length bs < 2 ^ 64"
    using assms contents_size size_t_bound [of "storage_size io"] by simp
  moreover from s'(1) obtain rc where "wr s off bs = Some (rc, s')"
    by (auto simp: mconf_io_write_exact_def wr bind_Some_iff)
  ultimately obtain k where "k \<le> length bs" "contents s' = patch (contents s) (unat off) (take k bs)"
    using write_torn [OF assms(1), of off bs rc s'] by (auto simp: wr)
  with s' show thesis by (intro fault)
qed (rule ok)

end

text \<open>Every operation inside the storage succeeds.\<close>

locale reliable_backend = readable_backend +
  assumes write_ok: "inv s \<Longrightarrow> unat off + length bs \<le> length (contents s) \<Longrightarrow>
      the (io_write io) s off bs = Some (rc, s') \<Longrightarrow> rc = 0"
    and erase_ok: "inv s \<Longrightarrow> unat off + unat n \<le> length (contents s) \<Longrightarrow>
      the (io_erase io) s off n = Some (rc, s') \<Longrightarrow> rc = 0"
begin

lemma no_write_fault: "\<not> write_fault io contents inv"
  by (auto simp: write_fault_def dest: write_ok)

lemma no_erase_fault: "\<not> erase_fault io contents inv"
  by (auto simp: erase_fault_def dest: erase_ok)

end

section \<open>The in-memory store of the tests\<close>

text \<open>The two counters are C ints; the tests stay far below their range.\<close>

record fake_store =
  fs_bytes :: "byte list"
  fail_after_write :: int
  writes :: int

definition fake_read :: "fake_store mconf_read_fn" where
  "fake_read store off buffer =
     (if off + of_nat (length buffer) > 256 then Some (-1, buffer, store)
      else do { bs \<leftarrow> mem_read (fs_bytes store) (unat off) (length buffer);
                Some (0, bs, store) })"

definition fake_write :: "fake_store mconf_write_fn" where
  "fake_write store off buffer =
     (if off + of_nat (length buffer) > 256 then Some (-1, store)
      else if fail_after_write store \<ge> 0 \<and> writes store \<ge> fail_after_write store then Some (-1, store)
      else do { bs \<leftarrow> mem_write (fs_bytes store) (unat off) buffer;
                Some (0, store\<lparr>fs_bytes := bs, writes := writes store + 1\<rparr>) })"

definition fake_erase :: "fake_store mconf_erase_fn" where
  "fake_erase store off n =
     (if off + n > 256 then Some (-1, store)
      else do { bs \<leftarrow> mem_write (fs_bytes store) (unat off) (replicate (unat n) 0xFF);
                Some (0, store\<lparr>fs_bytes := bs\<rparr>) })"

definition fake_io :: "fake_store mconf_io" where
  "fake_io = \<lparr>storage_size = 256, slot_size = 128, io_read = Some fake_read, io_write = Some fake_write,
     io_erase = Some fake_erase\<rparr>"

definition fake_inv :: "fake_store \<Rightarrow> bool" where
  "fake_inv store \<longleftrightarrow> length (fs_bytes store) = 256"

text \<open>The store as the test program sets it up, and the same store with write faults switched on.\<close>

definition fresh_store :: fake_store where
  "fresh_store = \<lparr>fs_bytes = replicate 256 0xFF, fail_after_write = -1, writes = 0\<rparr>"

lemma in_range_256:
  fixes off n :: size_t
  assumes "unat off + unat n < 2 ^ 64"
  shows "off + n > 256 \<longleftrightarrow> \<not> unat off + unat n \<le> 256"
  using assms by (simp add: word_less_nat_alt unat_add_no_wrap not_le)

lemma fake_range:
  "unat off + length buf < 2 ^ 64 \<Longrightarrow>
     off + of_nat (length buf) > (256 :: size_t) \<longleftrightarrow> \<not> unat off + length buf \<le> 256"
  using in_range_256 [of off "of_nat (length buf)"] by (simp add: unat_of_nat_size)

interpretation fake: torn_backend fake_io fs_bytes fake_inv
proof (unfold_locales, goal_cases)
  case (5 s off buf)
  then show ?case
    by (auto simp: fake_io_def fake_inv_def fake_read_def fake_range mem_simps)
next
  case (6 s off bs)
  then show ?case
    by (auto simp: fake_io_def fake_inv_def fake_write_def fake_range mem_simps same_outside_patch)
next
  case (7 s off n)
  then show ?case
    using same_outside_patch [of "unat off" "replicate (unat n) 0xFF" "fs_bytes s"]
    by (auto simp: fake_io_def fake_inv_def fake_erase_def in_range_256 mem_simps)
next
  case (8 s off buf rc buf' s')
  then have "unat off + length buf < 2 ^ 64" by (simp add: fake_inv_def)
  with 8 show ?case
    by (auto simp: fake_io_def fake_inv_def fake_read_def fake_range mem_simps)
next
  case (9 s off bs rc s')
  show ?case
  proof (cases "fs_bytes s' = fs_bytes s")
    case True
    then show ?thesis by (intro exI [of _ 0]) simp
  next
    case False
    with 9 show ?thesis
      by (intro exI [of _ "length bs"])
         (auto simp: fake_io_def fake_inv_def fake_write_def fake_range mem_simps split: if_splits)
  qed
next
  case (10 s off n rc s')
  show ?case
  proof (cases "fs_bytes s' = fs_bytes s")
    case True
    then show ?thesis by (intro exI [of _ 0]) simp
  next
    case False
    with 10 show ?thesis
      by (intro exI [of _ "unat n"])
         (auto simp: fake_io_def fake_inv_def fake_erase_def in_range_256 mem_simps split: if_splits)
  qed
qed (simp_all add: fake_io_def fake_inv_def)

definition fault_free :: "fake_store \<Rightarrow> bool" where
  "fault_free store \<longleftrightarrow> fake_inv store \<and> fail_after_write store < 0"

interpretation fault_free: reliable_backend fake_io fs_bytes fault_free
proof (unfold_locales, goal_cases)
  case (5 s off buf)
  with fake.read_spec [of s off buf] show ?case
    by (auto simp: fault_free_def fake_io_def fake_read_def bind_Some_iff split: if_splits)
next
  case (6 s off bs)
  with fake.write_spec [of s off bs] show ?case
    by (auto simp: fault_free_def fake_io_def fake_write_def bind_Some_iff split: if_splits)
next
  case (7 s off n)
  with fake.erase_spec [of s off n] show ?case
    by (auto simp: fault_free_def fake_io_def fake_erase_def bind_Some_iff split: if_splits)
next
  case (8 s off buf rc buf' s')
  with fake.read_ok [of s off buf rc buf' s'] show ?case by (simp add: fault_free_def)
next
  case (9 s off bs rc s')
  then have "unat off + length bs < 2 ^ 64" by (simp add: fault_free_def fake_inv_def)
  with 9 show ?case
    by (auto simp: fault_free_def fake_inv_def fake_io_def fake_write_def fake_range mem_simps)
next
  case (10 s off n rc s')
  then show ?case
    by (auto simp: fault_free_def fake_inv_def fake_io_def fake_erase_def in_range_256 mem_simps)
qed (simp_all add: fault_free_def fake_io_def fake_inv_def)

lemma fresh_store_fault_free: "fault_free fresh_store"
  by (simp add: fault_free_def fresh_store_def fake_inv_def)

end
