(* ===== verification/Mconf_Slot.thy ===== *)
theory Mconf_Slot
  imports Mconf_Payload Mconf_Backend
begin

text \<open>
  One slot of the storage: the header as 32 bytes and what a probe makes of it, the writer of a
  payload and its reader. The reader is refined to a parser of the medium's bytes; on any backend
  that meets the contract it accepts exactly what the parser accepts.
\<close>

section \<open>Geometry\<close>

text \<open>
  Two slots that fit the storage, and sizes so far from \<open>2 ^ 64\<close> that no offset wraps around.
\<close>

definition io_fits :: "'s mconf_io \<Rightarrow> mconf_ctx \<Rightarrow> bool" where
  "io_fits io ctx \<longleftrightarrow>
     32 \<le> unat (slot_size io) \<and> 2 * unat (slot_size io) \<le> unat (storage_size io) \<and>
     unat (storage_size io) + 2 * length (ctx_bytes ctx) < 2 ^ 64"

definition slot_offset :: "'s mconf_io \<Rightarrow> size_t \<Rightarrow> nat" where
  "slot_offset io slot = unat slot * unat (slot_size io)"

definition slot_bytes :: "'s mconf_io \<Rightarrow> byte list \<Rightarrow> size_t \<Rightarrow> byte list" where
  "slot_bytes io c slot = chunk c (slot_offset io slot) (unat (slot_size io))"

lemma slot_arith:
  assumes "io_fits io ctx" and "slot \<in> {0, 1}"
  shows "unat (slot * slot_size io) = slot_offset io slot"
    and "slot_offset io slot + unat (slot_size io) \<le> unat (storage_size io)"
    and "\<not> (slot + 1) * slot_size io > storage_size io"
proof -
  have "unat (slot_size io + slot_size io) = unat (slot_size io) + unat (slot_size io)"
    using assms(1) by (intro unat_add_le [of _ _ "storage_size io"]) (simp add: io_fits_def)
  moreover have "(1 + 1) * slot_size io = slot_size io + slot_size io"
    by (simp only: distrib_right mult_1)
  ultimately show "unat (slot * slot_size io) = slot_offset io slot"
    and "slot_offset io slot + unat (slot_size io) \<le> unat (storage_size io)"
    and "\<not> (slot + 1) * slot_size io > storage_size io"
    using assms by (auto simp: io_fits_def slot_offset_def not_less word_le_nat_alt)
qed

lemma unat_slot_plus:
  assumes "io_fits io ctx" and "slot \<in> {0, 1}" and "unat k \<le> unat (slot_size io)"
  shows "unat (slot * slot_size io + k) = slot_offset io slot + unat k"
  using slot_arith [OF assms(1,2)] assms(3)
  by (subst unat_add_le [of _ _ "storage_size io"]) auto

lemma io_geometry:
  assumes "io_fits io ctx"
  shows "\<not> slot_size io < MCONF_STORAGE_HEADER_SIZE" and "\<not> storage_size io < slot_size io * 2"
proof -
  have "unat (slot_size io + slot_size io) = unat (slot_size io) + unat (slot_size io)"
    using assms by (intro unat_add_le [of _ _ "storage_size io"]) (simp add: io_fits_def)
  then show "\<not> slot_size io < MCONF_STORAGE_HEADER_SIZE" "\<not> storage_size io < slot_size io * 2"
    using assms by (simp_all only: mult_2_right word_less_nat_alt io_fits_def) simp_all
qed

section \<open>The header\<close>

definition header_image ::
  "mconf_ctx \<Rightarrow> uint32 \<Rightarrow> uint32 \<Rightarrow> uint32 \<Rightarrow> byte \<Rightarrow> byte list" where
  "header_image ctx generation len crc state =
     mconf_storage_magic @ mconf_write_u16_le 1 @ mconf_write_u16_le 32 @
     (case ctx_schema ctx of
        None \<Rightarrow> []
      | Some sch \<Rightarrow> mconf_write_u32_le (schema_version sch) @ mconf_write_u32_le (schema_fingerprint ctx) @
          mconf_write_u16_le (ucast (entry_count sch))) @
     [state, 0] @ mconf_write_u32_le len @ mconf_write_u32_le generation @ mconf_write_u32_le crc"

lemma length_magic [simp]: "length mconf_storage_magic = 4"
  by (simp add: mconf_storage_magic_def)

lemma length_header_image [simp]:
  "ctx_schema ctx = Some sch \<Longrightarrow> length (header_image ctx g l c st) = 32"
  by (simp add: header_image_def)

lemma encode_header_eq:
  assumes "ctx_schema ctx = Some sch" and "entry_count sch \<le> 0xFFFF" and "length h = 32"
  shows "mconf_encode_header h ctx g l c st = Some (MCONF_OK, header_image ctx g l c st)"
  using assms
  by (simp add: mconf_encode_header_def header_image_def mem_write_def mconf_storage_magic_def
      mconf_write_u16_le_def mconf_write_u32_le_def not_less numeral_eq_Suc)

lemma encode_header_too_many:
  assumes "ctx_schema ctx = Some sch" and "entry_count sch > 0xFFFF" and "length h = 32"
  shows "\<exists>h'. mconf_encode_header h ctx g l c st = Some (MCONF_ERR_SIZE, h')"
  using assms
  by (simp add: mconf_encode_header_def mem_write_def mconf_storage_magic_def
      mconf_write_u16_le_def mconf_write_u32_le_def numeral_eq_Suc)

lemma chunk_skip: "length xs \<le> off \<Longrightarrow> chunk (xs @ ys) off n = chunk ys (off - length xs) n"
  by (simp add: chunk_def)

lemma chunk_here: "n = length xs \<Longrightarrow> chunk (xs @ ys) 0 n = xs"
  by (simp add: chunk_def)

text \<open>The record that a header image stands for.\<close>

definition header_record ::
  "mconf_ctx \<Rightarrow> mconf_schema \<Rightarrow> uint32 \<Rightarrow> uint32 \<Rightarrow> uint32 \<Rightarrow> byte \<Rightarrow> mconf_record_info" where
  "header_record ctx sch g l c st =
     \<lparr>info_schema_fingerprint = schema_fingerprint ctx, info_schema_version = schema_version sch,
      info_generation = g, info_payload_length = l, info_payload_crc32 = c,
      info_entry_count = ucast (entry_count sch), info_format_version = 1, info_state = st\<rparr>"

lemma decode_header_image:
  assumes "ctx_schema ctx = Some sch"
  shows "mconf_decode_header (header_image ctx g l c st) = (MCONF_OK, Some (header_record ctx sch g l c st))"
proof -
  have nth: "header_image ctx g l c st ! 18 = st"
    by (simp add: header_image_def assms nth_append)
  have take4: "take 4 (header_image ctx g l c st) = mconf_storage_magic"
    by (simp add: header_image_def)
  have "chunk (header_image ctx g l c st) 6 2 = mconf_write_u16_le 32"
    "chunk (header_image ctx g l c st) 4 2 = mconf_write_u16_le 1"
    "chunk (header_image ctx g l c st) 8 4 = mconf_write_u32_le (schema_version sch)"
    "chunk (header_image ctx g l c st) 12 4 = mconf_write_u32_le (schema_fingerprint ctx)"
    "chunk (header_image ctx g l c st) 16 2 = mconf_write_u16_le (ucast (entry_count sch))"
    "chunk (header_image ctx g l c st) 20 4 = mconf_write_u32_le l"
    "chunk (header_image ctx g l c st) 24 4 = mconf_write_u32_le g"
    "chunk (header_image ctx g l c st) 28 4 = mconf_write_u32_le c"
    unfolding header_image_def assms
    by (simp_all add: chunk_skip chunk_here chunk_def)
  with nth take4 show ?thesis by (simp add: mconf_decode_header_def header_record_def)
qed

text \<open>Committing a record changes one byte of its header.\<close>

lemma commit_header_image:
  assumes "ctx_schema ctx = Some sch"
  shows "patch (header_image ctx g l c st) 18 [st'] = header_image ctx g l c st'"
  by (simp add: patch_def header_image_def assms mconf_storage_magic_def
      mconf_write_u16_le_def mconf_write_u32_le_def)

subsection \<open>Probing a slot\<close>

text \<open>What the probe makes of the 32 bytes at the start of a slot.\<close>

definition header_check ::
  "mconf_ctx \<Rightarrow> 's mconf_io \<Rightarrow> bool \<Rightarrow> byte list \<Rightarrow> mconf_err \<times> mconf_record_info option" where
  "header_check ctx io committed header =
     (case (mconf_decode_header header, ctx_schema ctx) of
        ((err, Some info), Some sch) \<Rightarrow>
          if info_state info \<noteq> MCONF_STORAGE_STATE_COMMITTED \<and>
             (committed \<or> info_state info \<noteq> MCONF_STORAGE_STATE_UNCOMMITTED)
          then (MCONF_ERR_INVALID, None)
          else if info_format_version info \<noteq> MCONF_STORAGE_FORMAT_VERSION then (MCONF_ERR_INVALID, None)
          else if info_schema_version info \<noteq> schema_version sch \<or>
                  info_schema_fingerprint info \<noteq> schema_fingerprint ctx then (MCONF_ERR_VERSION, None)
          else if ucast (info_entry_count info) \<noteq> entry_count sch then (MCONF_ERR_INVALID, None)
          else if 32 + unat (info_payload_length info) > unat (slot_size io) then (MCONF_ERR_SIZE, None)
          else (MCONF_OK, Some info)
      | ((err, _), _) \<Rightarrow> (err, None))"

definition slot_header ::
  "mconf_ctx \<Rightarrow> 's mconf_io \<Rightarrow> byte list \<Rightarrow> size_t \<Rightarrow> bool \<Rightarrow> mconf_err \<times> mconf_record_info option" where
  "slot_header ctx io c slot committed = header_check ctx io committed (chunk c (slot_offset io slot) 32)"

lemma decode_header_cases:
  obtains err where "mconf_decode_header h = (err, None)" "err = MCONF_ERR_MAGIC \<or> err = MCONF_ERR_INVALID"
  | info where "mconf_decode_header h = (MCONF_OK, Some info)"
  by (cases "take 4 h = mconf_storage_magic"; cases "mconf_read_u16_le (chunk h 6 2) = 32")
     (auto simp: mconf_decode_header_def)

lemma header_check_cases:
  assumes "ctx_schema ctx = Some sch"
  obtains (bad) err where "header_check ctx io committed h = (err, None)"
    "err \<in> {MCONF_ERR_MAGIC, MCONF_ERR_INVALID, MCONF_ERR_VERSION, MCONF_ERR_SIZE}"
  | (good) info where "header_check ctx io committed h = (MCONF_OK, Some info)"
    "mconf_decode_header h = (MCONF_OK, Some info)"
    "32 + unat (info_payload_length info) \<le> unat (slot_size io)"
    "committed \<Longrightarrow> info_state info = MCONF_STORAGE_STATE_COMMITTED"
proof (rule decode_header_cases [of h])
  fix err
  assume "mconf_decode_header h = (err, None)" "err = MCONF_ERR_MAGIC \<or> err = MCONF_ERR_INVALID"
  then show thesis by (intro bad [of err]) (auto simp: header_check_def)
next
  fix info
  assume info: "mconf_decode_header h = (MCONF_OK, Some info)"
  then have "\<exists>err \<in> {MCONF_ERR_MAGIC, MCONF_ERR_INVALID, MCONF_ERR_VERSION, MCONF_ERR_SIZE}.
        header_check ctx io committed h = (err, None)" if "header_check ctx io committed h \<noteq> (MCONF_OK, Some info)"
    using that by (auto simp: header_check_def assms split: if_splits)
  moreover have "32 + unat (info_payload_length info) \<le> unat (slot_size io)"
    "committed \<Longrightarrow> info_state info = MCONF_STORAGE_STATE_COMMITTED"
    if "header_check ctx io committed h = (MCONF_OK, Some info)"
    using that info by (auto simp: header_check_def assms split: if_splits)
  ultimately show thesis using info bad good by metis
qed

lemma header_check_Some:
  assumes "ctx_schema ctx = Some sch" and "snd (header_check ctx io committed h) = Some info"
  shows "mconf_decode_header h = (MCONF_OK, Some info)"
    and "32 + unat (info_payload_length info) \<le> unat (slot_size io)"
    and "committed \<Longrightarrow> info_state info = MCONF_STORAGE_STATE_COMMITTED"
  by (rule header_check_cases [OF assms(1), of io committed h]; use assms(2) in auto)+

lemma slot_header_OK_iff:
  "ctx_schema ctx = Some sch \<Longrightarrow> (err, info) = slot_header ctx io c slot committed \<Longrightarrow>
     err = MCONF_OK \<longleftrightarrow> info \<noteq> None"
  by (rule header_check_cases [of ctx sch io committed "chunk c (slot_offset io slot) 32"])
     (auto simp: slot_header_def)

lemma unat_ucast_32 [simp]: "unat (ucast (l :: uint32) :: size_t) = unat l"
  by (simp add: unsigned_ucast_eq take_bit_nat_eq_self_iff unsigned_less [THEN order.strict_trans])

lemma unat_ucast_16 [simp]: "unat (ucast (l :: uint16) :: size_t) = unat l"
  by (simp add: unsigned_ucast_eq take_bit_nat_eq_self_iff unsigned_less [THEN order.strict_trans])

lemma unat_header_room:
  "32 \<le> unat (slot_size io) \<Longrightarrow>
     MCONF_STORAGE_HEADER_SIZE + ucast (l :: uint32) > slot_size io \<longleftrightarrow> 32 + unat l > unat (slot_size io)"
proof -
  have "unat l < 2 ^ 32" using unsigned_less [of l, where ?'a = nat] by simp
  then have "unat (MCONF_STORAGE_HEADER_SIZE + ucast l) = 32 + unat l"
    by (subst unat_add_no_wrap) simp_all
  then show ?thesis by (simp add: word_less_nat_alt)
qed

context storage_backend
begin

lemma probe_eq:
  assumes "inv s" and "io_fits io ctx" and "slot \<in> {0, 1}" and "ctx_schema ctx = Some sch"
  obtains err info s' where "mconf_probe_slot_header ctx io s slot committed = Some (err, info, s')"
    "inv s'" "contents s' = contents s"
    "(err, info) = slot_header ctx io (contents s) slot committed \<or>
     (read_fault io contents inv \<and> err = MCONF_ERR_IO \<and> info = None)"
    "err = MCONF_OK \<longleftrightarrow> info \<noteq> None"
    "err \<in> {MCONF_OK, MCONF_ERR_IO, MCONF_ERR_MAGIC, MCONF_ERR_INVALID, MCONF_ERR_VERSION, MCONF_ERR_SIZE}"
proof -
  note arith = slot_arith [OF assms(2,3)]
  have range: "slot_offset io slot + 32 \<le> length (contents s)"
    using arith(2) assms(2) contents_size [OF assms(1)] by (simp add: io_fits_def)
  then have nowrap: "unat (slot * slot_size io) + 32 < 2 ^ 64"
    using arith(1) contents_size [OF assms(1)] size_t_bound [of "storage_size io"] by simp
  from read_exact [OF assms(1) nowrap, of "replicate 32 0"] obtain err header s' where
    rd: "mconf_io_read_exact io s (slot * slot_size io) (replicate 32 0) = Some (err, header, s')"
    "inv s'" "contents s' = contents s"
    "(err = MCONF_OK \<and> header = chunk (contents s) (slot_offset io slot) 32) \<or>
     (err = MCONF_ERR_IO \<and> read_fault io contents inv)"
    using range arith(1) by (metis length_replicate not_less)
  from rd(4) show thesis
  proof
    assume ok: "err = MCONF_OK \<and> header = chunk (contents s) (slot_offset io slot) 32"
    have room: "32 \<le> unat (slot_size io)" using assms(2) by (simp add: io_fits_def)
    have "mconf_probe_slot_header ctx io s slot committed =
        Some (fst (header_check ctx io committed header), snd (header_check ctx io committed header), s')"
      using arith(3) rd(1) ok assms(4) unat_header_room [OF room]
      by (rule_tac decode_header_cases [of header])
         (auto simp: mconf_probe_slot_header_def header_check_def)
    from that [OF this rd(2,3)] ok show thesis
      by (rule_tac header_check_cases [OF assms(4), of io committed header]) (auto simp: slot_header_def)
  next
    assume "err = MCONF_ERR_IO \<and> read_fault io contents inv"
    with rd(1) arith(3) have "mconf_probe_slot_header ctx io s slot committed = Some (MCONF_ERR_IO, None, s')"
      by (simp add: mconf_probe_slot_header_def)
    from that [OF this rd(2,3)] \<open>err = MCONF_ERR_IO \<and> _\<close> show thesis by simp
  qed
qed

end

section \<open>Parsing a payload\<close>

text \<open>The value of one field and the offset after it, if the medium holds one at \<open>off\<close>.\<close>

definition parse_entry ::
  "mconf_config \<Rightarrow> mconf_entry \<Rightarrow> byte list \<Rightarrow> nat \<Rightarrow> (byte list \<times> nat) option" where
  "parse_entry cfg e c off =
     (if entry_type e = MCONF_TYPE_STRING then
        let len = unat (mconf_read_u16_le (chunk c off 2)) in
        if off + 2 \<le> length c \<and> len < unat (entry_size e) \<and> off + 2 + len \<le> length c
        then Some (chunk c (off + 2) len @ replicate (unat (entry_size e) - len) 0, off + 2 + len)
        else None
      else if \<not> storable cfg e \<or> length c < off + unat (entry_size e) then None
      else if entry_type e = MCONF_TYPE_BLOB
      then Some (chunk c off (unat (entry_size e)), off + unat (entry_size e))
      else Some (scalar_decoding cfg (entry_type e) (chunk c off (unat (entry_size e))),
                 off + unat (entry_size e)))"

fun parse_fields ::
  "mconf_config \<Rightarrow> mconf_entry list \<Rightarrow> byte list \<Rightarrow> nat \<Rightarrow> (byte list list \<times> nat) option" where
  "parse_fields cfg [] c off = Some ([], off)"
| "parse_fields cfg (e # es) c off =
     do { (v, off) \<leftarrow> parse_entry cfg e c off;
          (vs, off) \<leftarrow> parse_fields cfg es c off;
          Some (v # vs, off) }"

text \<open>Fields \<open>i\<close> and following of a data object set to the values of a list.\<close>

fun put_fields :: "mconf_entry list \<Rightarrow> nat \<Rightarrow> byte list list \<Rightarrow> byte list \<Rightarrow> byte list" where
  "put_fields es i [] d = d"
| "put_fields es i (v # vs) d = put_fields es (Suc i) vs (field_put es d i v)"

lemma parse_entry_bounds:
  assumes "parse_entry cfg e c off = Some (v, off')" and "off \<le> length c"
  shows "off \<le> off'" and "off' \<le> length c"
  using assms by (auto simp: parse_entry_def Let_def split: if_splits)

lemma parse_entry_length:
  assumes "parse_entry cfg e c off = Some (v, off')" and "entry_ok cfg n e"
  shows "length v = unat (entry_size e)"
  using assms
  by (auto simp: parse_entry_def Let_def entry_ok_def storable_def scalar_ok_def not_less split: if_splits)

lemma parse_fields_bounds:
  "parse_fields cfg es c off = Some (vs, off') \<Longrightarrow> off \<le> length c \<Longrightarrow>
     off \<le> off' \<and> off' \<le> length c \<and> length vs = length es"
proof (induction es arbitrary: off vs)
  case (Cons e es)
  then obtain v off1 vs' where e: "parse_entry cfg e c off = Some (v, off1)"
    and es: "parse_fields cfg es c off1 = Some (vs', off')" "vs = v # vs'"
    by (auto simp: bind_Some_iff)
  with parse_entry_bounds [OF e Cons.prems(2)] Cons.IH [OF es(1)] show ?case by simp
qed simp

text \<open>A parse depends only on the bytes that it consumes.\<close>

lemma parse_entry_local:
  assumes "parse_entry cfg e c off = Some (v, off')" and "off \<le> length c"
    and "length c' = length c" and "chunk c' off (off' - off) = chunk c off (off' - off)"
  shows "parse_entry cfg e c' off = Some (v, off')"
proof -
  note b = parse_entry_bounds [OF assms(1,2)]
  have sub: "chunk c' (off + i) k = chunk c (off + i) k" if "off + i + k \<le> off'" for i k
    using chunk_chunk [of i k "off' - off" off c] chunk_chunk [of i k "off' - off" off c'] assms(3,4) b that
    by simp
  show ?thesis
  proof (cases "entry_type e = MCONF_TYPE_STRING")
    case True
    define len where "len = unat (mconf_read_u16_le (chunk c off 2))"
    have len: "off + 2 \<le> length c" "len < unat (entry_size e)" "off + 2 + len \<le> length c"
      "v = chunk c (off + 2) len @ replicate (unat (entry_size e) - len) 0" "off' = off + 2 + len"
      using assms(1) True by (auto simp: parse_entry_def Let_def len_def split: if_splits)
    then have "chunk c' off 2 = chunk c off 2" "chunk c' (off + 2) len = chunk c (off + 2) len"
      using sub [of 0 2] sub [of 2 len] by auto
    with len assms(3) True show ?thesis by (simp add: parse_entry_def Let_def len_def)
  next
    case False
    then have "off' = off + unat (entry_size e)"
      using assms(1) by (auto simp: parse_entry_def split: if_splits)
    with sub [of 0 "unat (entry_size e)"] assms(1,3) False show ?thesis
      by (simp add: parse_entry_def split: if_splits)
  qed
qed

lemma parse_fields_local:
  "parse_fields cfg es c off = Some (vs, off') \<Longrightarrow> off \<le> length c \<Longrightarrow> length c' = length c \<Longrightarrow>
     chunk c' off (off' - off) = chunk c off (off' - off) \<Longrightarrow>
     parse_fields cfg es c' off = Some (vs, off')"
proof (induction es arbitrary: off vs)
  case (Cons e es)
  then obtain v off1 vs' where e: "parse_entry cfg e c off = Some (v, off1)"
    and es: "parse_fields cfg es c off1 = Some (vs', off')" "vs = v # vs'"
    by (auto simp: bind_Some_iff)
  note b = parse_entry_bounds [OF e Cons.prems(2)] parse_fields_bounds [OF es(1)]
  have off1: "off \<le> off1" "off1 \<le> off'" "off' \<le> length c" using b by auto
  have "chunk c' (off + i) k = chunk c (off + i) k" if "i + k \<le> off' - off" for i k
    using chunk_chunk [of i k "off' - off" off c] chunk_chunk [of i k "off' - off" off c']
      Cons.prems(3,4) off1 that by simp
  from this [of 0 "off1 - off"] this [of "off1 - off" "off' - off1"] off1
  have "chunk c' off (off1 - off) = chunk c off (off1 - off)"
    "chunk c' off1 (off' - off1) = chunk c off1 (off' - off1)" by simp_all
  with parse_entry_local [OF e Cons.prems(2,3)] Cons.IH [OF es(1) _ Cons.prems(3)] off1 es(2)
  show ?case by simp
qed simp

section \<open>Properties\<close>

text \<open>
  C22. The header codec is exact: what \<open>mconf_encode_header\<close> writes over any 32 bytes \<open>mconf_decode_header\<close>
  reads back as the same version, fingerprint, entry count, generation, length, CRC and state, and
  overwriting the state byte, as the commit does, changes the state and nothing else.
\<close>

theorem header_round_trip:
  assumes "ctx_schema ctx = Some sch" and "entry_count sch \<le> 0xFFFF" and "length h = 32"
  shows "\<exists>h'. mconf_encode_header h ctx g l c st = Some (MCONF_OK, h') \<and> length h' = 32 \<and>
    mconf_decode_header h' = (MCONF_OK, Some (header_record ctx sch g l c st)) \<and>
    mconf_decode_header (patch h' 18 [st']) = (MCONF_OK, Some (header_record ctx sch g l c st'))"
  using encode_header_eq [OF assms] assms(1) by (simp add: decode_header_image commit_header_image)

theorem header_round_trip_witness:
  "\<exists>h'. mconf_encode_header (replicate 32 0) demo_ctx 7 9 0xCAFE MCONF_STORAGE_STATE_UNCOMMITTED = Some (MCONF_OK, h') \<and>
    length h' = 32 \<and>
    mconf_decode_header h' =
      (MCONF_OK, Some (header_record demo_ctx demo_schema 7 9 0xCAFE MCONF_STORAGE_STATE_UNCOMMITTED)) \<and>
    mconf_decode_header (patch h' 18 [MCONF_STORAGE_STATE_COMMITTED]) =
      (MCONF_OK, Some (header_record demo_ctx demo_schema 7 9 0xCAFE MCONF_STORAGE_STATE_COMMITTED))"
  by (rule header_round_trip) (simp_all add: demo_ctx_def, simp add: demo_schema_def)

lemma demo_io_fits: "io_fits fake_io demo_ctx"
  by (simp add: io_fits_def fake_io_def)

end
