(* ===== verification/Mconf_Reader.thy ===== *)
theory Mconf_Reader
  imports Mconf_Slot
begin

text \<open>
  The streaming reader of a slot (\<open>mconf_load_slot_into_buffer\<close>) against the parser of Mconf_Slot: on
  any backend that meets the contract it stays inside its buffers, and it succeeds with exactly the
  fields that the parser finds, unless the backend fails a read.
\<close>

section \<open>Filling the fields\<close>

lemma put_fields_facts:
  assumes "layout_ok es (length d)" and "i + length vs \<le> length es"
    and "\<forall>k < length vs. length (vs ! k) = unat (entry_size (es ! (i + k)))"
  shows "length (put_fields es i vs d) = length d \<and>
    (\<forall>j < length es. field_get es (put_fields es i vs d) j =
       (if i \<le> j \<and> j < i + length vs then vs ! (j - i) else field_get es d j))"
  using assms
proof (induction vs arbitrary: i d)
  case Nil
  then show ?case by auto
next
  case (Cons v vs)
  then have i: "i < length es" and v: "length v = unat (entry_size (es ! i))" by auto
  have len: "length (field_put es d i v) = length d" using length_field_put [OF Cons.prems(1) i v] .
  have rd: "field_get es (field_put es d i v) j = (if j = i then v else field_get es d j)"
    if "j < length es" for j
    using fields.rd_wr [OF Cons.prems(1) i _ that] v by (simp add: entry_width_def)
  have "\<forall>k < length vs. length (vs ! k) = unat (entry_size (es ! (Suc i + k)))"
    using Cons.prems(3) by (metis Suc_less_eq add_Suc_shift length_Cons nth_Cons_Suc)
  with Cons.IH [of "field_put es d i v" "Suc i"] Cons.prems len have
    IH: "length (put_fields es (Suc i) vs (field_put es d i v)) = length d"
    "\<forall>j < length es. field_get es (put_fields es (Suc i) vs (field_put es d i v)) j =
       (if Suc i \<le> j \<and> j < Suc i + length vs then vs ! (j - Suc i)
        else field_get es (field_put es d i v) j)" by simp_all
  have "(if Suc i \<le> j \<and> j < Suc i + length vs then vs ! (j - Suc i)
        else field_get es (field_put es d i v) j) =
      (if i \<le> j \<and> j < i + length (v # vs) then (v # vs) ! (j - i) else field_get es d j)"
    if "j < length es" for j
    using rd [OF that] by (cases "j = i") (auto simp: nth_Cons')
  with IH show ?case by simp
qed

lemma parse_fields_values:
  assumes "parse_fields cfg es c off = Some (vs, off')" and "\<forall>e \<in> set es. entry_ok cfg n e"
  shows "length vs = length es" and "k < length es \<Longrightarrow> length (vs ! k) = unat (entry_size (es ! k))"
  using assms
proof (induction es arbitrary: off vs k)
  case (Cons e es)
  {
    case 1
    with Cons.IH(1) show ?case by (fastforce simp: bind_Some_iff)
  next
    case 2
    then obtain v off1 vs' where e: "parse_entry cfg e c off = Some (v, off1)"
      and es: "parse_fields cfg es c off1 = Some (vs', off')" "vs = v # vs'"
      by (auto simp: bind_Some_iff)
    with 2 parse_entry_length [OF e] Cons.IH(2) [OF _ es(1)] show ?case by (cases k) auto
  }
qed simp_all

section \<open>One field\<close>

text \<open>
  How the reader may end with an error: its buffer keeps its length, the medium is as it was, and
  either the backend has failed a read or there was nothing to be found.
\<close>

definition reader_stops ::
  "'s mconf_io \<Rightarrow> ('s \<Rightarrow> byte list) \<Rightarrow> ('s \<Rightarrow> bool) \<Rightarrow> byte list \<Rightarrow> nat \<Rightarrow> bool \<Rightarrow>
    (mconf_err \<times> byte list \<times> uint32 \<times> size_t \<times> 's) option \<Rightarrow> bool" where
  "reader_stops io contents ok c n absent res \<longleftrightarrow>
     (\<exists>err scratch crc ro s. res = Some (err, scratch, crc, ro, s) \<and> err \<noteq> MCONF_OK \<and>
        length scratch = n \<and> ok s \<and> contents s = c \<and> (read_fault io contents ok \<or> absent))"

lemma reader_stopsI:
  "res = Some (err, scratch, crc, ro, s) \<Longrightarrow> err \<noteq> MCONF_OK \<Longrightarrow> length scratch = n \<Longrightarrow> ok s \<Longrightarrow>
     contents s = c \<Longrightarrow> read_fault io contents ok \<or> absent \<Longrightarrow>
     reader_stops io contents ok c n absent res"
  by (auto simp: reader_stops_def)

lemma reader_stops_mono:
  "reader_stops io contents ok c n absent res \<Longrightarrow> (absent \<Longrightarrow> absent') \<Longrightarrow>
     reader_stops io contents ok c n absent' res"
  by (auto simp: reader_stops_def)

text \<open>
  The reader has taken field \<open>i\<close> as the parser finds it on the medium and goes on with the next field,
  or it stops.
\<close>

definition load_step_ok ::
  "mconf_config \<Rightarrow> mconf_ctx \<Rightarrow> 's mconf_io \<Rightarrow> ('s \<Rightarrow> byte list) \<Rightarrow> ('s \<Rightarrow> bool) \<Rightarrow> nat \<Rightarrow> nat \<Rightarrow>
    byte list \<Rightarrow> uint32 \<Rightarrow> size_t \<Rightarrow> byte list \<Rightarrow> 's \<Rightarrow> bool" where
  "load_step_ok cfg ctx io contents ok i n scratch crc ro encoded s \<longleftrightarrow>
     (\<exists>v ro' encoded' s'.
        parse_entry cfg (ctx_entries ctx ! i) (contents s) (unat ro) = Some (v, unat ro') \<and>
        length encoded' = 4 \<and> ok s' \<and> contents s' = contents s \<and>
        load_slot_loop cfg ctx io i (Suc n) scratch crc ro encoded s =
        load_slot_loop cfg ctx io (Suc i) n (field_put (ctx_entries ctx) scratch i v)
          (crc_bytes crc (chunk (contents s) (unat ro) (unat ro' - unat ro))) ro' encoded' s') \<or>
     reader_stops io contents ok (contents s) (length scratch)
       (parse_entry cfg (ctx_entries ctx ! i) (contents s) (unat ro) = None)
       (load_slot_loop cfg ctx io i (Suc n) scratch crc ro encoded s)"

lemma load_step_goI:
  "parse_entry cfg (ctx_entries ctx ! i) (contents s) (unat ro) = Some (v, unat ro') \<Longrightarrow>
     length encoded' = 4 \<Longrightarrow> ok s' \<Longrightarrow> contents s' = contents s \<Longrightarrow>
     load_slot_loop cfg ctx io i (Suc n) scratch crc ro encoded s =
     load_slot_loop cfg ctx io (Suc i) n (field_put (ctx_entries ctx) scratch i v)
       (crc_bytes crc (chunk (contents s) (unat ro) (unat ro' - unat ro))) ro' encoded' s' \<Longrightarrow>
     load_step_ok cfg ctx io contents ok i n scratch crc ro encoded s"
  by (auto simp: load_step_ok_def)

lemma load_step_stopI:
  "load_slot_loop cfg ctx io i (Suc n) scratch crc ro encoded s = Some (err, scratch', crc', ro', s') \<Longrightarrow>
     err \<noteq> MCONF_OK \<Longrightarrow> length scratch' = length scratch \<Longrightarrow> ok s' \<Longrightarrow> contents s' = contents s \<Longrightarrow>
     read_fault io contents ok \<or> parse_entry cfg (ctx_entries ctx ! i) (contents s) (unat ro) = None \<Longrightarrow>
     load_step_ok cfg ctx io contents ok i n scratch crc ro encoded s"
  by (auto simp: load_step_ok_def reader_stops_def)

text \<open>The tail of the reader's step for a string, from its length \<open>w\<close> on.\<close>

lemma string_written:
  assumes "off + sz \<le> length m" and "length bs < sz"
  shows "patch (patch (patch m off (replicate sz 0)) off bs) (off + length bs) [0] =
    patch m off (bs @ replicate (sz - length bs) 0)"
  using patch_patch_prefix [of off "replicate sz 0" m bs] assms by simp

lemma decode_unsupported:
  assumes "\<not> scalar_ok cfg (entry_type e)" and "entry_type e \<noteq> MCONF_TYPE_BLOB"
  shows "\<exists>err. mconf_decode_field_bytes cfg e buffer (mconf_expected_type_size (entry_type e)) m off =
    Some (err, m) \<and> err \<noteq> MCONF_OK"
proof (cases "entry_type e = MCONF_TYPE_FLOAT32")
  case True
  then have "\<not> float_supported cfg" using assms(1) by (auto simp: scalar_ok_def scalar_type_cases)
  with True show ?thesis by (simp add: mconf_decode_field_bytes_def mconf_expected_type_size_def)
next
  case False
  then have "\<not> mconf_is_scalar_type (entry_type e)" using assms(1) by (simp add: scalar_ok_def)
  with assms(2) show ?thesis by (simp add: decode_other)
qed

text \<open>
  The step of the reader for one field: it goes on with the value that the parser finds, or it stops
  because there is none or because a read has failed.
\<close>

context storage_backend
begin

lemma load_chars_step:
  assumes ok: "ctx_ok cfg ctx" and i: "i < length (ctx_entries ctx)" and s: "inv s"
    and ty: "entry_type (ctx_entries ctx ! i) = MCONF_TYPE_STRING"
    and len: "length scratch = length (ctx_bytes ctx)" and enc: "length encoded = 4"
    and r1: "mconf_io_read_exact io s ro [0, 0] = Some (MCONF_OK, le, s1)" "inv s1" "contents s1 = contents s"
    and le: "le = chunk (contents s) (unat ro) 2" "unat ro + 2 \<le> length (contents s)" "w = mconf_read_u16_le le"
    and w: "unat w < unat (entry_size (ctx_entries ctx ! i))"
    and small: "unat (storage_size io) + 2 * length (ctx_bytes ctx) < 2 ^ 64"
  shows "load_step_ok cfg ctx io contents inv i n scratch crc ro encoded s"
proof -
  let ?e = "ctx_entries ctx ! i" and ?c = "contents s"
  let ?off = "unat (offset ?e)" and ?z = "replicate (unat (entry_size ?e)) (0 :: byte)"
  let ?m = "patch scratch ?off ?z"
  have range: "?off + unat (entry_size ?e) \<le> length scratch"
    using ctx_entry_range [OF ok i] len by simp
  have m: "length ?m = length scratch" using range by simp
  have "unat (ucast w + 1 :: size_t) = Suc (unat w)"
    using unsigned_less [of w, where ?'a = nat] by (subst unat_add_no_wrap) simp_all
  then have fits: "\<not> ucast w + 1 > entry_size ?e" using w by (simp add: word_less_nat_alt)
  have nowrap: "unat (ro + 2) = unat ro + 2" "unat ro + 2 + unat w < 2 ^ 64"
    "unat (ro + 2 + ucast w) = unat ro + 2 + unat w"
    using le(2) contents_size [OF s] range len small w by (simp_all add: unat_add_no_wrap)
  have crc2: "mconf_crc32_update_byte (mconf_crc32_update_byte crc (le ! 0)) (le ! Suc 0) = crc_bytes crc le"
    using le by (auto simp: list_length_2 chunk_def numeral_2_eq_2 Cons_nth_drop_Suc [symmetric])
  let ?v = "chunk ?c (unat ro + 2) (unat w) @ replicate (unat (entry_size ?e) - unat w) 0"
  have parse: "parse_entry cfg ?e (contents s) (unat ro) =
      (if unat ro + 2 + unat w \<le> length ?c then Some (?v, unat ro + 2 + unat w) else None)"
    using le w by (simp add: parse_entry_def ty Let_def)
  note loop = entry_at_eq [OF ok i] mconf_field_ptr_def Let_def ty fits crc2
    le(3) [symmetric] le(1) [symmetric] r1(1) mem_simps
  show ?thesis
  proof (cases "w = 0")
    case True
    show ?thesis
      by (rule load_step_goI [where v = ?v and ro' = "ro + 2" and encoded' = encoded and s' = s1])
         (use True string_written [OF range, of "[]"] w range le(2) nowrap r1 enc in
           \<open>auto simp: loop parse field_put_def\<close>)
  next
    case False
    obtain err bs s2 where
      r2: "mconf_io_read_exact io s1 (ro + 2) (chunk ?m ?off (unat w)) = Some (err, bs, s2)"
      "length bs = unat w" "inv s2" "contents s2 = ?c"
      "(err = MCONF_OK \<and> unat ro + 2 + unat w \<le> length ?c \<and> bs = chunk ?c (unat ro + 2) (unat w)) \<or>
       (err = MCONF_ERR_IO \<and> (read_fault io contents inv \<or> length ?c < unat ro + 2 + unat w))"
      by (rule read_exact [OF r1(2), of "ro + 2" "unat w" "chunk ?m ?off (unat w)"])
         (use m range w r1(3) nowrap in simp_all)
    show ?thesis
    proof (cases "err = MCONF_OK")
      case False
      show ?thesis
        by (rule load_step_stopI [where err = err and scratch' = "patch ?m ?off bs" and
              crc' = "crc_bytes crc le" and ro' = "ro + 2" and s' = s2])
           (use False r2 m range w \<open>w \<noteq> 0\<close> in \<open>auto simp: loop parse\<close>)
    next
      case True
      then have bs: "bs = chunk ?c (unat ro + 2) (unat w)" "unat ro + 2 + unat w \<le> length ?c"
        using r2(5) by auto
      have "crc_bytes (crc_bytes crc le) bs = crc_bytes crc (chunk ?c (unat ro) (2 + unat w))"
        using chunk_append [of "unat ro" 2 "unat w" ?c] bs le by (simp add: crc_bytes_append)
      moreover have "crc32_update_range (patch ?m ?off bs) ?off (unat w) cc = Some (crc_bytes cc bs)" for cc
        using m range w r2(2) by (simp add: mem_simps chunk_patch_eq)
      ultimately show ?thesis
        using r2 True m range w \<open>w \<noteq> 0\<close> bs(2) string_written [OF range, of bs] nowrap enc
        by (intro load_step_goI [where v = ?v and ro' = "ro + 2 + ucast w" and encoded' = encoded and s' = s2])
           (simp_all add: loop parse field_put_def bs(1))
    qed
  qed
qed

lemma load_string_step:
  assumes ok: "ctx_ok cfg ctx" and i: "i < length (ctx_entries ctx)" and s: "inv s"
    and ty: "entry_type (ctx_entries ctx ! i) = MCONF_TYPE_STRING"
    and len: "length scratch = length (ctx_bytes ctx)" "length encoded = 4"
    and ro: "unat ro \<le> length (contents s)"
    and small: "unat (storage_size io) + 2 * length (ctx_bytes ctx) < 2 ^ 64"
  shows "load_step_ok cfg ctx io contents inv i n scratch crc ro encoded s"
proof -
  let ?e = "ctx_entries ctx ! i" and ?c = "contents s"
  have "2 \<le> unat (entry_size ?e)"
    using ctx_entry_ok [OF ok i] ty by (simp add: entry_ok_def word_le_nat_alt)
  then have nowrap: "unat ro + 2 < 2 ^ 64"
    using ro contents_size [OF s] ctx_entry_range [OF ok i] small by simp
  obtain err le s1 where r1: "mconf_io_read_exact io s ro [0, 0] = Some (err, le, s1)" "inv s1"
    "contents s1 = ?c" "length le = 2"
    "(err = MCONF_OK \<and> unat ro + 2 \<le> length ?c \<and> le = chunk ?c (unat ro) 2) \<or>
     (err = MCONF_ERR_IO \<and> (read_fault io contents inv \<or> length ?c < unat ro + 2))"
    by (rule read_exact [OF s nowrap, of "[0, 0]"]) simp_all
  note loop = entry_at_eq [OF ok i] mconf_field_ptr_def Let_def ty
  show ?thesis
  proof (cases "err = MCONF_OK")
    case False
    with r1 show ?thesis
      by (intro load_step_stopI [where err = err and scratch' = scratch and crc' = crc and ro' = ro and s' = s1])
         (auto simp: loop parse_entry_def)
  next
    case True
    then have le: "le = chunk ?c (unat ro) 2" "unat ro + 2 \<le> length ?c" using r1(5) by auto
    let ?w = "mconf_read_u16_le le"
    show ?thesis
    proof (cases "unat ?w < unat (entry_size ?e)")
      case small_w: True
      from r1(1) True have "mconf_io_read_exact io s ro [0, 0] = Some (MCONF_OK, le, s1)" by simp
      from load_chars_step [OF ok i s ty len this r1(2,3) le refl small_w small] show ?thesis .
    next
      case False
      moreover have "unat (ucast ?w + 1 :: size_t) = Suc (unat ?w)"
        using unsigned_less [of ?w, where ?'a = nat] by (subst unat_add_no_wrap) simp_all
      ultimately have "ucast ?w + 1 > entry_size ?e" by (simp add: word_less_nat_alt)
      with r1 True False show ?thesis
        by (intro load_step_stopI [where err = MCONF_ERR_INVALID and scratch' = scratch and
              crc' = "mconf_crc32_update_byte (mconf_crc32_update_byte crc (le ! 0)) (le ! 1)" and ro' = "ro + 2" and s' = s1])
           (auto simp: loop parse_entry_def)
    qed
  qed
qed

lemma load_blob_step:
  assumes ok: "ctx_ok cfg ctx" and i: "i < length (ctx_entries ctx)" and s: "inv s"
    and ty: "entry_type (ctx_entries ctx ! i) = MCONF_TYPE_BLOB"
    and len: "length scratch = length (ctx_bytes ctx)" "length encoded = 4"
    and ro: "unat ro \<le> length (contents s)"
    and small: "unat (storage_size io) + 2 * length (ctx_bytes ctx) < 2 ^ 64"
  shows "load_step_ok cfg ctx io contents inv i n scratch crc ro encoded s"
proof -
  let ?e = "ctx_entries ctx ! i" and ?c = "contents s"
  let ?off = "unat (offset ?e)" and ?sz = "unat (entry_size ?e)"
  have range: "?off + ?sz \<le> length scratch" using ctx_entry_range [OF ok i] len by simp
  have nowrap: "unat ro + ?sz < 2 ^ 64" "unat (ro + entry_size ?e) = unat ro + ?sz"
    using ro contents_size [OF s] range len small by (simp_all add: unat_add_no_wrap)
  obtain err bs s1 where r: "mconf_io_read_exact io s ro (chunk scratch ?off ?sz) = Some (err, bs, s1)"
    "length bs = ?sz" "inv s1" "contents s1 = ?c"
    "(err = MCONF_OK \<and> unat ro + ?sz \<le> length ?c \<and> bs = chunk ?c (unat ro) ?sz) \<or>
     (err = MCONF_ERR_IO \<and> (read_fault io contents inv \<or> length ?c < unat ro + ?sz))"
    by (rule read_exact [OF s nowrap(1), of "chunk scratch ?off ?sz"]) (use range in simp_all)
  note loop = entry_at_eq [OF ok i] mconf_field_ptr_def Let_def ty mem_simps
  show ?thesis
  proof (cases "err = MCONF_OK")
    case True
    with r range nowrap(2) len(2) show ?thesis
      by (intro load_step_goI [where v = bs and ro' = "ro + entry_size ?e" and encoded' = encoded and s' = s1])
         (auto simp: loop parse_entry_def storable_def field_put_def chunk_patch_eq)
  next
    case False
    with r range show ?thesis
      by (intro load_step_stopI [where err = err and scratch' = "patch scratch ?off bs" and crc' = crc and ro' = ro and s' = s1])
         (auto simp: loop parse_entry_def)
  qed
qed

lemma load_scalar_step:
  assumes ok: "ctx_ok cfg ctx" and i: "i < length (ctx_entries ctx)" and s: "inv s"
    and ty: "entry_type (ctx_entries ctx ! i) \<noteq> MCONF_TYPE_STRING"
      "entry_type (ctx_entries ctx ! i) \<noteq> MCONF_TYPE_BLOB"
    and len: "length scratch = length (ctx_bytes ctx)" "length encoded = 4"
    and ro: "unat ro \<le> length (contents s)"
    and small: "unat (storage_size io) + 2 * length (ctx_bytes ctx) < 2 ^ 64"
  shows "load_step_ok cfg ctx io contents inv i n scratch crc ro encoded s"
proof -
  let ?e = "ctx_entries ctx ! i" and ?c = "contents s"
  let ?n = "mconf_expected_type_size (entry_type ?e)"
  let ?off = "unat (offset ?e)" and ?sz = "unat (entry_size ?e)"
  have range: "?off + ?sz \<le> length scratch" using ctx_entry_range [OF ok i] len by simp
  have n4: "unat ?n \<le> 4" by (rule scalar_size_le_4)
  have n: "mconf_is_scalar_type (entry_type ?e) \<Longrightarrow> entry_size ?e = ?n"
    using ctx_entry_ok [OF ok i] by (simp add: entry_ok_def)
  then have "unat ?n \<le> ?sz"
    by (cases "mconf_is_scalar_type (entry_type ?e)") (auto simp: scalar_type_size)
  then have nowrap: "unat ro + unat ?n < 2 ^ 64" "unat (ro + ?n) = unat ro + unat ?n"
    using ro contents_size [OF s] range len small by (simp_all add: unat_add_no_wrap)
  obtain err bs s1 where r: "mconf_io_read_exact io s ro (chunk encoded 0 (unat ?n)) = Some (err, bs, s1)"
    "length bs = unat ?n" "inv s1" "contents s1 = ?c"
    "(err = MCONF_OK \<and> unat ro + unat ?n \<le> length ?c \<and> bs = chunk ?c (unat ro) (unat ?n)) \<or>
     (err = MCONF_ERR_IO \<and> (read_fault io contents inv \<or> length ?c < unat ro + unat ?n))"
    by (rule read_exact [OF s nowrap(1), of "chunk encoded 0 (unat ?n)"]) (use n4 len in simp_all)
  have enc: "length (patch encoded 0 bs) = 4" using r(2) n4 len(2) by simp
  note loop = entry_at_eq [OF ok i] mconf_field_ptr_def Let_def ty mem_simps
  consider (io) "err \<noteq> MCONF_OK" | (bad) "err = MCONF_OK" "\<not> scalar_ok cfg (entry_type ?e)"
    | (good) "err = MCONF_OK" "scalar_ok cfg (entry_type ?e)" by blast
  then show ?thesis
  proof cases
    case io
    with r n4 len n show ?thesis
      by (intro load_step_stopI [where err = err and scratch' = scratch and crc' = crc and ro' = ro and s' = s1])
         (auto simp: loop parse_entry_def storable_def scalar_ok_def)
  next
    case bad
    obtain derr where "mconf_decode_field_bytes cfg ?e (patch encoded 0 bs) ?n scratch ?off =
        Some (derr, scratch)" "derr \<noteq> MCONF_OK"
      using decode_unsupported [OF bad(2) ty(2)] by blast
    with bad r n4 len enc ty show ?thesis
      by (intro load_step_stopI [where err = derr and scratch' = scratch and crc' = "crc_bytes crc bs" and
            ro' = "ro + ?n" and s' = s1])
         (auto simp: loop parse_entry_def storable_def chunk_patch_eq)
  next
    case good
    then have sz: "entry_size ?e = ?n" using n by (simp add: scalar_ok_def)
    have "mconf_decode_field_bytes cfg ?e (patch encoded 0 bs) ?n scratch ?off =
        Some (MCONF_OK, patch scratch ?off (scalar_decoding cfg (entry_type ?e) bs))"
      using decode_scalar [OF good(2) sz range, of "patch encoded 0 bs"] enc r(2) n4 sz len(2)
      by (simp add: chunk_patch_eq)
    with good r n4 len sz nowrap enc show ?thesis
      by (intro load_step_goI [where v = "scalar_decoding cfg (entry_type ?e) bs" and ro' = "ro + ?n" and encoded' = "patch encoded 0 bs" and s' = s1])
         (auto simp: loop parse_entry_def storable_def field_put_def chunk_patch_eq)
  qed
qed

lemma load_entry_step:
  assumes "ctx_ok cfg ctx" and "i < length (ctx_entries ctx)" and "inv s"
    and "length scratch = length (ctx_bytes ctx)" and "length encoded = 4"
    and "unat ro \<le> length (contents s)"
    and "unat (storage_size io) + 2 * length (ctx_bytes ctx) < 2 ^ 64"
  shows "load_step_ok cfg ctx io contents inv i n scratch crc ro encoded s"
  using load_string_step [OF assms(1-3) _ assms(4-)] load_blob_step [OF assms(1-3) _ assms(4-)]
    load_scalar_step [OF assms(1-3) _ _ assms(4-)] by blast

section \<open>All fields\<close>

lemma load_slot_loop_eq:
  assumes ok: "ctx_ok cfg ctx" and small: "unat (storage_size io) + 2 * length (ctx_bytes ctx) < 2 ^ 64"
    and "i + n = length (ctx_entries ctx)" and "inv s" and "length scratch = length (ctx_bytes ctx)"
    and "length encoded = 4" and "unat ro \<le> length (contents s)"
  shows "(\<exists>vs ro' s'. parse_fields cfg (drop i (ctx_entries ctx)) (contents s) (unat ro) = Some (vs, unat ro') \<and>
      inv s' \<and> contents s' = contents s \<and>
      load_slot_loop cfg ctx io i n scratch crc ro encoded s =
        Some (MCONF_OK, put_fields (ctx_entries ctx) i vs scratch,
          crc_bytes crc (chunk (contents s) (unat ro) (unat ro' - unat ro)), ro', s')) \<or>
    reader_stops io contents inv (contents s) (length scratch)
      (parse_fields cfg (drop i (ctx_entries ctx)) (contents s) (unat ro) = None)
      (load_slot_loop cfg ctx io i n scratch crc ro encoded s)"
  using assms(3-)
proof (induction n arbitrary: i scratch crc ro encoded s)
  case 0
  then show ?case by (intro disjI1 exI [of _ "[]"] exI [of _ ro] exI [of _ s]) simp
next
  case (Suc n)
  let ?es = "ctx_entries ctx" and ?c = "contents s"
  let ?parse = "\<lambda>i ro. parse_fields cfg (drop i ?es) ?c (unat ro)"
  have i: "i < length ?es" using Suc.prems(1) by simp
  have drop: "drop i ?es = ?es ! i # drop (Suc i) ?es" using i by (simp add: Cons_nth_drop_Suc)
  have "load_step_ok cfg ctx io contents inv i n scratch crc ro encoded s"
    by (rule load_entry_step [OF ok i Suc.prems(2-5) small])
  then consider (go) v ro1 encoded' s1 where "parse_entry cfg (?es ! i) ?c (unat ro) = Some (v, unat ro1)"
      "length encoded' = 4" "inv s1" "contents s1 = ?c"
      "load_slot_loop cfg ctx io i (Suc n) scratch crc ro encoded s =
       load_slot_loop cfg ctx io (Suc i) n (field_put ?es scratch i v)
         (crc_bytes crc (chunk ?c (unat ro) (unat ro1 - unat ro))) ro1 encoded' s1"
    | (stop) "reader_stops io contents inv ?c (length scratch) (parse_entry cfg (?es ! i) ?c (unat ro) = None)
       (load_slot_loop cfg ctx io i (Suc n) scratch crc ro encoded s)"
    unfolding load_step_ok_def by blast
  then show ?case
  proof cases
    case stop
    then show ?thesis by (intro disjI2) (erule reader_stops_mono, simp add: drop)
  next
    case go
    have bounds: "unat ro \<le> unat ro1" "unat ro1 \<le> length ?c"
      using parse_entry_bounds [OF go(1) Suc.prems(5)] by auto
    have "length v = unat (entry_size (?es ! i))"
      using parse_entry_length [OF go(1) ctx_entry_ok [OF ok i]] .
    then have len: "length (field_put ?es scratch i v) = length scratch"
      using length_field_put [of ?es scratch i v] ctx_layout [OF ok] Suc.prems(3) i by simp
    have pre: "Suc i + n = length ?es" "inv s1" "length (field_put ?es scratch i v) = length (ctx_bytes ctx)"
      "length encoded' = 4" "unat ro1 \<le> length (contents s1)"
      using go(2-4) len Suc.prems bounds by simp_all
    from Suc.IH [OF pre, of "crc_bytes crc (chunk ?c (unat ro) (unat ro1 - unat ro))"] show ?thesis
      unfolding go(4,5)
    proof (elim disjE exE conjE, goal_cases)
      case (1 vs ro' s')
      then have "unat ro1 \<le> unat ro'" "unat ro' \<le> length ?c"
        using parse_fields_bounds [of cfg "drop (Suc i) ?es" ?c "unat ro1" vs "unat ro'"] bounds go(4) by auto
      then have "crc_bytes (crc_bytes crc (chunk ?c (unat ro) (unat ro1 - unat ro)))
          (chunk ?c (unat ro1) (unat ro' - unat ro1)) = crc_bytes crc (chunk ?c (unat ro) (unat ro' - unat ro))"
        using chunk_append [of "unat ro" "unat ro1 - unat ro" "unat ro' - unat ro1" ?c] bounds
        by (simp add: crc_bytes_append [symmetric])
      with 1 show ?case
        by (intro disjI1 exI [of _ "v # vs"] exI [of _ ro'] exI [of _ s']) (simp add: drop go(1))
    next
      case 2
      then show ?case
        unfolding len by (intro disjI2) (erule reader_stops_mono, simp add: drop go(1))
    qed
  qed
qed

end

section \<open>A slot\<close>

text \<open>What a slot of the medium holds: its header and the data object that its payload stands for.\<close>

definition slot_record ::
  "mconf_config \<Rightarrow> mconf_ctx \<Rightarrow> 's mconf_io \<Rightarrow> byte list \<Rightarrow> size_t \<Rightarrow> bool \<Rightarrow>
    (mconf_record_info \<times> byte list) option" where
  "slot_record cfg ctx io c slot committed =
     do { info \<leftarrow> snd (slot_header ctx io c slot committed);
          (vs, off) \<leftarrow> parse_fields cfg (ctx_entries ctx) c (slot_offset io slot + 32);
          let d = put_fields (ctx_entries ctx) 0 vs (replicate (length (ctx_bytes ctx)) 0);
          let p = chunk c (slot_offset io slot + 32) (off - (slot_offset io slot + 32));
          if length p = unat (info_payload_length info) \<and> crc32_of p = info_payload_crc32 info \<and>
             data_valid cfg (ctx_entries ctx) d
          then Some (info, d) else None }"

lemma slot_record_valid:
  assumes ok: "ctx_ok cfg ctx" and "slot_record cfg ctx io c slot committed = Some (info, d)"
  shows "length d = length (ctx_bytes ctx)" and "data_valid cfg (ctx_entries ctx) d"
    and "snd (slot_header ctx io c slot committed) = Some info"
proof -
  from assms(2) obtain vs off where p: "parse_fields cfg (ctx_entries ctx) c (slot_offset io slot + 32) = Some (vs, off)"
    and d: "d = put_fields (ctx_entries ctx) 0 vs (replicate (length (ctx_bytes ctx)) 0)"
    and "data_valid cfg (ctx_entries ctx) d" "snd (slot_header ctx io c slot committed) = Some info"
    by (auto simp: slot_record_def bind_Some_iff Let_def split: if_splits)
  then show "data_valid cfg (ctx_entries ctx) d" "snd (slot_header ctx io c slot committed) = Some info" by auto
  have "\<forall>e \<in> set (ctx_entries ctx). entry_ok cfg (ctx_data_size ctx) e"
    using ctx_entry_ok [OF ok] by (auto simp: in_set_conv_nth)
  note vs = parse_fields_values [OF p this]
  show "length d = length (ctx_bytes ctx)"
    using put_fields_facts [of "ctx_entries ctx" "replicate (length (ctx_bytes ctx)) 0" 0 vs] vs ctx_layout [OF ok]
    by (simp add: d)
qed

context storage_backend
begin

lemma load_slot_eq:
  assumes ok: "ctx_ok cfg ctx" and fits: "io_fits io ctx" and slot: "slot \<in> {0, 1}" and s: "inv s"
    and buf: "length buffer = length (ctx_bytes ctx)"
  obtains err info d s' where
    "mconf_load_slot_into_buffer cfg ctx io slot buffer committed s = Some (err, info, d, s')"
    "length d = length (ctx_bytes ctx)" "inv s'" "contents s' = contents s"
    "(err = MCONF_OK \<and> info \<noteq> None \<and>
        slot_record cfg ctx io (contents s) slot committed = Some (the info, d)) \<or>
     (err \<noteq> MCONF_OK \<and>
        (read_fault io contents inv \<or> slot_record cfg ctx io (contents s) slot committed = None))"
proof -
  let ?es = "ctx_entries ctx" and ?c = "contents s" and ?z = "replicate (length (ctx_bytes ctx)) (0 :: byte)"
  let ?po = "slot * slot_size io + MCONF_STORAGE_HEADER_SIZE"
  obtain sch where sch: "ctx_schema ctx = Some sch" "unat (ctx_data_size ctx) = length (ctx_bytes ctx)"
    using ok by (elim ctx_okE) auto
  have small: "unat (storage_size io) + 2 * length (ctx_bytes ctx) < 2 ^ 64" and room: "32 \<le> unat (slot_size io)"
    using fits by (auto simp: io_fits_def)
  have po: "unat ?po = slot_offset io slot + 32" "unat ?po \<le> length ?c"
    using unat_slot_plus [OF fits slot, of 32] slot_arith(2) [OF fits slot] room contents_size [OF s] by auto
  obtain perr pinfo s1 where probe: "mconf_probe_slot_header ctx io s slot committed = Some (perr, pinfo, s1)"
    "inv s1" "contents s1 = ?c" "(perr, pinfo) = slot_header ctx io ?c slot committed \<or>
       (read_fault io contents inv \<and> perr = MCONF_ERR_IO \<and> pinfo = None)"
    "perr = MCONF_OK \<longleftrightarrow> pinfo \<noteq> None"
    by (rule probe_eq [OF s fits slot sch(1)])
  show thesis
  proof (cases "perr = MCONF_OK")
    case False
    then have "read_fault io contents inv \<or> snd (slot_header ctx io ?c slot committed) = None"
      using probe(4,5) by (metis snd_conv)
    with False probe buf show thesis
      by (intro that [of perr None buffer s1]) (auto simp: mconf_load_slot_into_buffer_def slot_record_def)
  next
    case True
    then have sh: "(MCONF_OK, pinfo) = slot_header ctx io ?c slot committed" using probe(4) by auto
    obtain info where info: "pinfo = Some info" using probe(5) True by auto
    with sh have hdr: "snd (slot_header ctx io ?c slot committed) = Some info" by (metis snd_conv)
    have zero: "mem_write buffer 0 (replicate (unat (ctx_data_size ctx)) 0) = Some ?z"
      using buf sch(2) by (simp add: mem_simps patch_def)
    have n: "0 + unat (entry_count sch) = length ?es" using ctx_length_entries [OF ok sch(1)] by simp
    have po1: "unat ?po \<le> length (contents s1)" using po probe(3) by simp
    let ?loop = "load_slot_loop cfg ctx io 0 (unat (entry_count sch)) ?z 0xFFFFFFFF ?po (replicate 4 0) s1"
    have load: "mconf_load_slot_into_buffer cfg ctx io slot buffer committed s =
      do { (err, scratch, crc, ro, s) \<leftarrow> ?loop;
           if err \<noteq> MCONF_OK then Some (err, None, scratch, s)
           else if ro - ?po \<noteq> ucast (info_payload_length info) then Some (MCONF_ERR_SIZE, None, scratch, s)
           else if mconf_crc32_finalize crc \<noteq> info_payload_crc32 info
           then Some (MCONF_ERR_CRC, None, scratch, s)
           else do { err \<leftarrow> mconf_validate_data cfg (Some ctx) (Some scratch);
                     if err \<noteq> MCONF_OK then Some (MCONF_ERR_INVALID, None, scratch, s)
                     else Some (MCONF_OK, Some info, scratch, s) } }"
      using probe(1) True info zero by (simp add: mconf_load_slot_into_buffer_def sch(1) Let_def)
    have "length ?z = length (ctx_bytes ctx)" "length (replicate 4 (0::byte)) = 4" by simp_all
    from load_slot_loop_eq [OF ok small n probe(2) this po1, of "0xFFFFFFFF", folded probe(3)]
    consider (found) vs ro s2 where "parse_fields cfg ?es ?c (slot_offset io slot + 32) = Some (vs, unat ro)"
        "inv s2" "contents s2 = ?c"
        "?loop = Some (MCONF_OK, put_fields ?es 0 vs ?z,
           crc_bytes 0xFFFFFFFF (chunk ?c (slot_offset io slot + 32) (unat ro - (slot_offset io slot + 32))), ro, s2)"
      | (stop) "reader_stops io contents inv ?c (length ?z)
          (parse_fields cfg ?es ?c (slot_offset io slot + 32) = None) ?loop"
      unfolding po(1) probe(3) by auto
    then show thesis
    proof cases
      case stop
      then obtain err scratch crc ro s2 where "?loop = Some (err, scratch, crc, ro, s2)" "err \<noteq> MCONF_OK"
        "length scratch = length (ctx_bytes ctx)" "inv s2" "contents s2 = ?c"
        "read_fault io contents inv \<or> parse_fields cfg ?es ?c (slot_offset io slot + 32) = None"
        by (auto simp: reader_stops_def)
      then show thesis
        by (intro that [of err None scratch s2]) (auto simp: load slot_record_def hdr)
    next
      case found
      let ?q = "slot_offset io slot + 32" and ?d = "put_fields ?es 0 vs ?z"
      have bounds: "?q \<le> unat ro" "unat ro \<le> length ?c"
        using parse_fields_bounds [OF found(1)] po by auto
      have "unat (ro - ?po) = unat ro - ?q"
        using bounds(1) po(1) by (simp add: unat_sub word_le_nat_alt)
      then have diff: "ro - ?po = ucast l \<longleftrightarrow> unat ro - ?q = unat l" for l :: uint32
        by (metis word_unat_eq_iff unat_ucast_32)
      have "\<forall>e \<in> set ?es. entry_ok cfg (ctx_data_size ctx) e"
        using ctx_entry_ok [OF ok] by (auto simp: in_set_conv_nth)
      note vs = parse_fields_values [OF found(1) this]
      have len: "length ?d = length (ctx_bytes ctx)"
        using put_fields_facts [of ?es ?z 0 vs] vs ctx_layout [OF ok] by simp
      note valid = validate_data_eq [OF ok len] validate_data_OK_iff [OF ok len]
      let ?A = "unat ro - ?q = unat (info_payload_length info)"
        and ?B = "crc32_of (chunk ?c ?q (unat ro - ?q)) = info_payload_crc32 info" and ?V = "data_valid cfg ?es ?d"
      have res: "mconf_load_slot_into_buffer cfg ctx io slot buffer committed s =
        Some (if \<not> ?A then MCONF_ERR_SIZE else if \<not> ?B then MCONF_ERR_CRC else if \<not> ?V then MCONF_ERR_INVALID
              else MCONF_OK, if ?A \<and> ?B \<and> ?V then Some info else None, ?d, s2)"
        using valid by (auto simp: load found(4) diff crc32_of_def)
      have "slot_record cfg ctx io ?c slot committed = (if ?A \<and> ?B \<and> ?V then Some (info, ?d) else None)"
        using bounds by (simp add: slot_record_def hdr found(1) Let_def)
      then show thesis by (intro that [OF res len found(2,3)]) simp
    qed
  qed
qed

end

context readable_backend
begin

lemma load_slot_exact:
  assumes "ctx_ok cfg ctx" and "io_fits io ctx" and "slot \<in> {0, 1}"
    and "inv s" and "length buffer = length (ctx_bytes ctx)"
  shows "\<exists>err info d s'. mconf_load_slot_into_buffer cfg ctx io slot buffer committed s = Some (err, info, d, s') \<and>
    length d = length buffer \<and> inv s' \<and> contents s' = contents s \<and>
    (case slot_record cfg ctx io (contents s) slot committed of
       Some (i, d') \<Rightarrow> err = MCONF_OK \<and> info = Some i \<and> d = d'
     | None \<Rightarrow> err \<noteq> MCONF_OK)"
  by (rule load_slot_eq [OF assms, of committed])
     (use assms(5) no_read_fault in \<open>auto split: option.splits\<close>)

end

section \<open>Properties\<close>

text \<open>
  C14. The streaming reader is the parser: on a backend whose reads succeed,
  \<open>mconf_load_slot_into_buffer\<close> reports success exactly for the slots that \<open>slot_record\<close> accepts (header
  checks, a payload that parses to the end, matching length and CRC, valid values) and then delivers
  exactly that record, whatever the buffer held before. It never writes to the medium or outside the
  buffer.
\<close>

theorem slot_reader_exact:
  assumes "readable_backend io contents ok" and "ctx_ok cfg ctx" and "io_fits io ctx" and "slot \<in> {0, 1}"
    and "ok s" and "length buffer = length (ctx_bytes ctx)"
  shows "\<exists>err info d s'. mconf_load_slot_into_buffer cfg ctx io slot buffer committed s = Some (err, info, d, s') \<and>
    length d = length buffer \<and> ok s' \<and> contents s' = contents s \<and>
    (case slot_record cfg ctx io (contents s) slot committed of
       Some (i, d') \<Rightarrow> err = MCONF_OK \<and> info = Some i \<and> d = d'
     | None \<Rightarrow> err \<noteq> MCONF_OK)"
  by (rule readable_backend.load_slot_exact [OF assms])

theorem slot_reader_exact_witness:
  "\<exists>err info d s'. mconf_load_slot_into_buffer default_config demo_ctx fake_io 1 (replicate 20 5) True fresh_store =
      Some (err, info, d, s') \<and> length d = length (replicate 20 (5 :: byte)) \<and> fake_inv s' \<and> fs_bytes s' = fs_bytes fresh_store \<and>
    (case slot_record default_config demo_ctx fake_io (fs_bytes fresh_store) 1 True of
       Some (i, d') \<Rightarrow> err = MCONF_OK \<and> info = Some i \<and> d = d'
     | None \<Rightarrow> err \<noteq> MCONF_OK)"
  by (rule slot_reader_exact [OF fake.readable_backend_axioms demo_ctx_ok demo_io_fits])
     (simp_all add: fake_inv_def fresh_store_def)

end
