(* ===== verification/Mconf_Writer.thy ===== *)
theory Mconf_Writer
  imports Mconf_Slot
begin

text \<open>
  The writer of a payload (\<open>mconf_serialize_payload_to_storage\<close>): on any backend that meets the
  contract it writes exactly the byte string \<open>payload\<close> of Mconf_Payload at its base offset, or it
  reports an error and has changed no byte outside that range.
\<close>

text \<open>How the writer may end with an error.\<close>

definition writer_stops ::
  "'s mconf_io \<Rightarrow> ('s \<Rightarrow> byte list) \<Rightarrow> ('s \<Rightarrow> bool) \<Rightarrow> byte list \<Rightarrow> nat \<Rightarrow> nat \<Rightarrow>
    (mconf_err \<times> 's) option \<Rightarrow> bool" where
  "writer_stops io contents ok c off n res \<longleftrightarrow>
     (\<exists>s. res = Some (MCONF_ERR_IO, s) \<and> ok s \<and> same_outside c (contents s) off n \<and>
        write_fault io contents ok)"

lemma writer_stops_mono:
  "writer_stops io contents ok c off n res \<Longrightarrow> n \<le> n' \<Longrightarrow> writer_stops io contents ok c off n' res"
  unfolding writer_stops_def by (blast intro: same_outside_mono [OF _ order_refl] add_left_mono)

lemma writer_stops_later:
  assumes "writer_stops io contents ok (patch c off p) (off + length p) n res"
    and "off + length p \<le> length c"
  shows "writer_stops io contents ok c off (length p + n) res"
proof -
  obtain s where s: "res = Some (MCONF_ERR_IO, s)" "ok s" "write_fault io contents ok"
    "same_outside (patch c off p) (contents s) (off + length p) n"
    using assms(1) by (auto simp: writer_stops_def)
  have "same_outside c (contents s) off (length p + n)"
    by (rule same_outside_trans [of _ "patch c off p"])
       (rule same_outside_mono [OF same_outside_patch [OF assms(2)]],
        auto intro: same_outside_mono [OF s(4)])
  with s show ?thesis by (auto simp: writer_stops_def)
qed

context storage_backend
begin

text \<open>One write, for a step of a loop.\<close>

lemma write_or_stop:
  assumes "inv s" and "unat off + length bs \<le> length (contents s)"
  shows "(\<exists>s'. mconf_io_write_exact io s off bs = Some (MCONF_OK, s') \<and> inv s' \<and>
      contents s' = patch (contents s) (unat off) bs) \<or>
    writer_stops io contents inv (contents s) (unat off) (length bs) (mconf_io_write_exact io s off bs)"
  by (rule write_exact [OF assms]) (auto simp: writer_stops_def)

lemma serialize_string_step:
  assumes ok: "ctx_ok cfg ctx" and valid: "data_valid cfg (ctx_entries ctx) (ctx_bytes ctx)"
    and i: "i < length (ctx_entries ctx)" and str: "entry_type (ctx_entries ctx ! i) = MCONF_TYPE_STRING"
    and s: "inv s"
    and p: "p = entry_payload cfg (ctx_entries ctx ! i) (field_get (ctx_entries ctx) (ctx_bytes ctx) i)"
    and room: "unat off + length p \<le> length (contents s)" and enc: "length encoded = 4"
  shows "(\<exists>encoded' s'. serialize_loop cfg ctx io (ctx_bytes ctx) i (Suc n) off encoded s =
      serialize_loop cfg ctx io (ctx_bytes ctx) (Suc i) n (off + of_nat (length p)) encoded' s' \<and>
      length encoded' = 4 \<and> inv s' \<and> contents s' = patch (contents s) (unat off) p) \<or>
    writer_stops io contents inv (contents s) (unat off) (length p)
      (serialize_loop cfg ctx io (ctx_bytes ctx) i (Suc n) off encoded s)"
    (is "?go \<or> ?stop")
proof -
  let ?e = "ctx_entries ctx ! i" and ?d = "ctx_bytes ctx"
  let ?bs = "chunk ?d (unat (offset ?e)) (unat (entry_size ?e))"
  note f = ctx_field_facts [OF ok valid i, unfolded field_get_def]
  define l where "l = c_strlen ?bs"
  let ?le = "mconf_write_u16_le (of_nat l)" and ?tk = "chunk ?d (unat (offset ?e)) l"
  have l: "l < unat (entry_size ?e)"
    using f(2,3) str c_strlen_less_iff [of ?bs] by (simp add: value_ok_def l_def)
  then have ul: "unat (of_nat l :: size_t) = l"
    using size_t_bound [of "entry_size ?e"] by (intro unat_of_nat_size) simp
  have p': "p = ?le @ ?tk" "length p = 2 + l"
    using l f(4) by (auto simp: p field_get_def entry_payload_def str l_def take_chunk)
  have val: "mconf_validate_string_bytes ?d (unat (offset ?e)) (entry_size ?e) (Some 0) =
      Some (MCONF_OK, Some (of_nat l))"
    using f(1,2,4) str by (simp add: mem_simps value_ok_def entry_ok_def l_def)
  have rd: "mem_read ?d (unat (offset ?e)) l = Some ?tk" using l f(4) by (simp add: mem_simps)
  have size: "length (contents s) < 2 ^ 64"
    using contents_size [OF s] size_t_bound [of "storage_size io"] by simp
  have off: "unat (off + 2) = unat off + 2" "off + of_nat (length p) = off + 2 + of_nat l"
    using room p'(2) size by (simp_all add: unat_add_no_wrap)
  note loop = entry_at_eq [OF ok i] mconf_field_ptr_def Let_def str val length_bytes_of_nat
  have r1: "unat off + length ?le \<le> length (contents s)" using room p'(2) by simp
  from write_or_stop [OF s r1] show ?thesis
  proof (elim disjE exE conjE)
    assume stop: "writer_stops io contents inv (contents s) (unat off) (length ?le) (mconf_io_write_exact io s off ?le)"
    from writer_stops_mono [OF stop, of "length p"] p'(2) have ?stop
      by (auto simp: loop writer_stops_def)
    then show ?thesis ..
  next
    fix s1
    assume w1: "mconf_io_write_exact io s off ?le = Some (MCONF_OK, s1)" "inv s1"
      "contents s1 = patch (contents s) (unat off) ?le"
    show ?thesis
    proof (cases "l = 0")
      case True
      with w1 enc p' off have ?go
        by (intro exI [of _ encoded] exI [of _ s1]) (simp add: loop)
      then show ?thesis ..
    next
      case False
      then have nz: "(of_nat l :: size_t) \<noteq> 0" using ul by (metis unat_0)
      have r2: "unat (off + 2) + length ?tk \<le> length (contents s1)"
        using room p' l f(4) off(1) w1(3) r1 by simp
      have joint: "patch (patch (contents s) (unat off) ?le) (unat off + 2) ?tk = patch (contents s) (unat off) p"
        using patch_append [of "unat off" ?le ?tk "contents s"] room p'(1) by simp
      from write_or_stop [OF w1(2) r2] show ?thesis
      proof (elim disjE exE conjE)
        fix s2
        assume "mconf_io_write_exact io s1 (off + 2) ?tk = Some (MCONF_OK, s2)" "inv s2"
          "contents s2 = patch (contents s1) (unat (off + 2)) ?tk"
        with w1 enc off joint nz ul rd have ?go
          by (intro exI [of _ encoded] exI [of _ s2]) (simp add: loop add.assoc)
        then show ?thesis ..
      next
        assume "writer_stops io contents inv (contents s1) (unat (off + 2)) (length ?tk)
          (mconf_io_write_exact io s1 (off + 2) ?tk)"
        then have "writer_stops io contents inv (contents s) (unat off) (length p)
            (mconf_io_write_exact io s1 (off + 2) ?tk)"
          using writer_stops_later [of io contents inv "contents s" "unat off" ?le "length ?tk"] r1 w1(3) off(1) p'
          by simp
        then have ?stop using w1 nz ul rd by (auto simp: loop writer_stops_def)
        then show ?thesis ..
      qed
    qed
  qed
qed

lemma serialize_step:
  assumes ok: "ctx_ok cfg ctx" and valid: "data_valid cfg (ctx_entries ctx) (ctx_bytes ctx)"
    and i: "i < length (ctx_entries ctx)" and st: "storable cfg (ctx_entries ctx ! i)" and s: "inv s"
    and p: "p = entry_payload cfg (ctx_entries ctx ! i) (field_get (ctx_entries ctx) (ctx_bytes ctx) i)"
    and room: "unat off + length p \<le> length (contents s)" and enc: "length encoded = 4"
  shows "(\<exists>encoded' s'. serialize_loop cfg ctx io (ctx_bytes ctx) i (Suc n) off encoded s =
      serialize_loop cfg ctx io (ctx_bytes ctx) (Suc i) n (off + of_nat (length p)) encoded' s' \<and>
      length encoded' = 4 \<and> inv s' \<and> contents s' = patch (contents s) (unat off) p) \<or>
    writer_stops io contents inv (contents s) (unat off) (length p)
      (serialize_loop cfg ctx io (ctx_bytes ctx) i (Suc n) off encoded s)"
    (is "?go \<or> ?stop")
proof -
  let ?e = "ctx_entries ctx ! i" and ?d = "ctx_bytes ctx"
  let ?bs = "chunk ?d (unat (offset ?e)) (unat (entry_size ?e))"
  note f = ctx_field_facts [OF ok valid i, unfolded field_get_def]
  have p': "p = entry_payload cfg ?e ?bs" using p by (simp add: field_get_def)
  have size: "length (contents s) < 2 ^ 64"
    using contents_size [OF s] size_t_bound [of "storage_size io"] by simp
  note loop = entry_at_eq [OF ok i] mconf_field_ptr_def Let_def mem_simps
  consider (str) "entry_type ?e = MCONF_TYPE_STRING" | (blob) "entry_type ?e = MCONF_TYPE_BLOB"
    | (scal) "scalar_ok cfg (entry_type ?e)" using st by (auto simp: storable_def)
  then show ?thesis
  proof cases
    case blob
    then show ?thesis
      using write_or_stop [OF s room] f(3,4) enc p'
      by (auto simp: loop entry_payload_def writer_stops_def)
  next
    case scal
    then have sz: "entry_size ?e = mconf_expected_type_size (entry_type ?e)"
      and ty: "entry_type ?e \<noteq> MCONF_TYPE_STRING" "entry_type ?e \<noteq> MCONF_TYPE_BLOB"
      using f(1) by (auto simp: entry_ok_def scalar_ok_def scalar_type_cases)
    have len: "length p = unat (entry_size ?e)" "length p \<le> 4"
      using p' ty f(3) sz scalar_size_le_4 [of "entry_type ?e"] by (auto simp: entry_payload_def)
    have "mconf_encode_field_bytes cfg ?e ?d (unat (offset ?e)) encoded 0 =
        Some (MCONF_OK, patch encoded 0 p, of_nat (length p))"
      using encode_scalar [OF scal sz f(4) enc] ty len by (simp add: p' entry_payload_def)
    moreover have "unat (of_nat (length p) :: size_t) = length p" "length (patch encoded 0 p) = 4"
      "chunk (patch encoded 0 p) 0 (length p) = p"
      using len enc by (simp_all add: chunk_patch_eq)
    ultimately show ?thesis
      using write_or_stop [OF s room] ty len
      by (auto simp: loop writer_stops_def)
  next
    case str
    from serialize_string_step [OF ok valid i str s p room enc] show ?thesis .
  qed
qed

lemma serialize_loop_eq:
  assumes ok: "ctx_ok cfg ctx" and valid: "data_valid cfg (ctx_entries ctx) (ctx_bytes ctx)"
    and "i + n = length (ctx_entries ctx)"
    and "\<forall>k < length (ctx_entries ctx). storable cfg (ctx_entries ctx ! k)" and "inv s"
    and "unat off + length (payload_from cfg (ctx_entries ctx) (ctx_bytes ctx) i) \<le> length (contents s)"
    and "length encoded = 4"
  shows "(\<exists>s'. serialize_loop cfg ctx io (ctx_bytes ctx) i n off encoded s = Some (MCONF_OK, s') \<and> inv s' \<and>
      contents s' = patch (contents s) (unat off) (payload_from cfg (ctx_entries ctx) (ctx_bytes ctx) i)) \<or>
    writer_stops io contents inv (contents s) (unat off)
      (length (payload_from cfg (ctx_entries ctx) (ctx_bytes ctx) i))
      (serialize_loop cfg ctx io (ctx_bytes ctx) i n off encoded s)"
  using assms(3-)
proof (induction n arbitrary: i off encoded s)
  case 0
  then show ?case by simp
next
  case (Suc n)
  let ?es = "ctx_entries ctx" and ?d = "ctx_bytes ctx"
  let ?p = "entry_payload cfg (?es ! i) (field_get ?es ?d i)" and ?rest = "payload_from cfg ?es ?d (Suc i)"
  have i: "i < length ?es" and st: "storable cfg (?es ! i)" using Suc.prems(1,2) by simp_all
  have split: "payload_from cfg ?es ?d i = ?p @ ?rest" by (rule payload_from_Cons [OF i])
  have room: "unat off + length ?p + length ?rest \<le> length (contents s)"
    using Suc.prems(4) by (simp add: split)
  then have off: "unat (off + of_nat (length ?p)) = unat off + length ?p"
    using contents_size [OF Suc.prems(3)] size_t_bound [of "storage_size io"]
    by (simp add: unat_add_no_wrap unat_of_nat_size)
  have room1: "unat off + length ?p \<le> length (contents s)" using room by simp
  from serialize_step [OF ok valid i st Suc.prems(3) refl room1 Suc.prems(5), of n] show ?case
  proof (elim disjE exE conjE)
    assume "writer_stops io contents inv (contents s) (unat off) (length ?p)
      (serialize_loop cfg ctx io ?d i (Suc n) off encoded s)"
    then show ?thesis by (intro disjI2) (erule writer_stops_mono, simp add: split)
  next
    fix encoded' s1
    assume step: "serialize_loop cfg ctx io ?d i (Suc n) off encoded s =
        serialize_loop cfg ctx io ?d (Suc i) n (off + of_nat (length ?p)) encoded' s1"
      and s1: "length encoded' = 4" "inv s1" "contents s1 = patch (contents s) (unat off) ?p"
    have len: "length (contents s1) = length (contents s)" using s1(3) room1 by simp
    have joint: "patch (contents s1) (unat off + length ?p) ?rest = patch (contents s) (unat off) (?p @ ?rest)"
      using patch_append [of "unat off" ?p ?rest "contents s"] room s1(3) by simp
    show ?thesis
      unfolding step split
      using Suc.IH [of "Suc i" s1 "off + of_nat (length ?p)" encoded'] Suc.prems s1 len off room joint
        writer_stops_later [of io contents inv "contents s" "unat off" ?p "length ?rest"]
      by simp blast
  qed
qed

lemma serialize_payload_eq:
  assumes ok: "ctx_ok cfg ctx" and sv: "saveable cfg ctx" and s: "inv s"
    and room: "unat base + length (ctx_payload cfg ctx) \<le> length (contents s)"
  shows "(\<exists>s'. mconf_serialize_payload_to_storage cfg ctx io base s = Some (MCONF_OK, s') \<and> inv s' \<and>
      contents s' = patch (contents s) (unat base) (ctx_payload cfg ctx)) \<or>
    writer_stops io contents inv (contents s) (unat base) (length (ctx_payload cfg ctx))
      (mconf_serialize_payload_to_storage cfg ctx io base s)"
proof -
  obtain sch where sch: "ctx_schema ctx = Some sch" using ok by (elim ctx_okE) auto
  show ?thesis
    using serialize_loop_eq [OF ok, of 0 "unat (entry_count sch)" s base "replicate 4 0"] sv s room
      ctx_length_entries [OF ok sch]
    by (simp add: mconf_serialize_payload_to_storage_def sch ctx_data_bytes [OF ok] saveable_def payload_def)
qed

end

section \<open>Properties\<close>

text \<open>
  C15. \<open>mconf_serialize_payload_to_storage\<close> writes exactly the payload at its offset and nothing else when it
  reports success; when it stops at a failing write the medium has changed only where the payload goes.
\<close>

theorem payload_writer_exact:
  assumes "storage_backend io contents ok" and "ctx_ok cfg ctx" and "saveable cfg ctx" and "ok s"
    and "unat base + length (ctx_payload cfg ctx) \<le> length (contents s)"
  shows "\<exists>err s'. mconf_serialize_payload_to_storage cfg ctx io base s = Some (err, s') \<and> ok s' \<and>
    same_outside (contents s) (contents s') (unat base) (length (ctx_payload cfg ctx)) \<and>
    (if err = MCONF_OK then contents s' = patch (contents s) (unat base) (ctx_payload cfg ctx)
     else err = MCONF_ERR_IO \<and> write_fault io contents ok)"
  using storage_backend.serialize_payload_eq [OF assms] same_outside_patch [OF assms(5)]
  by (auto simp: writer_stops_def)

theorem payload_writer_exact_witness:
  "\<exists>err s'. mconf_serialize_payload_to_storage default_config demo_ctx fake_io 160 fresh_store = Some (err, s') \<and> fake_inv s' \<and>
    same_outside (fs_bytes fresh_store) (fs_bytes s') (unat (160 :: size_t)) (length (ctx_payload default_config demo_ctx)) \<and>
    (if err = MCONF_OK then fs_bytes s' = patch (fs_bytes fresh_store) (unat (160 :: size_t)) (ctx_payload default_config demo_ctx)
     else err = MCONF_ERR_IO \<and> write_fault fake_io fs_bytes fake_inv)"
  by (rule payload_writer_exact [OF fake.storage_backend_axioms demo_ctx_ok demo_saveable])
     (simp_all add: fake_inv_def fresh_store_def demo_payload)

end
