(* ===== verification/Mconf_Record.thy ===== *)
theory Mconf_Record
  imports Mconf_Reader Mconf_Writer
begin

text \<open>
  Round trip of a record: a slot that holds the header and the payload of a context reads back as the
  canonical form of its data, in which the bytes after the NUL of a string and between the fields are
  zero. Every field keeps its value.
\<close>

section \<open>Canonical form\<close>

definition canonical_field :: "mconf_entry \<Rightarrow> byte list \<Rightarrow> byte list" where
  "canonical_field e bs =
     (if entry_type e = MCONF_TYPE_STRING
      then take (c_strlen bs) bs @ replicate (unat (entry_size e) - c_strlen bs) 0 else bs)"

text \<open>The data of a context after a save, and of any context that loads what was saved.\<close>

definition saved_image :: "mconf_ctx \<Rightarrow> byte list" where
  "saved_image ctx =
     put_fields (ctx_entries ctx) 0
       (map (\<lambda>k. canonical_field (ctx_entries ctx ! k) (ctx_field ctx k)) [0..<length (ctx_entries ctx)])
       (replicate (length (ctx_bytes ctx)) 0)"

lemma length_canonical_field:
  "length bs = unat (entry_size e) \<Longrightarrow> length (canonical_field e bs) = unat (entry_size e)"
  using c_strlen_le [of bs] by (simp add: canonical_field_def)

lemma canonical_value_ok:
  assumes "value_ok e bs" and "length bs = unat (entry_size e)"
  shows "value_ok e (canonical_field e bs)"
  using assms c_strlen_less_iff [of bs] by (auto simp: value_ok_def canonical_field_def)

text \<open>The string that a field holds is not changed.\<close>

lemma c_strlen_canonical:
  assumes "0 \<in> set bs" and "length bs = unat (entry_size e)" and "entry_type e = MCONF_TYPE_STRING"
  shows "c_strlen (canonical_field e bs) = c_strlen bs"
    and "take (c_strlen bs) (canonical_field e bs) = take (c_strlen bs) bs"
proof -
  have lt: "c_strlen bs < unat (entry_size e)" using c_strlen_less_iff [of bs] assms by simp
  have "length (take (c_strlen bs) bs) = c_strlen bs" using c_strlen_le [of bs] by simp
  then show "c_strlen (canonical_field e bs) = c_strlen bs"
    using c_strlen_append_zeros [OF take_c_strlen_no_nul] assms(3) by (simp add: canonical_field_def)
  show "take (c_strlen bs) (canonical_field e bs) = take (c_strlen bs) bs"
    using c_strlen_le [of bs] assms(3) by (simp add: canonical_field_def)
qed

lemma saved_image_fields:
  assumes "ctx_ok cfg ctx"
  shows "length (saved_image ctx) = length (ctx_bytes ctx)"
    and "k < length (ctx_entries ctx) \<Longrightarrow>
      field_get (ctx_entries ctx) (saved_image ctx) k = canonical_field (ctx_entries ctx ! k) (ctx_field ctx k)"
  using put_fields_facts [of "ctx_entries ctx" "replicate (length (ctx_bytes ctx)) 0" 0
      "map (\<lambda>k. canonical_field (ctx_entries ctx ! k) (ctx_field ctx k)) [0..<length (ctx_entries ctx)]"]
    ctx_layout [OF assms] ctx_field_length [OF assms] length_canonical_field
  by (simp_all add: saved_image_def)

lemma saved_image_valid:
  assumes ok: "ctx_ok cfg ctx" and "data_valid cfg (ctx_entries ctx) (ctx_bytes ctx)"
  shows "data_valid cfg (ctx_entries ctx) (saved_image ctx)"
  using assms ctx_field_length [OF ok] canonical_value_ok saved_image_fields(2) [OF ok]
  by (auto simp: data_valid_def field_error_OK_iff ctx_field_def)

section \<open>Parsing undoes serialising\<close>

lemma chunk_split:
  assumes "off + length (xs @ ys) \<le> length c" and "chunk c off (length (xs @ ys)) = xs @ ys"
  shows "chunk c off (length xs) = xs" and "chunk c (off + length xs) (length ys) = ys"
  using assms chunk_append [of off "length xs" "length ys" c] by (auto simp: append_eq_append_conv)

lemma parse_entry_payload:
  assumes e: "entry_ok cfg n e" and st: "storable cfg e" and len: "length bs = unat (entry_size e)"
    and v: "value_ok e bs" and fits: "string_fits e bs"
    and p: "p = entry_payload cfg e bs" and at: "off + length p \<le> length c" "chunk c off (length p) = p"
  shows "parse_entry cfg e c off = Some (canonical_field e bs, off + length p)"
proof -
  note lp = length_entry_payload [OF e st len v, folded p]
  show ?thesis
  proof (cases "entry_type e = MCONF_TYPE_STRING")
    case True
    define l where "l = c_strlen bs"
    have l: "l < unat (entry_size e)" "l < 65536" "length p = 2 + l"
      using lp True v fits len c_strlen_less_iff [of bs]
      by (auto simp: l_def value_ok_def string_fits_def)
    have p': "p = mconf_write_u16_le (of_nat l) @ take l bs" using True by (simp add: p entry_payload_def l_def)
    have "chunk c off 2 = chunk p 0 2" "chunk c (off + 2) l = chunk p 2 l"
      using chunk_chunk [of 0 2 "length p" off c] chunk_chunk [of 2 l "length p" off c] at l(3) by simp_all
    moreover have "chunk p 0 2 = mconf_write_u16_le (of_nat l)" "chunk p 2 l = take l bs"
      using l len by (simp_all add: p' chunk_here chunk_skip) (simp_all add: chunk_def)
    moreover have "unat (of_nat l :: uint16) = l" using l(2) by (simp add: unat_of_nat)
    ultimately show ?thesis
      using True l at(1) by (simp add: parse_entry_def Let_def canonical_field_def l_def [symmetric])
  next
    case False
    then have len_p: "length p = unat (entry_size e)" using lp by simp
    show ?thesis
    proof (cases "entry_type e = MCONF_TYPE_BLOB")
      case True
      with False len_p at p st show ?thesis
        by (simp add: parse_entry_def canonical_field_def entry_payload_def not_less)
    next
      case blob: False
      then have "entry_size e = mconf_expected_type_size (entry_type e)"
        using e st False by (simp add: storable_def scalar_ok_def entry_ok_def)
      then have "scalar_decoding cfg (entry_type e) p = bs"
        using False blob p len by (simp add: entry_payload_def scalar_decode_encode)
      with False blob len_p at st show ?thesis
        by (simp add: parse_entry_def canonical_field_def not_less)
    qed
  qed
qed

lemma parse_fields_payload:
  assumes ok: "ctx_ok cfg ctx" and sv: "saveable cfg ctx"
    and fits: "\<forall>k < length (ctx_entries ctx). string_fits (ctx_entries ctx ! k) (ctx_field ctx k)"
    and "i \<le> length (ctx_entries ctx)"
    and "p = payload_from cfg (ctx_entries ctx) (ctx_bytes ctx) i"
    and "off + length p \<le> length c" and "chunk c off (length p) = p"
  shows "parse_fields cfg (drop i (ctx_entries ctx)) c off =
    Some (map (\<lambda>k. canonical_field (ctx_entries ctx ! k) (ctx_field ctx k)) [i..<length (ctx_entries ctx)],
          off + length p)"
  using assms(4-)
proof (induction i arbitrary: off p rule: inc_induct)
  case base
  then show ?case by simp
next
  case (step i)
  let ?es = "ctx_entries ctx" and ?d = "ctx_bytes ctx"
  let ?q = "entry_payload cfg (?es ! i) (field_get ?es ?d i)" and ?r = "payload_from cfg ?es ?d (Suc i)"
  note i = step.hyps(2)
  have valid: "data_valid cfg ?es ?d" and st: "storable cfg (?es ! i)"
    using sv i by (auto simp: saveable_def)
  note f = ctx_field_facts [OF ok valid i]
  have p: "p = ?q @ ?r" using step.prems(1) by (simp add: payload_from_Cons [OF i])
  have at: "chunk c off (length ?q) = ?q" "chunk c (off + length ?q) (length ?r) = ?r"
    using chunk_split [of off ?q ?r c] step.prems(2,3) p by simp_all
  have "parse_entry cfg (?es ! i) c off =
      Some (canonical_field (?es ! i) (field_get ?es ?d i), off + length ?q)"
    using parse_entry_payload [OF f(1) st f(3,2) _ refl _ at(1)] fits i step.prems(2) p
    by (simp add: ctx_field_def)
  moreover have "parse_fields cfg (drop (Suc i) ?es) c (off + length ?q) =
      Some (map (\<lambda>k. canonical_field (?es ! k) (ctx_field ctx k)) [Suc i..<length ?es],
            off + length ?q + length ?r)"
    using step.IH [OF refl _ at(2)] step.prems(2) p by simp
  moreover have "drop i ?es = ?es ! i # drop (Suc i) ?es" using i by (simp add: Cons_nth_drop_Suc)
  ultimately show ?case
    using p i by (simp add: upt_conv_Cons ctx_field_def)
qed

section \<open>The record of a slot\<close>

text \<open>What a save leaves at the start of its slot.\<close>

definition record_bytes :: "mconf_config \<Rightarrow> mconf_ctx \<Rightarrow> uint32 \<Rightarrow> byte \<Rightarrow> byte list" where
  "record_bytes cfg ctx g st =
     header_image ctx g (of_nat (length (ctx_payload cfg ctx))) (crc32_of (ctx_payload cfg ctx)) st @
     ctx_payload cfg ctx"

text \<open>
  What the format asks of a context: strings whose length fits 16 bits, a payload whose length fits
  32 bits and the slot, and a number of entries that fits 16 bits.
\<close>

definition record_fits :: "mconf_config \<Rightarrow> mconf_ctx \<Rightarrow> 's mconf_io \<Rightarrow> bool" where
  "record_fits cfg ctx io \<longleftrightarrow>
     (\<forall>k < length (ctx_entries ctx). string_fits (ctx_entries ctx ! k) (ctx_field ctx k)) \<and>
     length (ctx_payload cfg ctx) < 2 ^ 32 \<and>
     32 + length (ctx_payload cfg ctx) \<le> unat (slot_size io) \<and>
     length (ctx_entries ctx) < 2 ^ 16"

lemma record_fits_count:
  assumes "ctx_ok cfg ctx" and "ctx_schema ctx = Some sch" and "record_fits cfg ctx io"
  shows "entry_count sch \<le> 0xFFFF" and "ucast (ucast (entry_count sch) :: uint16) = entry_count sch"
proof -
  have n: "unat (entry_count sch) < 2 ^ 16"
    using assms ctx_length_entries [OF assms(1,2)] by (simp add: record_fits_def)
  then show "entry_count sch \<le> 0xFFFF" by (simp add: word_le_nat_alt)
  have "unat (ucast (entry_count sch) :: uint16) = unat (entry_count sch)"
    using n by (simp add: unsigned_ucast_eq take_bit_nat_eq_self_iff)
  then have "unat (ucast (ucast (entry_count sch) :: uint16) :: size_t) = unat (entry_count sch)"
    by simp
  then show "ucast (ucast (entry_count sch) :: uint16) = entry_count sch"
    by (simp add: word_unat_eq_iff)
qed

lemma length_record_bytes:
  "ctx_schema ctx = Some sch \<Longrightarrow>
     length (record_bytes cfg ctx g st) = 32 + length (ctx_payload cfg ctx)"
  by (simp add: record_bytes_def)

lemma slot_record_written:
  assumes ok: "ctx_ok cfg ctx" and sv: "saveable cfg ctx" and fits: "record_fits cfg ctx io"
    and io: "io_fits io ctx" and slot: "slot \<in> {0, 1}" and sch: "ctx_schema ctx = Some sch"
    and len: "length c = unat (storage_size io)"
    and c: "chunk c (slot_offset io slot) (length (record_bytes cfg ctx g st)) = record_bytes cfg ctx g st"
    and st: "st = MCONF_STORAGE_STATE_COMMITTED \<or> (\<not> committed \<and> st = MCONF_STORAGE_STATE_UNCOMMITTED)"
  shows "slot_header ctx io c slot committed = (MCONF_OK, Some (header_record ctx sch g
      (of_nat (length (ctx_payload cfg ctx))) (crc32_of (ctx_payload cfg ctx)) st))"
    and "slot_record cfg ctx io c slot committed = Some (header_record ctx sch g
      (of_nat (length (ctx_payload cfg ctx))) (crc32_of (ctx_payload cfg ctx)) st, saved_image ctx)"
proof -
  let ?p = "ctx_payload cfg ctx" and ?o = "slot_offset io slot"
  let ?h = "header_image ctx g (of_nat (length ?p)) (crc32_of ?p) st"
  let ?info = "header_record ctx sch g (of_nat (length ?p)) (crc32_of ?p) st"
  have lp: "length ?p < 2 ^ 32" "32 + length ?p \<le> unat (slot_size io)"
    using fits by (auto simp: record_fits_def)
  have room: "?o + length (?h @ ?p) \<le> length c"
    using slot_arith(2) [OF io slot] lp(2) len by (simp add: sch)
  from chunk_split [OF room] c have at: "chunk c ?o 32 = ?h" "chunk c (?o + 32) (length ?p) = ?p"
    by (simp_all add: record_bytes_def sch)
  have ulen: "unat (of_nat (length ?p) :: uint32) = length ?p" using lp(1) by (simp add: unat_of_nat)
  show header: "slot_header ctx io c slot committed = (MCONF_OK, Some ?info)"
    using st lp(2) record_fits_count(2) [OF ok sch fits]
    by (auto simp: slot_header_def at header_check_def decode_header_image [OF sch] sch header_record_def ulen)
  have "parse_fields cfg (ctx_entries ctx) c (?o + 32) =
      Some (map (\<lambda>k. canonical_field (ctx_entries ctx ! k) (ctx_field ctx k)) [0..<length (ctx_entries ctx)],
            ?o + 32 + length ?p)"
    using parse_fields_payload [OF ok sv, of 0 ?p "?o + 32" c] fits room at(2)
    by (simp add: record_fits_def payload_def sch)
  then show "slot_record cfg ctx io c slot committed = Some (?info, saved_image ctx)"
    using header at(2) ulen saved_image_valid [OF ok] sv
    by (simp add: slot_record_def Let_def saved_image_def [symmetric] header_record_def saveable_def)
qed

text \<open>A slot reads the same on two media that agree on it.\<close>

lemma slot_header_local:
  assumes "io_fits io ctx" and "slot \<in> {0, 1}" and "length c = unat (storage_size io)"
    and "length c' = length c" and "slot_bytes io c' slot = slot_bytes io c slot"
  shows "slot_header ctx io c' slot committed = slot_header ctx io c slot committed"
proof -
  have "chunk c' (slot_offset io slot) 32 = chunk c (slot_offset io slot) 32"
    using chunk_chunk [of 0 32 "unat (slot_size io)" "slot_offset io slot" c]
      chunk_chunk [of 0 32 "unat (slot_size io)" "slot_offset io slot" c'] assms
      slot_arith(2) [OF assms(1,2)] by (simp add: slot_bytes_def io_fits_def)
  then show ?thesis by (simp add: slot_header_def)
qed

lemma slot_record_local:
  assumes sch: "ctx_schema ctx = Some sch" and io: "io_fits io ctx" and slot: "slot \<in> {0, 1}"
    and len: "length c = unat (storage_size io)" "length c' = length c"
    and c: "slot_bytes io c' slot = slot_bytes io c slot"
    and r: "slot_record cfg ctx io c slot committed = Some (info, d)"
  shows "slot_record cfg ctx io c' slot committed = Some (info, d)"
proof -
  let ?o = "slot_offset io slot"
  from r obtain vs off where hdr: "snd (slot_header ctx io c slot committed) = Some info"
    and p: "parse_fields cfg (ctx_entries ctx) c (?o + 32) = Some (vs, off)"
    and d: "d = put_fields (ctx_entries ctx) 0 vs (replicate (length (ctx_bytes ctx)) 0)"
    and chk: "length (chunk c (?o + 32) (off - (?o + 32))) = unat (info_payload_length info)"
      "crc32_of (chunk c (?o + 32) (off - (?o + 32))) = info_payload_crc32 info"
      "data_valid cfg (ctx_entries ctx) d"
    by (auto simp: slot_record_def bind_Some_iff Let_def split: if_splits)
  have room: "32 + unat (info_payload_length info) \<le> unat (slot_size io)"
    using header_check_Some(2) [OF sch] hdr by (simp add: slot_header_def)
  have "?o + 32 \<le> length c" using slot_arith(2) [OF io slot] io len by (simp add: io_fits_def)
  from parse_fields_bounds [OF p this] have b: "?o + 32 \<le> off" "off \<le> length c" by auto
  then have off: "off - (?o + 32) = unat (info_payload_length info)" using chk(1) by simp
  have "chunk c' (?o + 32) (off - (?o + 32)) = chunk c (?o + 32) (off - (?o + 32))"
    using chunk_chunk [of 32 "off - (?o + 32)" "unat (slot_size io)" ?o c]
      chunk_chunk [of 32 "off - (?o + 32)" "unat (slot_size io)" ?o c'] c room off len
      slot_arith(2) [OF io slot] by (simp add: slot_bytes_def)
  moreover from this have "parse_fields cfg (ctx_entries ctx) c' (?o + 32) = Some (vs, off)"
    using parse_fields_local [OF p _ len(2)] b by simp
  ultimately show ?thesis
    using hdr chk d slot_header_local [OF io slot len c] by (simp add: slot_record_def Let_def)
qed

section \<open>Values\<close>

text \<open>Two contents of a field that are the same value: the same characters, or the same bytes.\<close>

definition same_value :: "mconf_entry \<Rightarrow> byte list \<Rightarrow> byte list \<Rightarrow> bool" where
  "same_value e a b \<longleftrightarrow>
     (if entry_type e = MCONF_TYPE_STRING then take (c_strlen a) a = take (c_strlen b) b else a = b)"

lemma saved_field_value:
  assumes "ctx_ok cfg ctx" and "data_valid cfg (ctx_entries ctx) (ctx_bytes ctx)" and "k < length (ctx_entries ctx)"
  shows "same_value (ctx_entries ctx ! k) (ctx_field (ctx\<lparr>ctx_data := Some (saved_image ctx)\<rparr>) k) (ctx_field ctx k)"
proof -
  let ?e = "ctx_entries ctx ! k"
  have "ctx_field (ctx\<lparr>ctx_data := Some (saved_image ctx)\<rparr>) k = canonical_field ?e (ctx_field ctx k)"
    using saved_image_fields(2) [OF assms(1,3)] by (simp add: ctx_field_def)
  moreover have "0 \<in> set (ctx_field ctx k)" if "entry_type ?e = MCONF_TYPE_STRING"
    using ctx_field_facts(2) [OF assms] that by (simp add: value_ok_def ctx_field_def)
  ultimately show ?thesis
    using c_strlen_canonical [of "ctx_field ctx k" ?e] ctx_field_length [OF assms(1,3)]
    by (auto simp: same_value_def canonical_field_def)
qed

section \<open>Corrupted payloads\<close>

lemma window_split:
  assumes "same_outside c c' (o1 + i) k" and "i + k \<le> n" and "o1 + n \<le> length c"
  shows "chunk c o1 n = chunk c o1 i @ chunk c (o1 + i) k @ chunk c (o1 + i + k) (n - (i + k))"
    and "chunk c' o1 n = chunk c o1 i @ chunk c' (o1 + i) k @ chunk c (o1 + i + k) (n - (i + k))"
proof -
  have split: "chunk m o1 n = chunk m o1 i @ chunk m (o1 + i) k @ chunk m (o1 + i + k) (n - (i + k))"
    if "length m = length c" for m
    using chunk_append [of o1 i "n - i" m] chunk_append [of "o1 + i" k "n - i - k" m] assms that by simp
  show "chunk c o1 n = chunk c o1 i @ chunk c (o1 + i) k @ chunk c (o1 + i + k) (n - (i + k))"
    by (rule split [OF refl])
  have "length c' = length c" using assms(1) by (simp add: same_outside_def)
  from split [OF this] show "chunk c' o1 n = chunk c o1 i @ chunk c' (o1 + i) k @ chunk c (o1 + i + k) (n - (i + k))"
    using same_outside_chunk [OF assms(1), of o1 i] same_outside_chunk [OF assms(1), of "o1 + i + k"] by simp
qed

lemma same_outside_diff:
  assumes "same_outside c c' off k" and "off + k \<le> length c" and "c' \<noteq> c"
  shows "chunk c off k \<noteq> chunk c' off k"
proof
  assume eq: "chunk c off k = chunk c' off k"
  have len: "length c' = length c" using assms(1) by (simp add: same_outside_def)
  have "c' ! j = c ! j" if "j < length c" for j
  proof (cases "off \<le> j \<and> j < off + k")
    case True
    then have "j - off < k" by arith
    with True show ?thesis
      using chunk_nth [of off k c "j - off"] chunk_nth [of off k c' "j - off"] eq assms(2) len by simp
  next
    case False
    then show ?thesis using assms(1) that by (auto simp: same_outside_def)
  qed
  with assms(3) len show False by (simp add: list_eq_iff_nth_eq)
qed

lemma slot_record_payload:
  assumes "ctx_schema ctx = Some sch" and "slot_record cfg ctx io c slot committed = Some (info, d)"
    and "slot_offset io slot + 32 \<le> length c"
  shows "snd (slot_header ctx io c slot committed) = Some info"
    and "slot_offset io slot + 32 + unat (info_payload_length info) \<le> length c"
    and "crc32_of (chunk c (slot_offset io slot + 32) (unat (info_payload_length info))) = info_payload_crc32 info"
proof -
  let ?o = "slot_offset io slot + 32"
  from assms(2) obtain vs off where hdr: "snd (slot_header ctx io c slot committed) = Some info"
    and p: "parse_fields cfg (ctx_entries ctx) c ?o = Some (vs, off)"
    and chk: "length (chunk c ?o (off - ?o)) = unat (info_payload_length info)"
      "crc32_of (chunk c ?o (off - ?o)) = info_payload_crc32 info"
    by (auto simp: slot_record_def bind_Some_iff Let_def split: if_splits)
  then have "?o \<le> off" "off \<le> length c" using parse_fields_bounds [OF p assms(3)] by auto
  then have "off - ?o = unat (info_payload_length info)" "?o + (off - ?o) \<le> length c" using chk(1) by simp_all
  with hdr chk(2) show "snd (slot_header ctx io c slot committed) = Some info"
    "?o + unat (info_payload_length info) \<le> length c"
    "crc32_of (chunk c ?o (unat (info_payload_length info))) = info_payload_crc32 info" by simp_all
qed

lemma burst_rejected:
  assumes sch: "ctx_schema ctx = Some sch" and io: "io_fits io ctx" and slot: "slot \<in> {0, 1}"
    and len: "length c = unat (storage_size io)" and r: "slot_record cfg ctx io c slot committed = Some (info, d)"
    and burst: "same_outside c c' (slot_offset io slot + 32 + i) k" "k \<le> 4"
      "i + k \<le> unat (info_payload_length info)" "c' \<noteq> c"
  shows "slot_record cfg ctx io c' slot committed = None"
proof (rule ccontr)
  assume "slot_record cfg ctx io c' slot committed \<noteq> None"
  then obtain info' d' where r': "slot_record cfg ctx io c' slot committed = Some (info', d')" by auto
  let ?o = "slot_offset io slot + 32"
  have len': "length c' = length c" using burst(1) by (simp add: same_outside_def)
  have o: "?o \<le> length c" using slot_arith(2) [OF io slot] io len by (simp add: io_fits_def)
  note p = slot_record_payload [OF sch r o] and p' = slot_record_payload [OF sch r' o [folded len']]
  have "chunk c' (slot_offset io slot) 32 = chunk c (slot_offset io slot) 32"
    using same_outside_chunk [OF burst(1), of "slot_offset io slot" 32] by simp
  then have "info' = info" using p(1) p'(1) by (simp add: slot_header_def)
  with p(3) p'(3) have crc: "crc32_of (chunk c ?o (unat (info_payload_length info))) =
      crc32_of (chunk c' ?o (unat (info_payload_length info)))" by simp
  have "chunk c (?o + i) k \<noteq> chunk c' (?o + i) k"
    using same_outside_diff [OF burst(1) _ burst(4)] burst(3) p(2) by simp
  moreover have "length (chunk c (?o + i) k) = k" "length (chunk c' (?o + i) k) = k"
    using burst(3) p(2) len' by simp_all
  ultimately show False
    using crc crc32_burst_aux [of "chunk c (?o + i) k" "chunk c' (?o + i) k"] burst(2)
      window_split [OF burst(1,3) p(2)]
    by (simp add: crc32_of_def crc32_finalize_inj)
qed

section \<open>Properties\<close>

text \<open>
  C16. Corruption of a stored payload is noticed: when up to four consecutive payload bytes of a slot that
  reads have changed, in whatever way, \<open>mconf_load_slot_into_buffer\<close> fails on it.
\<close>

theorem payload_burst_detected:
  assumes "readable_backend io contents ok" and "ctx_ok cfg ctx" and "io_fits io ctx" and "slot \<in> {0, 1}"
    and "ok s" and "ok s'" and "length buffer = length (ctx_bytes ctx)"
    and "slot_record cfg ctx io (contents s) slot committed = Some (info, d)"
    and "same_outside (contents s) (contents s') (slot_offset io slot + 32 + i) k" and "k \<le> 4"
    and "i + k \<le> unat (info_payload_length info)" and "contents s' \<noteq> contents s"
  shows "\<exists>err info' d' s''. mconf_load_slot_into_buffer cfg ctx io slot buffer committed s' = Some (err, info', d', s'') \<and>
    err \<noteq> MCONF_OK"
proof -
  obtain sch where sch: "ctx_schema ctx = Some sch" using assms(2) by (elim ctx_okE) auto
  have "length (contents s) = unat (storage_size io)"
    using storage_backend.contents_size [OF readable_backend.axioms(1) [OF assms(1)] assms(5)] .
  with burst_rejected [OF sch assms(3,4) _ assms(8-12)]
    readable_backend.load_slot_exact [OF assms(1-4,6,7), of committed]
  show ?thesis by auto
qed

text \<open>The store of the tests with a committed record in its first slot.\<close>

definition demo_record :: "byte list" where
  "demo_record = record_bytes default_config demo_ctx 1 MCONF_STORAGE_STATE_COMMITTED"

definition saved_store :: fake_store where
  "saved_store = fresh_store\<lparr>fs_bytes := patch (replicate 256 0xFF) 0 demo_record\<rparr>"

lemma demo_record_length: "length demo_record = 41"
  by (simp add: demo_record_def record_bytes_def demo_payload) (simp add: demo_ctx_def header_image_def)

lemma demo_record_fits: "record_fits default_config demo_ctx fake_io"
  by (simp add: record_fits_def demo_payload fake_io_def string_fits_def ctx_field_def)
     (simp add: demo_entries_def field_get_def chunk_def c_strlen_def)

lemma saved_store_reads:
  "slot_record default_config demo_ctx fake_io (fs_bytes saved_store) 0 True =
     Some (header_record demo_ctx demo_schema 1 9 (crc32_of (replicate 9 0)) MCONF_STORAGE_STATE_COMMITTED,
           saved_image demo_ctx)"
proof -
  have "slot_record default_config demo_ctx fake_io (fs_bytes saved_store) 0 True =
    Some (header_record demo_ctx demo_schema 1 (of_nat (length (ctx_payload default_config demo_ctx)))
      (crc32_of (ctx_payload default_config demo_ctx)) MCONF_STORAGE_STATE_COMMITTED, saved_image demo_ctx)"
  proof (rule slot_record_written(2) [OF demo_ctx_ok demo_saveable demo_record_fits demo_io_fits])
    show "ctx_schema demo_ctx = Some demo_schema" by (simp add: demo_ctx_def)
    show "length (fs_bytes saved_store) = unat (storage_size fake_io)"
      by (simp add: saved_store_def fake_io_def demo_record_length)
    show "chunk (fs_bytes saved_store) (slot_offset fake_io 0)
        (length (record_bytes default_config demo_ctx 1 MCONF_STORAGE_STATE_COMMITTED)) =
      record_bytes default_config demo_ctx 1 MCONF_STORAGE_STATE_COMMITTED"
      unfolding demo_record_def [symmetric]
      by (simp add: saved_store_def slot_offset_def demo_record_length chunk_patch_eq)
  qed simp_all
  then show ?thesis by (simp add: demo_payload)
qed

lemma saved_store_ok: "fake_inv saved_store"
  by (simp add: saved_store_def fake_inv_def demo_record_length)

theorem payload_burst_detected_witness:
  "\<exists>err info' d' s''. mconf_load_slot_into_buffer default_config demo_ctx fake_io 0 (replicate 20 0) True
      (saved_store\<lparr>fs_bytes := patch (fs_bytes saved_store) 33 [7, 7]\<rparr>) = Some (err, info', d', s'') \<and>
    err \<noteq> MCONF_OK"
proof -
  let ?c = "fs_bytes saved_store" and ?s = "saved_store\<lparr>fs_bytes := patch (fs_bytes saved_store) 33 [7, 7]\<rparr>"
  have len: "length ?c = 256" using saved_store_ok by (simp add: fake_inv_def)
  have "same_outside ?c (fs_bytes ?s) (slot_offset fake_io 0 + 32 + 1) 2"
    using same_outside_patch [of 33 "[7, 7]" ?c] len by (simp add: slot_offset_def numeral_2_eq_2)
  moreover have "fs_bytes ?s \<noteq> ?c"
  proof
    assume eq: "fs_bytes ?s = ?c"
    have "demo_record ! 33 = 0"
      by (simp add: demo_record_def record_bytes_def demo_payload nth_append) (simp add: demo_ctx_def)
    then have "?c ! 33 = 0" by (simp add: saved_store_def nth_patch demo_record_length)
    moreover have "fs_bytes ?s ! 33 = 7" using len by (simp add: nth_patch)
    ultimately show False using eq by simp
  qed
  ultimately show ?thesis
    by (intro payload_burst_detected [OF fake.readable_backend_axioms demo_ctx_ok demo_io_fits _ saved_store_ok _ _
        saved_store_reads, where i = 1 and k = 2]) (simp_all add: fake_inv_def len header_record_def)
qed

end
