(* ===== verification/Mconf_Load.thy ===== *)
theory Mconf_Load
  imports Mconf_Persist Mconf_Record
begin

text \<open>
  Loading (\<open>mconf_load\<close>) against a pure specification of what a medium holds: the newest slot that
  reads, or else the defaults. The code implements it on every backend whose reads succeed; on any
  backend it leaves the context valid and the medium as it was.
\<close>

section \<open>The specification\<close>

text \<open>The committed headers of the two slots name the order in which they are tried.\<close>

definition slot_order ::
  "mconf_err \<times> mconf_record_info option \<Rightarrow> mconf_err \<times> mconf_record_info option \<Rightarrow> size_t list" where
  "slot_order h0 h1 =
     (case (snd h0, snd h1) of
        (Some i0, Some i1) \<Rightarrow>
          if mconf_generation_is_newer (info_generation i1) (info_generation i0) then [1, 0] else [0, 1]
      | (Some _, None) \<Rightarrow> [0]
      | (None, Some _) \<Rightarrow> [1]
      | (None, None) \<Rightarrow> [])"

fun first_record :: "(size_t \<Rightarrow> (mconf_record_info \<times> byte list) option) \<Rightarrow> size_t list \<Rightarrow> byte list option" where
  "first_record f [] = None"
| "first_record f (slot # slots) =
     (case f slot of Some (_, d) \<Rightarrow> Some d | None \<Rightarrow> first_record f slots)"

definition load_order :: "mconf_ctx \<Rightarrow> 's mconf_io \<Rightarrow> byte list \<Rightarrow> size_t list" where
  "load_order ctx io c = slot_order (slot_header ctx io c 0 True) (slot_header ctx io c 1 True)"

text \<open>The configuration that a medium holds, if it holds one.\<close>

definition stored_config :: "mconf_config \<Rightarrow> mconf_ctx \<Rightarrow> 's mconf_io \<Rightarrow> byte list \<Rightarrow> byte list option" where
  "stored_config cfg ctx io c =
     first_record (\<lambda>slot. slot_record cfg ctx io c slot True) (load_order ctx io c)"

text \<open>The error of a load that finds no configuration.\<close>

definition load_error :: "mconf_err \<Rightarrow> mconf_err \<Rightarrow> mconf_err" where
  "load_error e0 e1 =
     (if e0 = MCONF_ERR_VERSION \<or> e1 = MCONF_ERR_VERSION then MCONF_ERR_VERSION
      else if e0 = MCONF_ERR_MAGIC \<or> e1 = MCONF_ERR_MAGIC then MCONF_ERR_MAGIC
      else MCONF_ERR_INVALID)"

definition load_result ::
  "mconf_config \<Rightarrow> mconf_ctx \<Rightarrow> 's mconf_io \<Rightarrow> byte list \<Rightarrow> mconf_err \<times> byte list" where
  "load_result cfg ctx io c =
     (case stored_config cfg ctx io c of
        Some d \<Rightarrow> (MCONF_OK, d)
      | None \<Rightarrow> (load_error (fst (slot_header ctx io c 0 True)) (fst (slot_header ctx io c 1 True)),
                 defaults_image ctx))"

section \<open>The data of the context does not matter\<close>

lemma slot_header_set_data [simp]:
  "slot_header (ctx\<lparr>ctx_data := d\<rparr>) io c slot committed = slot_header ctx io c slot committed"
  by (simp add: slot_header_def header_check_def split: prod.splits option.splits)

lemma slot_record_set_data [simp]:
  "length d = length (ctx_bytes ctx) \<Longrightarrow>
     slot_record cfg (ctx\<lparr>ctx_data := Some d\<rparr>) io c slot committed = slot_record cfg ctx io c slot committed"
  by (simp add: slot_record_def)

lemma io_fits_set_data [simp]:
  "length d = length (ctx_bytes ctx) \<Longrightarrow> io_fits io (ctx\<lparr>ctx_data := Some d\<rparr>) \<longleftrightarrow> io_fits io ctx"
  by (simp add: io_fits_def)

lemma defaults_image_set_data [simp]:
  "length d = length (ctx_bytes ctx) \<Longrightarrow> defaults_image (ctx\<lparr>ctx_data := Some d\<rparr>) = defaults_image ctx"
  by (simp add: defaults_image_def)

lemma ctx_set_own_data: "ctx_ok cfg ctx \<Longrightarrow> ctx\<lparr>ctx_data := Some (ctx_bytes ctx)\<rparr> = ctx"
  by (simp add: ctx_data_bytes [symmetric])

section \<open>The code\<close>

lemma slots_to_try_eq:
  assumes "e0 = MCONF_OK \<longleftrightarrow> i0 \<noteq> None" and "e1 = MCONF_OK \<longleftrightarrow> i1 \<noteq> None"
  shows "slots_to_try e0 i0 e1 i1 = Some (slot_order (e0, i0) (e1, i1))"
  using assms by (cases i0; cases i1) (auto simp: slots_to_try_def slot_order_def)

lemma slot_order_slots: "set (slot_order h0 h1) \<subseteq> {0, 1}"
  by (auto simp: slot_order_def split: option.splits if_splits)

context storage_backend
begin

lemma load_first_of_eq:
  assumes ok: "ctx_ok cfg ctx" and fits: "io_fits io ctx" and "set slots \<subseteq> {0, 1}" and "inv s"
    and "length d0 = length (ctx_bytes ctx)"
  shows "\<exists>b d s'. load_first_of cfg io slots (ctx\<lparr>ctx_data := Some d0\<rparr>) s = Some (b, ctx\<lparr>ctx_data := Some d\<rparr>, s') \<and>
    length d = length (ctx_bytes ctx) \<and> inv s' \<and> contents s' = contents s \<and>
    (b \<longrightarrow> (\<exists>slot info. slot \<in> set slots \<and> slot_record cfg ctx io (contents s) slot True = Some (info, d))) \<and>
    (\<not> read_fault io contents inv \<longrightarrow>
       first_record (\<lambda>slot. slot_record cfg ctx io (contents s) slot True) slots = (if b then Some d else None))"
  using assms(3-)
proof (induction slots arbitrary: s d0)
  case Nil
  then show ?case by auto
next
  case (Cons slot slots)
  let ?ctx = "ctx\<lparr>ctx_data := Some d0\<rparr>"
  have ok': "ctx_ok cfg ?ctx" using ok Cons.prems(3) by simp
  have slot: "slot \<in> {0, 1}" using Cons.prems(1) by simp
  obtain err info d s1 where
    load: "mconf_load_slot_into_buffer cfg ?ctx io slot d0 True s = Some (err, info, d, s1)"
      "length d = length (ctx_bytes ctx)" "inv s1" "contents s1 = contents s"
      "(err = MCONF_OK \<and> info \<noteq> None \<and> slot_record cfg ctx io (contents s) slot True = Some (the info, d)) \<or>
       (err \<noteq> MCONF_OK \<and> (read_fault io contents inv \<or> slot_record cfg ctx io (contents s) slot True = None))"
    by (rule load_slot_eq [OF ok' _ slot Cons.prems(2), of d0 True])
       (use fits Cons.prems(3) in simp_all)
  show ?case
  proof (cases "err = MCONF_OK")
    case True
    with load show ?thesis by (intro exI [of _ True] exI [of _ d] exI [of _ s1]) auto
  next
    case False
    from Cons.prems(1) have "set slots \<subseteq> {0, 1}" by simp
    from Cons.IH [OF this load(3,2)] obtain b da s2 where
      "load_first_of cfg io slots (ctx\<lparr>ctx_data := Some d\<rparr>) s1 = Some (b, ctx\<lparr>ctx_data := Some da\<rparr>, s2)"
      "length da = length (ctx_bytes ctx)" "inv s2" "contents s2 = contents s"
      "b \<longrightarrow> (\<exists>slot info. slot \<in> set slots \<and> slot_record cfg ctx io (contents s) slot True = Some (info, da))"
      "\<not> read_fault io contents inv \<longrightarrow>
         first_record (\<lambda>slot. slot_record cfg ctx io (contents s) slot True) slots = (if b then Some da else None)"
      unfolding load(4) by blast
    with False load show ?thesis
      by (intro exI [of _ b] exI [of _ da] exI [of _ s2]) auto
  qed
qed

lemma load_eq:
  assumes ok: "ctx_ok cfg ctx" and fits: "io_fits io ctx" and s: "inv s"
  obtains err d s' where "mconf_load cfg (Some ctx) (Some io) s = Some (err, Some (ctx\<lparr>ctx_data := Some d\<rparr>), s')"
    "length d = length (ctx_bytes ctx)" "inv s'" "contents s' = contents s"
    "err = MCONF_OK \<Longrightarrow> \<exists>slot info. slot \<in> {0, 1} \<and> slot_record cfg ctx io (contents s) slot True = Some (info, d)"
    "err \<noteq> MCONF_OK \<Longrightarrow> d = defaults_image ctx \<and> err \<in> {MCONF_ERR_VERSION, MCONF_ERR_MAGIC, MCONF_ERR_INVALID}"
    "\<not> read_fault io contents inv \<Longrightarrow> (err, d) = load_result cfg ctx io (contents s)"
proof -
  let ?c = "contents s"
  obtain sch where sch: "ctx_schema ctx = Some sch" using ok by (elim ctx_okE) auto
  obtain e0 i0 s0 where p0: "mconf_probe_slot_header ctx io s 0 True = Some (e0, i0, s0)" "inv s0"
    "contents s0 = ?c" "(e0, i0) = slot_header ctx io ?c 0 True \<or>
      (read_fault io contents inv \<and> e0 = MCONF_ERR_IO \<and> i0 = None)" "e0 = MCONF_OK \<longleftrightarrow> i0 \<noteq> None"
    "e0 \<noteq> MCONF_ERR_CRC"
    by (rule probe_eq [OF s fits _ sch, of 0 True]) auto
  obtain e1 i1 s1 where p1: "mconf_probe_slot_header ctx io s0 1 True = Some (e1, i1, s1)" "inv s1"
    "contents s1 = ?c" "(e1, i1) = slot_header ctx io ?c 1 True \<or>
      (read_fault io contents inv \<and> e1 = MCONF_ERR_IO \<and> i1 = None)" "e1 = MCONF_OK \<longleftrightarrow> i1 \<noteq> None"
    "e1 \<noteq> MCONF_ERR_CRC"
    by (rule probe_eq [OF p0(2) fits _ sch, of 1 True, unfolded p0(3)]) auto
  note order = slots_to_try_eq [OF p0(5) p1(5)]
  from load_first_of_eq [OF ok fits slot_order_slots p1(2) refl, unfolded p1(3) ctx_set_own_data [OF ok]]
  obtain b d s2 where r: "load_first_of cfg io (slot_order (e0, i0) (e1, i1)) ctx s1 =
      Some (b, ctx\<lparr>ctx_data := Some d\<rparr>, s2)" "length d = length (ctx_bytes ctx)" "inv s2" "contents s2 = ?c"
    "b \<longrightarrow> (\<exists>slot info. slot \<in> set (slot_order (e0, i0) (e1, i1)) \<and>
       slot_record cfg ctx io ?c slot True = Some (info, d))"
    "\<not> read_fault io contents inv \<longrightarrow>
       first_record (\<lambda>slot. slot_record cfg ctx io ?c slot True) (slot_order (e0, i0) (e1, i1)) =
         (if b then Some d else None)" by blast
  let ?err = "if b then MCONF_OK else load_error e0 e1" and ?d = "if b then d else defaults_image ctx"
  have "mconf_load_defaults (Some (ctx\<lparr>ctx_data := Some d\<rparr>)) =
      Some (MCONF_OK, Some (ctx\<lparr>ctx_data := Some (defaults_image ctx)\<rparr>))"
    using load_defaults_eq [of cfg "ctx\<lparr>ctx_data := Some d\<rparr>"] ok r(2) by simp
  then have load: "mconf_load cfg (Some ctx) (Some io) s = Some (?err, Some (ctx\<lparr>ctx_data := Some ?d\<rparr>), s2)"
    using p0(1,6) p1(1,6) order r(1) callbacks(1) io_geometry [OF fits]
    by (auto simp: mconf_load_def require_context_ok [OF ok] load_error_def)
  show thesis
  proof (rule that [OF load _ r(3,4)])
    show "length ?d = length (ctx_bytes ctx)" using r(2) defaults_image_fields(1) [OF ok] by simp
    show "\<exists>slot info. slot \<in> {0, 1} \<and> slot_record cfg ctx io ?c slot True = Some (info, ?d)" if "?err = MCONF_OK"
      using that r(5) slot_order_slots [of "(e0, i0)" "(e1, i1)"]
      by (auto simp: load_error_def split: if_splits)
    show "?d = defaults_image ctx \<and> ?err \<in> {MCONF_ERR_VERSION, MCONF_ERR_MAGIC, MCONF_ERR_INVALID}"
      if "?err \<noteq> MCONF_OK"
      using that by (auto simp: load_error_def split: if_splits)
    show "(?err, ?d) = load_result cfg ctx io ?c" if "\<not> read_fault io contents inv"
    proof -
      from that p0(4) p1(4) have h: "slot_header ctx io ?c 0 True = (e0, i0)"
        "slot_header ctx io ?c 1 True = (e1, i1)" by auto
      then show ?thesis using that r(6) by (simp add: load_result_def stored_config_def load_order_def)
    qed
  qed
qed

end

lemma load_result_set_data [simp]:
  "length d = length (ctx_bytes ctx) \<Longrightarrow>
     load_result cfg (ctx\<lparr>ctx_data := Some d\<rparr>) io c = load_result cfg ctx io c"
  by (simp add: load_result_def stored_config_def load_order_def split: option.split)

context readable_backend
begin

lemma load_runs:
  assumes ok: "ctx_ok cfg ctx" and fits: "io_fits io ctx" and s: "inv s" and d: "length d = length (ctx_bytes ctx)"
  shows "\<exists>s'. mconf_load cfg (Some (ctx\<lparr>ctx_data := Some d\<rparr>)) (Some io) s =
    Some (fst (load_result cfg ctx io (contents s)),
          Some (ctx\<lparr>ctx_data := Some (snd (load_result cfg ctx io (contents s)))\<rparr>), s') \<and>
    inv s' \<and> contents s' = contents s"
proof -
  have "ctx_ok cfg (ctx\<lparr>ctx_data := Some d\<rparr>)" "io_fits io (ctx\<lparr>ctx_data := Some d\<rparr>)" using ok fits d by simp_all
  then show ?thesis
    by (rule load_eq [OF _ _ s]) (use no_read_fault d in \<open>auto simp: prod_eq_iff\<close>)
qed

end

end
