(* ===== verification/Mconf_Save.thy ===== *)
theory Mconf_Save
  imports Mconf_Load
begin

text \<open>
  Saving (\<open>mconf_save\<close>) as a sequence of stages of the target slot: erased, header written, payload
  written and read back, committed. On a backend that writes from low to high addresses a save that
  is interrupted at any point leaves the previous configuration or the new one.
\<close>

section \<open>The stages of the target slot\<close>

definition erased_medium :: "'s mconf_io \<Rightarrow> size_t \<Rightarrow> byte list \<Rightarrow> byte list" where
  "erased_medium io slot c = patch c (slot_offset io slot) (replicate (unat (slot_size io)) 0xFF)"

text \<open>The medium after the header, and after the whole record, in the given state.\<close>

definition header_medium ::
  "mconf_config \<Rightarrow> mconf_ctx \<Rightarrow> 's mconf_io \<Rightarrow> size_t \<Rightarrow> uint32 \<Rightarrow> byte list \<Rightarrow> byte list" where
  "header_medium cfg ctx io slot g c =
     patch (erased_medium io slot c) (slot_offset io slot)
       (take 32 (record_bytes cfg ctx g MCONF_STORAGE_STATE_UNCOMMITTED))"

definition record_medium ::
  "mconf_config \<Rightarrow> mconf_ctx \<Rightarrow> 's mconf_io \<Rightarrow> size_t \<Rightarrow> uint32 \<Rightarrow> byte \<Rightarrow> byte list \<Rightarrow> byte list" where
  "record_medium cfg ctx io slot g st c =
     patch (erased_medium io slot c) (slot_offset io slot) (record_bytes cfg ctx g st)"

text \<open>What a save knows when it starts to write.\<close>

definition save_ready :: "mconf_config \<Rightarrow> mconf_ctx \<Rightarrow> 's mconf_io \<Rightarrow> size_t \<Rightarrow> byte list \<Rightarrow> bool" where
  "save_ready cfg ctx io slot c \<longleftrightarrow>
     ctx_schema ctx \<noteq> None \<and> io_fits io ctx \<and> slot \<in> {0, 1} \<and>
     32 + length (ctx_payload cfg ctx) \<le> unat (slot_size io) \<and> length c = unat (storage_size io)"

lemma save_ready_facts:
  assumes "save_ready cfg ctx io slot c"
  shows "slot_offset io slot + unat (slot_size io) \<le> length c"
    and "length (record_bytes cfg ctx g st) = 32 + length (ctx_payload cfg ctx)"
    and "32 + length (ctx_payload cfg ctx) \<le> unat (slot_size io)"
    and "take 32 (record_bytes cfg ctx g st) =
      header_image ctx g (of_nat (length (ctx_payload cfg ctx))) (crc32_of (ctx_payload cfg ctx)) st"
  using assms slot_arith(2) [of io ctx slot]
  by (auto simp: save_ready_def length_record_bytes record_bytes_def)

lemma length_media:
  assumes "save_ready cfg ctx io slot c"
  shows "length (erased_medium io slot c) = length c"
    and "length (header_medium cfg ctx io slot g c) = length c"
    and "length (record_medium cfg ctx io slot g st c) = length c"
  using save_ready_facts(1-3) [OF assms]
  by (simp_all add: erased_medium_def header_medium_def record_medium_def)

lemma payload_completes_record:
  assumes "save_ready cfg ctx io slot c"
  shows "patch (header_medium cfg ctx io slot g c) (slot_offset io slot + 32) (ctx_payload cfg ctx) =
    record_medium cfg ctx io slot g MCONF_STORAGE_STATE_UNCOMMITTED c"
proof -
  note f = save_ready_facts [OF assms]
  let ?h = "take 32 (record_bytes cfg ctx g MCONF_STORAGE_STATE_UNCOMMITTED)"
  have "record_bytes cfg ctx g MCONF_STORAGE_STATE_UNCOMMITTED = ?h @ ctx_payload cfg ctx"
    unfolding f(4) by (simp add: record_bytes_def)
  moreover have "length ?h = 32" using f(2) by simp
  moreover have "slot_offset io slot + length (?h @ ctx_payload cfg ctx) \<le> length (erased_medium io slot c)"
    using f(1,2,3) length_media(1) [OF assms] by simp
  ultimately show ?thesis
    using patch_append [of "slot_offset io slot" ?h "ctx_payload cfg ctx" "erased_medium io slot c"]
    by (simp add: header_medium_def record_medium_def)
qed

lemma commit_completes_save:
  assumes "save_ready cfg ctx io slot c"
  shows "patch (record_medium cfg ctx io slot g st c) (slot_offset io slot + 18) [st'] =
    record_medium cfg ctx io slot g st' c"
proof -
  note f = save_ready_facts [OF assms]
  obtain sch where sch: "ctx_schema ctx = Some sch" using assms by (auto simp: save_ready_def)
  have "patch (record_bytes cfg ctx g st) 18 [st'] = record_bytes cfg ctx g st'"
    using commit_header_image [OF sch, of g _ _ st st']
    by (simp add: record_bytes_def patch_def sch)
  then show ?thesis
    using f(1-3) length_media(1) [OF assms]
    by (simp add: record_medium_def patch_within)
qed

lemma media_same_outside:
  assumes "save_ready cfg ctx io slot c"
  shows "same_outside c (erased_medium io slot c) (slot_offset io slot) (unat (slot_size io))"
    and "same_outside c (header_medium cfg ctx io slot g c) (slot_offset io slot) (unat (slot_size io))"
    and "same_outside c (record_medium cfg ctx io slot g st c) (slot_offset io slot) (unat (slot_size io))"
proof -
  note f = save_ready_facts [OF assms]
  show e: "same_outside c (erased_medium io slot c) (slot_offset io slot) (unat (slot_size io))"
    using same_outside_patch [of "slot_offset io slot" "replicate (unat (slot_size io)) 0xFF" c] f(1)
    by (simp add: erased_medium_def)
  have *: "same_outside c (patch (erased_medium io slot c) (slot_offset io slot) bs)
      (slot_offset io slot) (unat (slot_size io))" if "length bs \<le> unat (slot_size io)" for bs
    using f(1) that length_media(1) [OF assms]
    by (intro same_outside_trans [OF e] same_outside_mono [OF same_outside_patch]) simp_all
  show "same_outside c (header_medium cfg ctx io slot g c) (slot_offset io slot) (unat (slot_size io))"
    "same_outside c (record_medium cfg ctx io slot g st c) (slot_offset io slot) (unat (slot_size io))"
    unfolding header_medium_def record_medium_def using f(2,3) by (auto intro!: *)
qed

lemma chunk_record_medium:
  assumes "save_ready cfg ctx io slot c"
  shows "chunk (record_medium cfg ctx io slot g st c) (slot_offset io slot)
      (length (record_bytes cfg ctx g st)) = record_bytes cfg ctx g st"
  using save_ready_facts [OF assms] length_media(1) [OF assms]
  by (simp add: record_medium_def chunk_patch_eq)

section \<open>Running the stages\<close>

lemma chunk_record_header:
  assumes "save_ready cfg ctx io slot c"
  shows "chunk (record_medium cfg ctx io slot g st c) (slot_offset io slot) 32 =
    take 32 (record_bytes cfg ctx g st)"
  using chunk_record_medium [OF assms, of g st] save_ready_facts(2) [OF assms, of g st]
  by (metis le_add1 take_chunk)

text \<open>
  A save from the payload on, up to the commit: it ends with an error, or with the data that it has read
  back.
\<close>

definition save_verified ::
  "mconf_config \<Rightarrow> mconf_ctx \<Rightarrow> 's mconf_io \<Rightarrow> size_t \<Rightarrow> byte list \<Rightarrow> 's \<Rightarrow>
    (mconf_err \<times> byte list \<times> 's) option" where
  "save_verified cfg ctx io slot header s =
     do { (err, s) \<leftarrow> mconf_serialize_payload_to_storage cfg ctx io (slot * slot_size io + MCONF_STORAGE_HEADER_SIZE) s;
          if err \<noteq> MCONF_OK then Some (err, ctx_bytes ctx, s)
          else
            do { (err, verify_header, s) \<leftarrow> mconf_io_read_exact io s (slot * slot_size io) (replicate 32 0);
                 if err \<noteq> MCONF_OK then Some (err, ctx_bytes ctx, s)
                 else if verify_header \<noteq> header then Some (MCONF_ERR_IO, ctx_bytes ctx, s)
                 else
                   do { (err, _, d, s) \<leftarrow> mconf_load_slot_into_buffer cfg ctx io slot (ctx_bytes ctx) False s;
                        Some (err, d, s) } } }"

lemma save_from_verified:
  assumes "ctx_ok cfg ctx"
  shows "save_payload_and_commit cfg ctx io slot header s =
    do { (err, d, s) \<leftarrow> save_verified cfg ctx io slot header s;
         if err \<noteq> MCONF_OK then Some (err, Some (ctx\<lparr>ctx_data := Some d\<rparr>), s)
         else
           do { (err, s) \<leftarrow> mconf_io_write_exact io s (slot * slot_size io + MCONF_STORAGE_STATE_OFFSET)
                  [MCONF_STORAGE_STATE_COMMITTED];
                Some (err, Some (ctx\<lparr>ctx_data := Some d\<rparr>), s) } }"
  by (auto simp: save_payload_and_commit_def save_verified_def Let_def ctx_data_bytes [OF assms]
      ctx_set_own_data [OF assms] split: bind_splits prod.splits)

context storage_backend
begin

lemma erase_slot:
  assumes "inv s" and "save_ready cfg ctx io slot (contents s)"
  obtains (ok) s' where "the (io_erase io) s (slot * slot_size io) (slot_size io) = Some (0, s')" "inv s'"
    "contents s' = erased_medium io slot (contents s)"
  | (fault) rc s' where "the (io_erase io) s (slot * slot_size io) (slot_size io) = Some (rc, s')" "rc \<noteq> 0"
    "inv s'" "same_outside (contents s) (contents s') (slot_offset io slot) (unat (slot_size io))"
    "erase_fault io contents inv"
proof -
  have fits: "io_fits io ctx" "slot \<in> {0, 1}" using assms(2) by (auto simp: save_ready_def)
  note off = slot_arith(1,2) [OF fits]
  have "unat (slot * slot_size io) + unat (slot_size io) < 2 ^ 64"
    using off size_t_bound [of "storage_size io"] by simp
  from erase_spec [OF assms(1) this] obtain rc s' where
    e: "the (io_erase io) s (slot * slot_size io) (slot_size io) = Some (rc, s')" "inv s'"
    "same_outside (contents s) (contents s') (slot_offset io slot) (unat (slot_size io))"
    "rc = 0 \<longrightarrow> contents s' = erased_medium io slot (contents s)"
    by (auto simp: off(1) erased_medium_def)
  show thesis
  proof (cases "rc = 0")
    case True
    with e show thesis by (intro ok) auto
  next
    case False
    then have "erase_fault io contents inv"
      unfolding erase_fault_def using assms(1) e(1) off contents_size [OF assms(1)] by force
    with False e show thesis by (intro fault)
  qed
qed

text \<open>
  The stages after the header: the save stops while it writes or reads back the payload, or it comes
  to the commit with the medium holding the record and the context the data read back from it.
\<close>

lemma save_verified_stages:
  assumes ok: "ctx_ok cfg ctx" and sv: "saveable cfg ctx" and ready: "save_ready cfg ctx io slot c"
    and s: "inv s" and c: "contents s = header_medium cfg ctx io slot g c"
    and h: "header = take 32 (record_bytes cfg ctx g MCONF_STORAGE_STATE_UNCOMMITTED)"
  obtains (payload) err d s' where
      "save_verified cfg ctx io slot header s = Some (err, d, s')"
      "err \<noteq> MCONF_OK" "length d = length (ctx_bytes ctx)" "inv s'"
      "same_outside (header_medium cfg ctx io slot g c) (contents s')
         (slot_offset io slot + 32) (length (ctx_payload cfg ctx))"
      "write_fault io contents inv \<and>
         mconf_serialize_payload_to_storage cfg ctx io (slot * slot_size io + MCONF_STORAGE_HEADER_SIZE) s = Some (err, s') \<or>
       read_fault io contents inv \<or>
       slot_record cfg ctx io (record_medium cfg ctx io slot g MCONF_STORAGE_STATE_UNCOMMITTED c)
         slot False = None"
      "d = ctx_bytes ctx \<or> read_fault io contents inv \<or>
       slot_record cfg ctx io (record_medium cfg ctx io slot g MCONF_STORAGE_STATE_UNCOMMITTED c)
         slot False = None"
  | (verified) d info s' where
      "save_verified cfg ctx io slot header s = Some (MCONF_OK, d, s')"
      "slot_record cfg ctx io (record_medium cfg ctx io slot g MCONF_STORAGE_STATE_UNCOMMITTED c)
         slot False = Some (info, d)" "length d = length (ctx_bytes ctx)"
      "inv s'" "contents s' = record_medium cfg ctx io slot g MCONF_STORAGE_STATE_UNCOMMITTED c"
proof -
  let ?rec = "record_medium cfg ctx io slot g MCONF_STORAGE_STATE_UNCOMMITTED c"
    and ?p = "ctx_payload cfg ctx"
  have fits: "io_fits io ctx" "slot \<in> {0, 1}" using ready by (auto simp: save_ready_def)
  note f = save_ready_facts [OF ready] and off = slot_arith(1,2) [OF fits] and l = length_media [OF ready]
  have off32: "unat (slot * slot_size io + MCONF_STORAGE_HEADER_SIZE) = slot_offset io slot + 32"
    using unat_slot_plus [OF fits, of 32] f(3) by simp
  have room: "unat (slot * slot_size io + MCONF_STORAGE_HEADER_SIZE) + length ?p \<le> length (contents s)"
    using f(1,3) off32 l(2) c by simp
  have frame: "same_outside (header_medium cfg ctx io slot g c) ?rec (slot_offset io slot + 32) (length ?p)"
    using same_outside_patch [of "slot_offset io slot + 32" ?p "header_medium cfg ctx io slot g c"]
      payload_completes_record [OF ready, of g] f(1,3) l(2) by simp
  from serialize_payload_eq [OF ok sv s room] show thesis
  proof (elim disjE exE conjE)
    assume "writer_stops io contents inv (contents s)
      (unat (slot * slot_size io + MCONF_STORAGE_HEADER_SIZE)) (length ?p)
      (mconf_serialize_payload_to_storage cfg ctx io (slot * slot_size io + MCONF_STORAGE_HEADER_SIZE) s)"
    then show thesis
      unfolding writer_stops_def off32 c
      by (elim exE conjE) (rule payload [of MCONF_ERR_IO "ctx_bytes ctx"], auto simp: save_verified_def)
  next
    fix s1
    assume w: "mconf_serialize_payload_to_storage cfg ctx io (slot * slot_size io + MCONF_STORAGE_HEADER_SIZE) s =
        Some (MCONF_OK, s1)" "inv s1"
      "contents s1 = patch (contents s) (unat (slot * slot_size io + MCONF_STORAGE_HEADER_SIZE)) ?p"
    have c1: "contents s1 = ?rec" using w(3) by (simp add: c off32 payload_completes_record [OF ready])
    have nowrap: "unat (slot * slot_size io) + 32 < 2 ^ 64"
      using off f(3) size_t_bound [of "storage_size io"] by simp
    have room32: "slot_offset io slot + 32 \<le> length ?rec" using f(1,3) l(3) by simp
    obtain err vh s2 where r: "mconf_io_read_exact io s1 (slot * slot_size io) (replicate 32 0) = Some (err, vh, s2)"
      "inv s2" "contents s2 = ?rec"
      "(err = MCONF_OK \<and> vh = header) \<or> (err = MCONF_ERR_IO \<and> read_fault io contents inv)"
      by (rule read_exact [OF w(2) nowrap, of "replicate 32 0"])
         (use c1 off(1) room32 chunk_record_header [OF ready] h in \<open>auto\<close>)
    note save = save_verified_def Let_def w(1) r(1) ctx_data_bytes [OF ok]
    show thesis
    proof (cases "err = MCONF_OK")
      case False
      with r frame show thesis
        by (intro payload [of MCONF_ERR_IO "ctx_bytes ctx" s2]) (auto simp: save)
    next
      case True
      then have vh: "vh = header" using r(4) by auto
      obtain lerr info d s3 where
        ld: "mconf_load_slot_into_buffer cfg ctx io slot (ctx_bytes ctx) False s2 = Some (lerr, info, d, s3)"
        "length d = length (ctx_bytes ctx)" "inv s3" "contents s3 = ?rec"
        "(lerr = MCONF_OK \<and> info \<noteq> None \<and> slot_record cfg ctx io ?rec slot False = Some (the info, d)) \<or>
         (lerr \<noteq> MCONF_OK \<and> (read_fault io contents inv \<or> slot_record cfg ctx io ?rec slot False = None))"
        by (rule load_slot_eq [OF ok fits r(2) refl, of False, unfolded r(3)])
      show thesis
      proof (cases "lerr = MCONF_OK")
        case False
        with ld frame True vh show thesis by (intro payload [of lerr d s3]) (auto simp: save)
      next
        case ok3: True
        with ld True vh show thesis by (intro verified [of d s3 "the info"]) (auto simp: save)
      qed
    qed
  qed
qed

lemma save_payload_stages:
  assumes ok: "ctx_ok cfg ctx" and sv: "saveable cfg ctx" and ready: "save_ready cfg ctx io slot c"
    and s: "inv s" and c: "contents s = header_medium cfg ctx io slot g c"
    and h: "header = take 32 (record_bytes cfg ctx g MCONF_STORAGE_STATE_UNCOMMITTED)"
  obtains (payload) err d s' where
      "save_payload_and_commit cfg ctx io slot header s = Some (err, Some (ctx\<lparr>ctx_data := Some d\<rparr>), s')"
      "err \<noteq> MCONF_OK" "length d = length (ctx_bytes ctx)" "inv s'"
      "same_outside (header_medium cfg ctx io slot g c) (contents s')
         (slot_offset io slot + 32) (length (ctx_payload cfg ctx))"
      "write_fault io contents inv \<or> read_fault io contents inv \<or>
       slot_record cfg ctx io (record_medium cfg ctx io slot g MCONF_STORAGE_STATE_UNCOMMITTED c)
         slot False = None"
      "d = ctx_bytes ctx \<or> read_fault io contents inv \<or>
       slot_record cfg ctx io (record_medium cfg ctx io slot g MCONF_STORAGE_STATE_UNCOMMITTED c)
         slot False = None"
  | (commit) d info s3 err s' where
      "save_payload_and_commit cfg ctx io slot header s = Some (err, Some (ctx\<lparr>ctx_data := Some d\<rparr>), s')"
      "slot_record cfg ctx io (record_medium cfg ctx io slot g MCONF_STORAGE_STATE_UNCOMMITTED c)
         slot False = Some (info, d)" "length d = length (ctx_bytes ctx)"
      "inv s3" "contents s3 = record_medium cfg ctx io slot g MCONF_STORAGE_STATE_UNCOMMITTED c"
      "mconf_io_write_exact io s3 (slot * slot_size io + MCONF_STORAGE_STATE_OFFSET)
         [MCONF_STORAGE_STATE_COMMITTED] = Some (err, s')" "inv s'"
      "(err = MCONF_OK \<and> contents s' = record_medium cfg ctx io slot g MCONF_STORAGE_STATE_COMMITTED c) \<or>
       (err = MCONF_ERR_IO \<and> write_fault io contents inv \<and> same_outside
         (record_medium cfg ctx io slot g MCONF_STORAGE_STATE_UNCOMMITTED c) (contents s') (slot_offset io slot + 18) 1)"
proof (rule save_verified_stages [OF ok sv ready s c h])
  fix err d s'
  assume "save_verified cfg ctx io slot header s = Some (err, d, s')" "err \<noteq> MCONF_OK"
    "length d = length (ctx_bytes ctx)" "inv s'"
    "same_outside (header_medium cfg ctx io slot g c) (contents s')
       (slot_offset io slot + 32) (length (ctx_payload cfg ctx))"
    "write_fault io contents inv \<and>
       mconf_serialize_payload_to_storage cfg ctx io (slot * slot_size io + MCONF_STORAGE_HEADER_SIZE) s = Some (err, s') \<or>
     read_fault io contents inv \<or>
     slot_record cfg ctx io (record_medium cfg ctx io slot g MCONF_STORAGE_STATE_UNCOMMITTED c)
       slot False = None"
    "d = ctx_bytes ctx \<or> read_fault io contents inv \<or>
     slot_record cfg ctx io (record_medium cfg ctx io slot g MCONF_STORAGE_STATE_UNCOMMITTED c)
       slot False = None"
  then show thesis by (intro payload [of err d s']) (auto simp: save_from_verified [OF ok])
next
  fix d info s3
  assume v: "save_verified cfg ctx io slot header s = Some (MCONF_OK, d, s3)"
    "slot_record cfg ctx io (record_medium cfg ctx io slot g MCONF_STORAGE_STATE_UNCOMMITTED c)
       slot False = Some (info, d)" "length d = length (ctx_bytes ctx)"
    "inv s3" "contents s3 = record_medium cfg ctx io slot g MCONF_STORAGE_STATE_UNCOMMITTED c"
  have fits: "io_fits io ctx" "slot \<in> {0, 1}" using ready by (auto simp: save_ready_def)
  note f = save_ready_facts [OF ready] and l = length_media [OF ready]
  have off18: "unat (slot * slot_size io + MCONF_STORAGE_STATE_OFFSET) = slot_offset io slot + 18"
    using unat_slot_plus [OF fits, of 18] f(3) by simp
  then have room18: "unat (slot * slot_size io + MCONF_STORAGE_STATE_OFFSET) +
      length [MCONF_STORAGE_STATE_COMMITTED] \<le> length (contents s3)"
    using v(5) f(1,3) l(3) by simp
  obtain err s' where "mconf_io_write_exact io s3 (slot * slot_size io + MCONF_STORAGE_STATE_OFFSET)
      [MCONF_STORAGE_STATE_COMMITTED] = Some (err, s')" "inv s'"
    "(err = MCONF_OK \<and> contents s' = record_medium cfg ctx io slot g MCONF_STORAGE_STATE_COMMITTED c) \<or>
     (err = MCONF_ERR_IO \<and> write_fault io contents inv \<and> same_outside
       (record_medium cfg ctx io slot g MCONF_STORAGE_STATE_UNCOMMITTED c) (contents s') (slot_offset io slot + 18) 1)"
    by (rule write_exact [OF v(4) room18]) (use v(5) off18 commit_completes_save [OF ready] in auto)
  with v show thesis by (intro commit [of err d s' info s3]) (simp_all add: save_from_verified [OF ok])
qed

lemma save_record_stages:
  assumes ok: "ctx_ok cfg ctx" and sv: "saveable cfg ctx" and ready: "save_ready cfg ctx io slot (contents s)"
    and s: "inv s" and h: "header = take 32 (record_bytes cfg ctx g MCONF_STORAGE_STATE_UNCOMMITTED)"
  obtains (erase) rc s' where "the (io_erase io) s (slot * slot_size io) (slot_size io) = Some (rc, s')"
      "rc \<noteq> 0" "save_record cfg ctx io slot header s = Some (MCONF_ERR_IO, Some ctx, s')" "inv s'"
      "same_outside (contents s) (contents s') (slot_offset io slot) (unat (slot_size io))"
      "erase_fault io contents inv"
  | (header) s1 s' where "inv s1" "contents s1 = erased_medium io slot (contents s)"
      "mconf_io_write_exact io s1 (slot * slot_size io) header = Some (MCONF_ERR_IO, s')"
      "save_record cfg ctx io slot header s = Some (MCONF_ERR_IO, Some ctx, s')" "inv s'"
      "same_outside (erased_medium io slot (contents s)) (contents s') (slot_offset io slot) 32"
      "write_fault io contents inv"
  | (rest) s2 where "inv s2" "contents s2 = header_medium cfg ctx io slot g (contents s)"
      "save_record cfg ctx io slot header s = save_payload_and_commit cfg ctx io slot header s2"
proof (rule erase_slot [OF s ready])
  fix rc s'
  assume e: "the (io_erase io) s (slot * slot_size io) (slot_size io) = Some (rc, s')" "rc \<noteq> 0" "inv s'"
    "same_outside (contents s) (contents s') (slot_offset io slot) (unat (slot_size io))"
    "erase_fault io contents inv"
  with callbacks(3) show thesis by (intro erase [of rc s']) (auto simp: save_record_def)
next
  fix s1
  let ?c = "contents s"
  assume e: "the (io_erase io) s (slot * slot_size io) (slot_size io) = Some (0, s1)" "inv s1"
    "contents s1 = erased_medium io slot ?c"
  have fits: "io_fits io ctx" "slot \<in> {0, 1}" using ready by (auto simp: save_ready_def)
  note f = save_ready_facts [OF ready] and off = slot_arith(1,2) [OF fits] and l = length_media [OF ready]
  have hlen: "length header = 32" using f(2) by (simp add: h)
  have r1: "unat (slot * slot_size io) + length header \<le> length (contents s1)"
    using f(1,3) hlen off(1) e(3) l(1) by simp
  show thesis
  proof (rule write_exact [OF e(2) r1])
    fix s2
    assume "mconf_io_write_exact io s1 (slot * slot_size io) header = Some (MCONF_ERR_IO, s2)" "inv s2"
      "same_outside (contents s1) (contents s2) (unat (slot * slot_size io)) (length header)"
      "write_fault io contents inv"
    with e callbacks(3) off(1) hlen show thesis
      by (intro header [of s1 s2]) (auto simp: save_record_def)
  next
    fix s2
    assume w: "mconf_io_write_exact io s1 (slot * slot_size io) header = Some (MCONF_OK, s2)" "inv s2"
      "contents s2 = patch (contents s1) (unat (slot * slot_size io)) header"
    then have c2: "contents s2 = header_medium cfg ctx io slot g ?c"
      by (simp add: e(3) off(1) header_medium_def h)
    with e w callbacks(3) show thesis by (intro rest [of s2]) (auto simp: save_record_def)
  qed
qed

end

end
