(* ===== verification/Mconf_Atomic.thy ===== *)
theory Mconf_Atomic
  imports Mconf_Save
begin

text \<open>
  What a save does to the configuration that the medium stores. The slot that a save chooses is never
  the one that a load tries first, a half-written slot is not seen by a load, and a committed record
  is newer than the record in the other slot. Hence a save that runs to its end stores the new
  configuration, and one that stops anywhere before keeps the old one.
\<close>

section \<open>Slots that a load does not see\<close>

lemma header_at:
  assumes "io_fits io ctx" and "slot \<in> {0, 1}" and "length c = unat (storage_size io)" and "i < 32"
  shows "chunk c (slot_offset io slot) 32 ! i = c ! (slot_offset io slot + i)"
  using slot_arith(2) [OF assms(1,2)] assms by (intro chunk_nth) (auto simp: io_fits_def)

lemma uncommitted_invisible:
  assumes "ctx_schema ctx = Some sch" and "io_fits io ctx" and "slot \<in> {0, 1}"
    and "length c = unat (storage_size io)"
    and "c ! (slot_offset io slot + 18) \<noteq> MCONF_STORAGE_STATE_COMMITTED"
  shows "snd (slot_header ctx io c slot True) = None"
proof (rule ccontr)
  assume "snd (slot_header ctx io c slot True) \<noteq> None"
  then obtain info where "snd (slot_header ctx io c slot True) = Some info" by auto
  from header_check_Some(1,3) [OF assms(1) this [unfolded slot_header_def]]
  have "chunk c (slot_offset io slot) 32 ! 18 = MCONF_STORAGE_STATE_COMMITTED"
    by (auto simp: mconf_decode_header_def split: if_splits)
  with header_at [OF assms(2-4), of 18] assms(5) show False by simp
qed

lemma erased_invisible:
  assumes "ctx_schema ctx = Some sch" and "io_fits io ctx" and "slot \<in> {0, 1}"
    and "length c = unat (storage_size io)" and "c ! slot_offset io slot \<noteq> 0x4D"
  shows "snd (slot_header ctx io c slot True) = None"
proof (rule ccontr)
  assume "snd (slot_header ctx io c slot True) \<noteq> None"
  then obtain info where "snd (slot_header ctx io c slot True) = Some info" by auto
  from header_check_Some(1) [OF assms(1) this [unfolded slot_header_def]]
  have "take 4 (chunk c (slot_offset io slot) 32) = mconf_storage_magic"
    by (auto simp: mconf_decode_header_def split: if_splits)
  then have "take 4 (chunk c (slot_offset io slot) 32) ! 0 = 0x4D" by (simp add: mconf_storage_magic_def)
  with header_at [OF assms(2-4), of 0] assms(5) show False by simp
qed

section \<open>The slot and the generation of a save\<close>

definition next_generation :: "uint32 \<Rightarrow> uint32" where
  "next_generation g = (if g + 1 = 0 then 1 else g + 1)"

definition save_choice ::
  "mconf_err \<times> mconf_record_info option \<Rightarrow> mconf_err \<times> mconf_record_info option \<Rightarrow> size_t \<times> uint32" where
  "save_choice h0 h1 =
     (case (snd h0, snd h1) of
        (Some i0, Some i1) \<Rightarrow>
          if mconf_generation_is_newer (info_generation i1) (info_generation i0)
          then (0, next_generation (info_generation i1)) else (1, next_generation (info_generation i0))
      | (Some i0, None) \<Rightarrow> (1, next_generation (info_generation i0))
      | (None, Some i1) \<Rightarrow> (0, next_generation (info_generation i1))
      | (None, None) \<Rightarrow> (0, 1))"

lemma save_target_eq:
  assumes "e0 = MCONF_OK \<longleftrightarrow> i0 \<noteq> None" and "e1 = MCONF_OK \<longleftrightarrow> i1 \<noteq> None"
  shows "save_target e0 i0 e1 i1 = Some (save_choice (e0, i0) (e1, i1))"
  using assms by (cases i0; cases i1) (auto simp: save_target_def save_choice_def next_generation_def)

lemma next_generation_newer:
  assumes "next_generation g = g'"
  shows "mconf_generation_is_newer g' g" and "\<not> mconf_generation_is_newer g g'"
proof -
  have "g = - 1" if "g + 1 = 0" using that by (simp add: eq_neg_iff_add_eq_0)
  then show "mconf_generation_is_newer g' g" "\<not> mconf_generation_is_newer g g'"
    unfolding assms [symmetric] by (auto simp: mconf_generation_is_newer_def next_generation_def)
qed

lemma save_choice_slot: "save_choice h0 h1 = (slot, g) \<Longrightarrow> slot \<in> {0, 1}"
  by (auto simp: save_choice_def split: option.splits if_splits)

text \<open>The slot that a save overwrites is not the one that a load would try first.\<close>

lemma save_choice_spares_newest:
  assumes "save_choice h0 h1 = (slot, g)"
  shows "slot_order h0 h1 = [] \<or> hd (slot_order h0 h1) = 1 - slot"
  using assms by (auto simp: save_choice_def slot_order_def split: option.splits if_splits)

text \<open>A load tries a freshly committed record first, and the other slot when there is none.\<close>

lemma order_after_commit:
  assumes "save_choice h0 h1 = (slot, g)" and "info_generation info = g"
  shows "slot = 0 \<Longrightarrow> hd (slot_order (e, Some info) h1) = 0"
    and "slot = 1 \<Longrightarrow> hd (slot_order h0 (e, Some info)) = 1"
  using assms
  by (auto simp: save_choice_def slot_order_def next_generation_newer split: option.splits if_splits)

section \<open>The other slot\<close>

lemma other_slot_kept:
  assumes io: "io_fits io ctx" and slot: "slot \<in> {0, 1}" and len: "length c = unat (storage_size io)"
    and same: "same_outside c c' (slot_offset io slot) (unat (slot_size io))"
  shows "slot_bytes io c' (1 - slot) = slot_bytes io c (1 - slot)" and "length c' = length c"
    and "1 - slot \<in> {0, 1}"
proof -
  show other: "1 - slot \<in> {0, 1}" using slot by auto
  show "length c' = length c" using same by (simp add: same_outside_def)
  have "slot_offset io (1 - slot) + unat (slot_size io) \<le> slot_offset io slot \<or>
      slot_offset io slot + unat (slot_size io) \<le> slot_offset io (1 - slot)"
    using slot by (auto simp: slot_offset_def)
  then show "slot_bytes io c' (1 - slot) = slot_bytes io c (1 - slot)"
    unfolding slot_bytes_def by (rule same_outside_chunk [OF same])
qed

text \<open>The slot that a load tries first really reads, or there is none.\<close>

definition newest_reads :: "mconf_config \<Rightarrow> mconf_ctx \<Rightarrow> 's mconf_io \<Rightarrow> byte list \<Rightarrow> bool" where
  "newest_reads cfg ctx io c \<longleftrightarrow>
     load_order ctx io c = [] \<or> slot_record cfg ctx io c (hd (load_order ctx io c)) True \<noteq> None"

lemma stored_config_newest:
  "newest_reads cfg ctx io c \<Longrightarrow> load_order ctx io c \<noteq> [] \<Longrightarrow>
     stored_config cfg ctx io c = map_option snd (slot_record cfg ctx io c (hd (load_order ctx io c)) True)"
  by (cases "load_order ctx io c") (auto simp: newest_reads_def stored_config_def split: option.splits)

lemma old_config_kept:
  assumes sch: "ctx_schema ctx = Some sch" and io: "io_fits io ctx" and len: "length c = unat (storage_size io)"
    and choice: "save_choice (slot_header ctx io c 0 True) (slot_header ctx io c 1 True) = (slot, g)"
    and same: "same_outside c c' (slot_offset io slot) (unat (slot_size io))"
    and gone: "snd (slot_header ctx io c' slot True) = None"
    and reads: "newest_reads cfg ctx io c"
  shows "stored_config cfg ctx io c' = stored_config cfg ctx io c" and "newest_reads cfg ctx io c'"
proof -
  have slot: "slot \<in> {0, 1}" by (rule save_choice_slot [OF choice])
  note kept = other_slot_kept [OF io slot len same]
  have other: "slot_header ctx io c' (1 - slot) True = slot_header ctx io c (1 - slot) True"
    by (rule slot_header_local [OF io kept(3) len kept(2,1)])
  have "stored_config cfg ctx io c' = stored_config cfg ctx io c \<and> newest_reads cfg ctx io c'"
  proof (cases "load_order ctx io c = []")
    case True
    then have "load_order ctx io c' = []"
      using slot gone other
      by (auto simp: load_order_def slot_order_def split: option.splits if_splits)
    with True show ?thesis by (simp add: stored_config_def newest_reads_def)
  next
    case False
    then have hd: "hd (load_order ctx io c) = 1 - slot"
      using save_choice_spares_newest [OF choice] by (auto simp: load_order_def)
    obtain info d where r: "slot_record cfg ctx io c (1 - slot) True = Some (info, d)"
      using reads False hd by (auto simp: newest_reads_def)
    then have hdr: "snd (slot_header ctx io c (1 - slot) True) = Some info"
      by (auto simp: slot_record_def bind_Some_iff Let_def split: if_splits)
    have "load_order ctx io c' = [1 - slot]"
      using slot gone other hdr by (auto simp: load_order_def slot_order_def split: option.splits)
    moreover have "slot_record cfg ctx io c' (1 - slot) True = Some (info, d)"
      by (rule slot_record_local [OF sch io kept(3) len kept(2,1) r])
    ultimately show ?thesis
      using stored_config_newest [OF reads False] hd r by (simp add: stored_config_def newest_reads_def)
  qed
  then show "stored_config cfg ctx io c' = stored_config cfg ctx io c" "newest_reads cfg ctx io c'" by auto
qed

lemma new_config_stored:
  assumes sch: "ctx_schema ctx = Some sch" and io: "io_fits io ctx" and len: "length c = unat (storage_size io)"
    and choice: "save_choice (slot_header ctx io c 0 True) (slot_header ctx io c 1 True) = (slot, g)"
    and same: "same_outside c c' (slot_offset io slot) (unat (slot_size io))"
    and r: "slot_record cfg ctx io c' slot True = Some (info, d)" and g: "info_generation info = g"
  shows "stored_config cfg ctx io c' = Some d" and "newest_reads cfg ctx io c'"
proof -
  have slot: "slot \<in> {0, 1}" by (rule save_choice_slot [OF choice])
  note kept = other_slot_kept [OF io slot len same]
  have other: "slot_header ctx io c' (1 - slot) True = slot_header ctx io c (1 - slot) True"
    by (rule slot_header_local [OF io kept(3) len kept(2,1)])
  have hdr: "snd (slot_header ctx io c' slot True) = Some info"
    using r by (auto simp: slot_record_def bind_Some_iff Let_def split: if_splits)
  have ne: "load_order ctx io c' \<noteq> []"
    using slot hdr by (auto simp: load_order_def slot_order_def split: option.splits)
  have hd: "hd (load_order ctx io c') = slot"
    using slot order_after_commit [OF choice g] hdr other
    by (cases "slot_header ctx io c' slot True") (auto simp: load_order_def)
  show reads: "newest_reads cfg ctx io c'" using r hd by (simp add: newest_reads_def)
  show "stored_config cfg ctx io c' = Some d" using stored_config_newest [OF reads ne] hd r by simp
qed

section \<open>Properties\<close>

text \<open>Two generations are never each newer than the other.\<close>

lemma generation_asym: "mconf_generation_is_newer a b \<Longrightarrow> \<not> mconf_generation_is_newer b a"
proof
  assume "mconf_generation_is_newer a b" "mconf_generation_is_newer b a"
  then have pos: "sint (a - b) > 0" "sint (b - a) > 0" by (simp_all add: mconf_generation_is_newer_def)
  have "word_of_int (sint (a - b) + sint (b - a)) = (0 :: uint32)"
    by (simp only: of_int_add of_int_sint scast_id) simp
  then have "2 ^ 32 dvd sint (a - b) + sint (b - a)" unfolding word_of_int_eq_0_iff by simp
  moreover have "sint (a - b) < 2 ^ 31" "sint (b - a) < 2 ^ 31"
    using sint_lt [of "a - b"] sint_lt [of "b - a"] by simp_all
  ultimately show False using pos by (auto dest: zdvd_imp_le)
qed

lemma next_generation_nonzero: "next_generation g \<noteq> 0"
  by (simp add: next_generation_def)

text \<open>
  C21. The target of a save, for all header pairs and all generations up to and across the wrap-around
  at \<open>2 ^ 32\<close>: there is one; the new generation is never 0, it is newer than the generation of the slot that
  is kept and that one is not newer than it; and a slot with a valid header is overwritten only when
  the other one has a valid header that is not older.
\<close>

theorem save_target_rotates:
  assumes "e0 = MCONF_OK \<longleftrightarrow> i0 \<noteq> None" and "e1 = MCONF_OK \<longleftrightarrow> i1 \<noteq> None"
  shows "\<exists>slot g. save_target e0 i0 e1 i1 = Some (slot, g) \<and> slot \<in> {0, 1} \<and> g \<noteq> 0 \<and>
    (case if slot = 0 then i1 else i0 of
       Some kept \<Rightarrow> mconf_generation_is_newer g (info_generation kept) \<and>
         \<not> mconf_generation_is_newer (info_generation kept) g \<and>
         (case if slot = 0 then i0 else i1 of
            Some lost \<Rightarrow> \<not> mconf_generation_is_newer (info_generation lost) (info_generation kept)
          | None \<Rightarrow> True)
     | None \<Rightarrow> (if slot = 0 then i0 else i1) = None)"
proof -
  obtain slot g where choice: "save_choice (e0, i0) (e1, i1) = (slot, g)"
    by (cases "save_choice (e0, i0) (e1, i1)")
  then show ?thesis
    unfolding save_target_eq [OF assms] choice using choice next_generation_newer [OF refl] generation_asym next_generation_nonzero
    by (auto simp: save_choice_def split: option.splits if_splits)
qed

theorem save_target_rotates_witness:
  "save_target MCONF_OK (Some (header_record demo_ctx demo_schema (- 1) 9 0 0xA5)) MCONF_ERR_MAGIC None = Some (1, 1) \<and>
   (\<exists>slot g. save_target MCONF_OK (Some (header_record demo_ctx demo_schema (- 1) 9 0 0xA5)) MCONF_ERR_MAGIC None = Some (slot, g) \<and> g \<noteq> 0)"
  using save_target_rotates [of MCONF_OK "Some (header_record demo_ctx demo_schema (- 1) 9 0 0xA5)" MCONF_ERR_MAGIC None]
  by (auto simp: save_target_def header_record_def)

end
