(* ===== verification/Mconf_Commit.thy ===== *)
theory Mconf_Commit
  imports Mconf_Atomic
begin

text \<open>
  \<open>mconf_save\<close> as a whole: when it refuses, what it runs, and what the medium and the context hold
  afterwards, on any backend, on one that never fails, and on one that tears writes.
\<close>

lemma ucast_of_nat_32: "ucast (of_nat n :: size_t) = (of_nat n :: uint32)"
  by (rule bit_word_eqI) (simp add: bit_simps)

text \<open>The guards of a save that do not depend on the backend.\<close>

definition save_accepts :: "mconf_config \<Rightarrow> mconf_ctx \<Rightarrow> 's mconf_io \<Rightarrow> bool" where
  "save_accepts cfg ctx io \<longleftrightarrow>
     saveable cfg ctx \<and> 32 + length (ctx_payload cfg ctx) \<le> unat (slot_size io) \<and>
     length (ctx_entries ctx) < 2 ^ 16"

text \<open>No string of 64 KiB and no slot of 4 GiB: the length fields of the format can hold every length.\<close>

definition format_fits :: "mconf_ctx \<Rightarrow> 's mconf_io \<Rightarrow> bool" where
  "format_fits ctx io \<longleftrightarrow>
     (\<forall>k < length (ctx_entries ctx). string_fits (ctx_entries ctx ! k) (ctx_field ctx k)) \<and>
     unat (slot_size io) < 2 ^ 32"

lemma record_fits_accepts:
  "save_accepts cfg ctx io \<Longrightarrow> format_fits ctx io \<Longrightarrow> record_fits cfg ctx io"
  by (auto simp: save_accepts_def record_fits_def format_fits_def)

lemma payload_room_iff:
  assumes "ctx_ok cfg ctx" and "io_fits io ctx" and "saveable cfg ctx"
  shows "MCONF_STORAGE_HEADER_SIZE + of_nat (length (ctx_payload cfg ctx)) > slot_size io \<longleftrightarrow>
    \<not> 32 + length (ctx_payload cfg ctx) \<le> unat (slot_size io)"
proof -
  let ?n = "length (ctx_payload cfg ctx)"
  have n: "32 + ?n < 2 ^ 64"
    using length_ctx_payload_le [OF assms(1,3)] assms(2) by (simp add: io_fits_def)
  then have "unat (of_nat ?n :: size_t) = ?n" by (simp add: unat_of_nat_size)
  with n have "unat (MCONF_STORAGE_HEADER_SIZE + of_nat ?n) = 32 + ?n"
    by (subst unat_add_no_wrap) simp_all
  then show ?thesis by (simp add: word_less_nat_alt not_le)
qed

text \<open>
  The part of a save before its first write: it ends with an error, or with the target slot and the
  header for it.
\<close>

definition save_front ::
  "mconf_config \<Rightarrow> mconf_ctx \<Rightarrow> 's mconf_io \<Rightarrow> 's \<Rightarrow> (mconf_err \<times> 's + size_t \<times> byte list \<times> 's) option" where
  "save_front cfg ctx io s =
     do { (err, payload_length, payload_crc) \<leftarrow> mconf_compute_payload_layout cfg ctx 0 0;
          if err \<noteq> MCONF_OK then Some (Inl (err, s))
          else if MCONF_STORAGE_HEADER_SIZE + payload_length > slot_size io then Some (Inl (MCONF_ERR_SIZE, s))
          else
            do { (slot0_err, slot0_info, s) \<leftarrow> mconf_probe_slot_header ctx io s 0 True;
                 (slot1_err, slot1_info, s) \<leftarrow> mconf_probe_slot_header ctx io s 1 True;
                 (target_slot, next_generation) \<leftarrow> save_target slot0_err slot0_info slot1_err slot1_info;
                 (err, header) \<leftarrow> mconf_encode_header (replicate 32 0) ctx next_generation
                   (ucast payload_length) payload_crc MCONF_STORAGE_STATE_UNCOMMITTED;
                 Some (if err \<noteq> MCONF_OK then Inl (err, s) else Inr (target_slot, header, s)) } }"

lemma save_from_front:
  assumes "ctx_ok cfg ctx" and "io_fits io ctx" and "io_read io \<noteq> None" "io_write io \<noteq> None" "io_erase io \<noteq> None"
  shows "mconf_save cfg (Some ctx) (Some io) s =
    do { r \<leftarrow> save_front cfg ctx io s;
         (case r of Inl (err, s) \<Rightarrow> Some (err, Some ctx, s)
          | Inr (slot, header, s) \<Rightarrow> save_record cfg ctx io slot header s) }"
  using assms(3-)
  by (auto simp: mconf_save_def save_front_def require_context_ok [OF assms(1)] io_geometry [OF assms(2)]
      split: bind_splits prod.splits)

context storage_backend
begin

text \<open>A save either refuses without touching the medium, or runs the stages of Mconf_Save.\<close>

lemma save_front_cases:
  assumes ok: "ctx_ok cfg ctx" and fits: "io_fits io ctx" and s: "inv s"
  obtains (refused) err s' where "save_front cfg ctx io s = Some (Inl (err, s'))"
      "err \<noteq> MCONF_OK" "inv s'" "contents s' = contents s" "\<not> save_accepts cfg ctx io"
  | (run) slot g s1 where "save_accepts cfg ctx io" "inv s1" "contents s1 = contents s"
      "save_ready cfg ctx io slot (contents s)"
      "save_front cfg ctx io s =
         Some (Inr (slot, take 32 (record_bytes cfg ctx g MCONF_STORAGE_STATE_UNCOMMITTED), s1))"
      "read_fault io contents inv \<or> (slot, g) =
         save_choice (slot_header ctx io (contents s) 0 True) (slot_header ctx io (contents s) 1 True)"
proof -
  let ?c = "contents s" and ?p = "ctx_payload cfg ctx"
  obtain sch where sch: "ctx_schema ctx = Some sch" using ok by (elim ctx_okE) auto
  have small: "2 * length (ctx_bytes ctx) < 2 ^ 64" using fits by (simp add: io_fits_def)
  note start = save_front_def
  show thesis
  proof (cases "saveable cfg ctx \<and> 32 + length ?p \<le> unat (slot_size io)")
    case False
    show thesis
    proof (cases "saveable cfg ctx")
      case True
      with False have "save_front cfg ctx io s = Some (Inl (MCONF_ERR_SIZE, s))"
        using compute_payload_layout_eq [OF ok True small] payload_room_iff [OF ok fits True]
        by (simp add: start)
      with False s show thesis by (intro refused [of MCONF_ERR_SIZE s]) (auto simp: save_accepts_def)
    next
      case False
      from compute_payload_layout_error [OF ok this small, of 0 0] obtain err where
        "mconf_compute_payload_layout cfg ctx 0 0 = Some (err, 0, 0)" "err \<noteq> MCONF_OK" by blast
      with False s show thesis by (intro refused [of err s]) (auto simp: start save_accepts_def)
    qed
  next
    case True
    then have sv: "saveable cfg ctx" and room: "32 + length ?p \<le> unat (slot_size io)" by auto
    obtain e0 i0 s0 where p0: "mconf_probe_slot_header ctx io s 0 True = Some (e0, i0, s0)" "inv s0"
      "contents s0 = ?c" "(e0, i0) = slot_header ctx io ?c 0 True \<or> read_fault io contents inv"
      "e0 = MCONF_OK \<longleftrightarrow> i0 \<noteq> None"
      by (rule probe_eq [OF s fits _ sch, of 0 True]) auto
    obtain e1 i1 s1 where p1: "mconf_probe_slot_header ctx io s0 1 True = Some (e1, i1, s1)" "inv s1"
      "contents s1 = ?c" "(e1, i1) = slot_header ctx io ?c 1 True \<or> read_fault io contents inv"
      "e1 = MCONF_OK \<longleftrightarrow> i1 \<noteq> None"
      by (rule probe_eq [OF p0(2) fits _ sch, of 1 True, unfolded p0(3)]) auto
    obtain slot g where choice: "save_choice (e0, i0) (e1, i1) = (slot, g)" by (cases "save_choice (e0, i0) (e1, i1)")
    note target = save_target_eq [OF p0(5) p1(5), unfolded choice]
    have layout: "mconf_compute_payload_layout cfg ctx 0 0 = Some (MCONF_OK, of_nat (length ?p), crc32_of ?p)"
      "\<not> MCONF_STORAGE_HEADER_SIZE + of_nat (length ?p) > slot_size io"
      using compute_payload_layout_eq [OF ok sv small] payload_room_iff [OF ok fits sv] room by auto
    note head = start p0(1) p1(1) target layout ucast_of_nat_32
    show thesis
    proof (cases "entry_count sch \<le> 0xFFFF")
      case True
      have "mconf_encode_header (replicate 32 0) ctx g (of_nat (length ?p)) (crc32_of ?p)
          MCONF_STORAGE_STATE_UNCOMMITTED = Some (MCONF_OK,
            header_image ctx g (of_nat (length ?p)) (crc32_of ?p) MCONF_STORAGE_STATE_UNCOMMITTED)"
        by (rule encode_header_eq [OF sch True]) simp
      moreover have ready: "save_ready cfg ctx io slot ?c"
        using save_choice_slot [OF choice] fits room sch contents_size [OF s] by (simp add: save_ready_def)
      moreover have "length (ctx_entries ctx) < 2 ^ 16"
        using True ctx_length_entries [OF ok sch] by (simp add: word_le_nat_alt)
      moreover have "read_fault io contents inv \<or> (slot, g) =
          save_choice (slot_header ctx io ?c 0 True) (slot_header ctx io ?c 1 True)"
        using p0(4) p1(4) choice by auto
      ultimately show thesis
        using p1(2,3) sv room save_ready_facts(4) [OF ready]
        by (intro run [of s1 slot g]) (simp_all add: head save_accepts_def)
    next
      case False
      then have "\<not> length (ctx_entries ctx) < 2 ^ 16"
        using ctx_length_entries [OF ok sch] by (simp add: word_le_nat_alt)
      moreover have "\<exists>h. mconf_encode_header (replicate 32 0) ctx g (of_nat (length ?p)) (crc32_of ?p)
          MCONF_STORAGE_STATE_UNCOMMITTED = Some (MCONF_ERR_SIZE, h)"
        using False by (intro encode_header_too_many [OF sch]) simp_all
      ultimately show thesis
        using p1(2,3) by (intro refused [of MCONF_ERR_SIZE s1]) (auto simp: head save_accepts_def)
    qed
  qed
qed

lemma save_cases:
  assumes ok: "ctx_ok cfg ctx" and fits: "io_fits io ctx" and s: "inv s"
  obtains (refused) err s' where "mconf_save cfg (Some ctx) (Some io) s = Some (err, Some ctx, s')"
      "err \<noteq> MCONF_OK" "inv s'" "contents s' = contents s" "\<not> save_accepts cfg ctx io"
  | (run) slot g s1 where "save_accepts cfg ctx io" "inv s1" "contents s1 = contents s"
      "save_ready cfg ctx io slot (contents s)"
      "mconf_save cfg (Some ctx) (Some io) s = save_record cfg ctx io slot
         (take 32 (record_bytes cfg ctx g MCONF_STORAGE_STATE_UNCOMMITTED)) s1"
      "read_fault io contents inv \<or> (slot, g) =
         save_choice (slot_header ctx io (contents s) 0 True) (slot_header ctx io (contents s) 1 True)"
  by (rule save_front_cases [OF ok fits s])
     (use that save_from_front [OF ok fits callbacks, of s] in auto)

end

section \<open>Where a save stops\<close>

text \<open>
  The state in which a save that has started leaves its error, the data and the backend: \<open>c\<close> is what
  the medium held before.
\<close>

inductive save_stage ::
  "mconf_config \<Rightarrow> mconf_ctx \<Rightarrow> 's mconf_io \<Rightarrow> ('s \<Rightarrow> byte list) \<Rightarrow> ('s \<Rightarrow> bool) \<Rightarrow> size_t \<Rightarrow> uint32 \<Rightarrow>
    byte list \<Rightarrow> mconf_err \<Rightarrow> byte list \<Rightarrow> 's \<Rightarrow> bool"
  for cfg ctx io contents ok slot g c
where
  erase_failed:
    "the (io_erase io) s (slot * slot_size io) (slot_size io) = Some (rc, s') \<Longrightarrow> rc \<noteq> 0 \<Longrightarrow>
     ok s \<Longrightarrow> contents s = c \<Longrightarrow> erase_fault io contents ok \<Longrightarrow>
     same_outside c (contents s') (slot_offset io slot) (unat (slot_size io)) \<Longrightarrow>
     save_stage cfg ctx io contents ok slot g c MCONF_ERR_IO (ctx_bytes ctx) s'"
| header_failed:
    "mconf_io_write_exact io s (slot * slot_size io)
       (take 32 (record_bytes cfg ctx g MCONF_STORAGE_STATE_UNCOMMITTED)) = Some (MCONF_ERR_IO, s') \<Longrightarrow>
     ok s \<Longrightarrow> contents s = erased_medium io slot c \<Longrightarrow> write_fault io contents ok \<Longrightarrow>
     same_outside (erased_medium io slot c) (contents s') (slot_offset io slot) 32 \<Longrightarrow>
     save_stage cfg ctx io contents ok slot g c MCONF_ERR_IO (ctx_bytes ctx) s'"
| payload_failed:
    "err \<noteq> MCONF_OK \<Longrightarrow>
     same_outside (header_medium cfg ctx io slot g c) (contents s')
       (slot_offset io slot + 32) (length (ctx_payload cfg ctx)) \<Longrightarrow>
     write_fault io contents ok \<or> read_fault io contents ok \<or>
       slot_record cfg ctx io (record_medium cfg ctx io slot g MCONF_STORAGE_STATE_UNCOMMITTED c)
         slot False = None \<Longrightarrow>
     d = ctx_bytes ctx \<or> read_fault io contents ok \<or>
       slot_record cfg ctx io (record_medium cfg ctx io slot g MCONF_STORAGE_STATE_UNCOMMITTED c)
         slot False = None \<Longrightarrow>
     save_stage cfg ctx io contents ok slot g c err d s'"
| commit_failed:
    "mconf_io_write_exact io s (slot * slot_size io + MCONF_STORAGE_STATE_OFFSET)
       [MCONF_STORAGE_STATE_COMMITTED] = Some (MCONF_ERR_IO, s') \<Longrightarrow>
     ok s \<Longrightarrow> contents s = record_medium cfg ctx io slot g MCONF_STORAGE_STATE_UNCOMMITTED c \<Longrightarrow>
     write_fault io contents ok \<Longrightarrow>
     same_outside (record_medium cfg ctx io slot g MCONF_STORAGE_STATE_UNCOMMITTED c) (contents s')
       (slot_offset io slot + 18) 1 \<Longrightarrow>
     slot_record cfg ctx io (record_medium cfg ctx io slot g MCONF_STORAGE_STATE_UNCOMMITTED c)
       slot False = Some (info, d) \<Longrightarrow>
     save_stage cfg ctx io contents ok slot g c MCONF_ERR_IO d s'"
| committed:
    "contents s' = record_medium cfg ctx io slot g MCONF_STORAGE_STATE_COMMITTED c \<Longrightarrow>
     slot_record cfg ctx io (record_medium cfg ctx io slot g MCONF_STORAGE_STATE_UNCOMMITTED c)
       slot False = Some (info, d) \<Longrightarrow>
     save_stage cfg ctx io contents ok slot g c MCONF_OK d s'"

inductive_cases save_stage_OK [elim]: "save_stage cfg ctx io contents ok slot g c MCONF_OK d s'"

lemma save_stage_frame:
  assumes stage: "save_stage cfg ctx io contents ok slot g c err d s'" and ready: "save_ready cfg ctx io slot c"
  shows "same_outside c (contents s') (slot_offset io slot) (unat (slot_size io))"
proof -
  note same = media_same_outside [OF ready] and room = save_ready_facts(3) [OF ready]
  have inner: "same_outside c c' (slot_offset io slot) (unat (slot_size io))"
    if "same_outside c1 c' (slot_offset io slot + i) n" "i + n \<le> unat (slot_size io)"
      "same_outside c c1 (slot_offset io slot) (unat (slot_size io))" for c1 c' i n
    using same_outside_mono [OF that(1)] that(2) same_outside_trans [OF that(3)] by simp
  from stage show ?thesis
  proof cases
    case header_failed
    with inner [of _ _ 0 32, OF _ _ same(1)] room show ?thesis by simp
  next
    case payload_failed
    with inner [OF _ room same(2)] show ?thesis by simp
  next
    case commit_failed
    with inner [of _ _ 18 1, OF _ _ same(3)] room show ?thesis by simp
  qed (simp_all add: same)
qed

context storage_backend
begin

lemma save_record_stage:
  assumes ok: "ctx_ok cfg ctx" and sv: "saveable cfg ctx" and ready: "save_ready cfg ctx io slot (contents s)"
    and s: "inv s"
  obtains err d s' where
    "save_record cfg ctx io slot (take 32 (record_bytes cfg ctx g MCONF_STORAGE_STATE_UNCOMMITTED)) s =
       Some (err, Some (ctx\<lparr>ctx_data := Some d\<rparr>), s')"
    "length d = length (ctx_bytes ctx)" "inv s'" "save_stage cfg ctx io contents inv slot g (contents s) err d s'"
proof (rule save_record_stages [OF ok sv ready s refl, of g], goal_cases)
  case (1 rc s')
  then show ?case
    using that [of MCONF_ERR_IO "ctx_bytes ctx" s'] s save_stage.erase_failed [of io s slot rc s']
    by (simp add: ctx_set_own_data [OF ok])
next
  case (2 s1 s')
  then show ?case
    using that [of MCONF_ERR_IO "ctx_bytes ctx" s'] save_stage.header_failed [of io s1 slot cfg ctx g s']
    by (simp add: ctx_set_own_data [OF ok])
next
  case (3 s2)
  from ok sv ready 3(2,3) refl show ?case
  proof (rule save_payload_stages, goal_cases)
    case (1 err d s')
    then show ?case
      by (intro that [of err d s']) (auto simp: 3(4) intro: save_stage.payload_failed)
  next
    case (2 d info s3 err s')
    then show ?case
      by (intro that [of err d s']) (auto simp: 3(4) intro: save_stage.commit_failed save_stage.committed)
  qed
qed

text \<open>A save either refuses without touching the medium, or runs and stops at some stage.\<close>

lemma save_runs:
  assumes ok: "ctx_ok cfg ctx" and fits: "io_fits io ctx" and s: "inv s"
  obtains (refused) err s' where "mconf_save cfg (Some ctx) (Some io) s = Some (err, Some ctx, s')"
      "err \<noteq> MCONF_OK" "inv s'" "contents s' = contents s" "\<not> save_accepts cfg ctx io"
  | (started) slot g err d s' where
      "mconf_save cfg (Some ctx) (Some io) s = Some (err, Some (ctx\<lparr>ctx_data := Some d\<rparr>), s')"
      "length d = length (ctx_bytes ctx)" "inv s'" "save_accepts cfg ctx io"
      "save_ready cfg ctx io slot (contents s)" "save_stage cfg ctx io contents inv slot g (contents s) err d s'"
      "read_fault io contents inv \<or> (slot, g) =
         save_choice (slot_header ctx io (contents s) 0 True) (slot_header ctx io (contents s) 1 True)"
proof (rule save_cases [OF ok fits s])
  fix slot g s1
  assume acc: "save_accepts cfg ctx io" and s1: "inv s1" "contents s1 = contents s"
    and ready: "save_ready cfg ctx io slot (contents s)"
    and save: "mconf_save cfg (Some ctx) (Some io) s = save_record cfg ctx io slot
      (take 32 (record_bytes cfg ctx g MCONF_STORAGE_STATE_UNCOMMITTED)) s1"
    and choice: "read_fault io contents inv \<or> (slot, g) =
      save_choice (slot_header ctx io (contents s) 0 True) (slot_header ctx io (contents s) 1 True)"
  have sv: "saveable cfg ctx" using acc by (simp add: save_accepts_def)
  show thesis
    by (rule save_record_stage [OF ok sv ready [folded s1(2)] s1(1), of g])
       (use started acc ready choice save s1(2) in auto)
qed (rule refused)

text \<open>
  Every save returns, keeps the context valid and touches one slot at most. It reports success only
  when that slot holds the committed record of the context.
\<close>

lemma save_total:
  assumes ok: "ctx_ok cfg ctx" and fits: "io_fits io ctx" and s: "inv s"
  obtains err d slot s' where "mconf_save cfg (Some ctx) (Some io) s = Some (err, Some (ctx\<lparr>ctx_data := Some d\<rparr>), s')"
    "length d = length (ctx_bytes ctx)" "inv s'" "slot \<in> {0, 1}"
    "same_outside (contents s) (contents s') (slot_offset io slot) (unat (slot_size io))"
    "err = MCONF_OK \<Longrightarrow> save_accepts cfg ctx io \<and> data_valid cfg (ctx_entries ctx) d \<and>
      (\<exists>g. chunk (contents s') (slot_offset io slot) (length (record_bytes cfg ctx g MCONF_STORAGE_STATE_COMMITTED)) =
         record_bytes cfg ctx g MCONF_STORAGE_STATE_COMMITTED)"
proof (rule save_runs [OF ok fits s])
  fix err s'
  assume "mconf_save cfg (Some ctx) (Some io) s = Some (err, Some ctx, s')" "err \<noteq> MCONF_OK" "inv s'"
    "contents s' = contents s"
  then show thesis
    by (intro that [of err "ctx_bytes ctx" s' 0]) (simp_all add: ctx_set_own_data [OF ok])
next
  fix slot g err d s'
  assume run: "mconf_save cfg (Some ctx) (Some io) s = Some (err, Some (ctx\<lparr>ctx_data := Some d\<rparr>), s')"
    "length d = length (ctx_bytes ctx)" "inv s'" "save_accepts cfg ctx io"
    "save_ready cfg ctx io slot (contents s)" "save_stage cfg ctx io contents inv slot g (contents s) err d s'"
  show thesis
  proof (rule that [OF run(1-3) _ save_stage_frame [OF run(6,5)]])
    show "slot \<in> {0, 1}" using run(5) by (simp add: save_ready_def)
    assume "err = MCONF_OK"
    with run(6) show "save_accepts cfg ctx io \<and> data_valid cfg (ctx_entries ctx) d \<and>
      (\<exists>g. chunk (contents s') (slot_offset io slot) (length (record_bytes cfg ctx g MCONF_STORAGE_STATE_COMMITTED)) =
         record_bytes cfg ctx g MCONF_STORAGE_STATE_COMMITTED)"
      using run(4) chunk_record_medium [OF run(5), of g] slot_record_valid(2) [OF ok]
      by (auto elim!: save_stage_OK intro!: exI [of _ g])
  qed
qed

text \<open>A save that succeeds has stored the context, in a form that a load accepts.\<close>

lemma record_medium_reads:
  assumes ok: "ctx_ok cfg ctx" and sv: "saveable cfg ctx" and fits: "record_fits cfg ctx io"
    and ready: "save_ready cfg ctx io slot c"
    and st: "st = MCONF_STORAGE_STATE_COMMITTED \<or> (\<not> committed \<and> st = MCONF_STORAGE_STATE_UNCOMMITTED)"
  shows "\<exists>info. slot_record cfg ctx io (record_medium cfg ctx io slot g st c) slot committed =
    Some (info, saved_image ctx) \<and> info_generation info = g"
proof -
  obtain sch where sch: "ctx_schema ctx = Some sch" using ok by (elim ctx_okE) auto
  have io: "io_fits io ctx" and slot: "slot \<in> {0, 1}" and len: "length c = unat (storage_size io)"
    using ready by (auto simp: save_ready_def)
  show ?thesis
    using slot_record_written(2) [OF ok sv fits io slot sch _ chunk_record_medium [OF ready] st]
      length_media(3) [OF ready] len by (simp add: header_record_def)
qed

lemma stage_commit_stored:
  assumes ok: "ctx_ok cfg ctx" and fits: "record_fits cfg ctx io" and sv: "saveable cfg ctx"
    and ready: "save_ready cfg ctx io slot c"
    and choice: "(slot, g) = save_choice (slot_header ctx io c 0 True) (slot_header ctx io c 1 True)"
    and m: "c' = record_medium cfg ctx io slot g MCONF_STORAGE_STATE_COMMITTED c"
  shows "stored_config cfg ctx io c' = Some (saved_image ctx)" and "newest_reads cfg ctx io c'"
proof -
  obtain sch where sch: "ctx_schema ctx = Some sch" using ok by (elim ctx_okE) auto
  have io: "io_fits io ctx" and len: "length c = unat (storage_size io)" using ready by (auto simp: save_ready_def)
  obtain info where "slot_record cfg ctx io c' slot True = Some (info, saved_image ctx)" "info_generation info = g"
    using record_medium_reads [OF ok sv fits ready, of MCONF_STORAGE_STATE_COMMITTED True g] m by auto
  from new_config_stored [OF sch io len choice [symmetric] media_same_outside(3) [OF ready, of g] this [unfolded m]]
  show "stored_config cfg ctx io c' = Some (saved_image ctx)" "newest_reads cfg ctx io c'"
    by (simp_all add: m)
qed

text \<open>When reads do not fail, a save that fails leaves the data as it was or as it was read back.\<close>

lemma save_keeps_data:
  assumes ok: "ctx_ok cfg ctx" and fits: "io_fits io ctx" and ff: "format_fits ctx io" and s: "inv s"
    and reads: "\<not> read_fault io contents inv"
    and save: "mconf_save cfg (Some ctx) (Some io) s = Some (err, Some ctx', s')"
  shows "ctx' = ctx \<or> save_accepts cfg ctx io \<and> ctx' = ctx\<lparr>ctx_data := Some (saved_image ctx)\<rparr>"
proof (rule save_runs [OF ok fits s], goal_cases)
  case (1 err s')
  then show ?case using save by simp
next
  case (2 slot g err d s'')
  have rf: "record_fits cfg ctx io" and sv: "saveable cfg ctx"
    using record_fits_accepts [OF 2(4) ff] 2(4) by (simp_all add: save_accepts_def)
  note again = record_medium_reads [OF ok sv rf 2(5), of MCONF_STORAGE_STATE_UNCOMMITTED False g]
  from 2(6) have "d = ctx_bytes ctx \<or> d = saved_image ctx"
    by cases (use reads again in auto)
  with 2(1,4) save ctx_set_own_data [OF ok] show ?case by auto
qed

lemma save_OK_stored:
  assumes ok: "ctx_ok cfg ctx" and fits: "io_fits io ctx" and ff: "format_fits ctx io" and s: "inv s"
    and reads: "\<not> read_fault io contents inv"
    and save: "mconf_save cfg (Some ctx) (Some io) s = Some (MCONF_OK, p', s')"
  shows "p' = Some (ctx\<lparr>ctx_data := Some (saved_image ctx)\<rparr>)" and "inv s'"
    and "stored_config cfg ctx io (contents s') = Some (saved_image ctx)"
    and "newest_reads cfg ctx io (contents s')"
proof -
  from save_runs [OF ok fits s] save reads obtain slot g d where
    run: "p' = Some (ctx\<lparr>ctx_data := Some d\<rparr>)" "inv s'" "save_accepts cfg ctx io"
      "save_ready cfg ctx io slot (contents s)" "save_stage cfg ctx io contents inv slot g (contents s) MCONF_OK d s'"
      "(slot, g) = save_choice (slot_header ctx io (contents s) 0 True) (slot_header ctx io (contents s) 1 True)"
    by (metis option.inject prod.inject)
  have rf: "record_fits cfg ctx io" and sv: "saveable cfg ctx"
    using record_fits_accepts [OF run(3) ff] run(3) by (simp_all add: save_accepts_def)
  from run(5) obtain info where
    m: "contents s' = record_medium cfg ctx io slot g MCONF_STORAGE_STATE_COMMITTED (contents s)" and
    r: "slot_record cfg ctx io (record_medium cfg ctx io slot g MCONF_STORAGE_STATE_UNCOMMITTED (contents s))
      slot False = Some (info, d)" by (rule save_stage_OK)
  have "d = saved_image ctx"
    using r record_medium_reads [OF ok sv rf run(4), of MCONF_STORAGE_STATE_UNCOMMITTED False g] by auto
  with run(1,2) stage_commit_stored [OF ok rf sv run(4,6) m]
  show "p' = Some (ctx\<lparr>ctx_data := Some (saved_image ctx)\<rparr>)" "inv s'"
    "stored_config cfg ctx io (contents s') = Some (saved_image ctx)"
    "newest_reads cfg ctx io (contents s')" by simp_all
qed

end

text \<open>On a backend that never fails, every context that the library can write is saved.\<close>

context reliable_backend
begin

lemma save_succeeds:
  assumes ok: "ctx_ok cfg ctx" and fits: "io_fits io ctx" and ff: "format_fits ctx io" and s: "inv s"
    and acc: "save_accepts cfg ctx io"
  shows "\<exists>p' s'. mconf_save cfg (Some ctx) (Some io) s = Some (MCONF_OK, p', s')"
proof (rule save_runs [OF ok fits s], goal_cases)
  case (1 err s')
  then show ?case using acc by simp
next
  case (2 slot g err d s')
  have rf: "record_fits cfg ctx io" and sv: "saveable cfg ctx"
    using record_fits_accepts [OF acc ff] acc by (simp_all add: save_accepts_def)
  from 2(6) have "err = MCONF_OK"
    using no_erase_fault no_write_fault no_read_fault
      record_medium_reads [OF ok sv rf 2(5), of MCONF_STORAGE_STATE_UNCOMMITTED False g]
    by cases auto
  with 2(1) show ?case by blast
qed

end

section \<open>Interrupted saves\<close>

lemma nth_media:
  assumes "save_ready cfg ctx io slot c" and "i < unat (slot_size io)"
  shows "erased_medium io slot c ! (slot_offset io slot + i) = 0xFF"
    and "i < 32 \<Longrightarrow> header_medium cfg ctx io slot g c ! (slot_offset io slot + i) =
      record_bytes cfg ctx g MCONF_STORAGE_STATE_UNCOMMITTED ! i"
    and "i < 32 \<Longrightarrow> record_medium cfg ctx io slot g st c ! (slot_offset io slot + i) = record_bytes cfg ctx g st ! i"
  using assms save_ready_facts(1-3) [OF assms(1)] length_media(1) [OF assms(1)]
  by (simp_all add: erased_medium_def header_medium_def record_medium_def nth_patch)

lemma nth_record_state:
  "ctx_schema ctx = Some sch \<Longrightarrow> record_bytes cfg ctx g st ! 18 = st"
  by (simp add: record_bytes_def header_image_def nth_append)

context torn_backend
begin

text \<open>Wherever a save stops, a load sees the old medium, no record in the target slot, or the new one.\<close>

lemma stage_visible:
  assumes stage: "save_stage cfg ctx io contents inv slot g c err d s'" and ready: "save_ready cfg ctx io slot c"
  shows "contents s' = c \<or> snd (slot_header ctx io (contents s') slot True) = None \<or>
    contents s' = record_medium cfg ctx io slot g MCONF_STORAGE_STATE_COMMITTED c \<and>
    (err = MCONF_OK \<or> (\<exists>s. inv s \<and> contents s = record_medium cfg ctx io slot g MCONF_STORAGE_STATE_UNCOMMITTED c \<and>
       mconf_io_write_exact io s (slot * slot_size io + MCONF_STORAGE_STATE_OFFSET)
         [MCONF_STORAGE_STATE_COMMITTED] = Some (MCONF_ERR_IO, s')))"
proof -
  obtain sch where sch: "ctx_schema ctx = Some sch" using ready by (auto simp: save_ready_def)
  have fits: "io_fits io ctx" "slot \<in> {0, 1}" and len: "length c = unat (storage_size io)"
    using ready by (auto simp: save_ready_def)
  note off = slot_arith(1,2) [OF fits] and room = save_ready_facts(1-3) [OF ready]
    and l = length_media [OF ready]
  have len': "length (contents s') = unat (storage_size io)"
    using save_stage_frame [OF stage ready] len by (simp add: same_outside_def)
  note unseen = uncommitted_invisible [OF sch fits len']
  have state: "header_medium cfg ctx io slot g c ! (slot_offset io slot + 18) = MCONF_STORAGE_STATE_UNCOMMITTED"
    using nth_media(2) [OF ready, of 18] nth_record_state [OF sch] room(3) by simp
  from stage show ?thesis
  proof cases
    case (erase_failed s rc)
    have "unat (slot * slot_size io) + unat (slot_size io) < 2 ^ 64"
      using off size_t_bound [of "storage_size io"] by simp
    from erase_torn [OF erase_failed(5) this erase_failed(3)] obtain k where
      k: "k \<le> unat (slot_size io)" "contents s' = patch c (slot_offset io slot) (replicate k 0xFF)"
      by (auto simp: off(1) erase_failed(6))
    show ?thesis
    proof (cases "k = 0")
      case False
      then have "contents s' ! slot_offset io slot = 0xFF" using k room(1) by (simp add: nth_patch)
      then show ?thesis using erased_invisible [OF sch fits len'] by simp
    qed (simp add: k)
  next
    case (header_failed s)
    let ?h = "take 32 (record_bytes cfg ctx g MCONF_STORAGE_STATE_UNCOMMITTED)"
    have "unat (slot * slot_size io) + length ?h \<le> length (contents s)"
      using header_failed(5) off(1) room l(1) by simp
    then obtain k where "k \<le> length ?h" "contents s' = patch (contents s) (slot_offset io slot) (take k ?h)"
      by (rule write_exact_torn [OF header_failed(4)]) (use header_failed(3) off(1) in auto)
    moreover have "?h ! 18 = MCONF_STORAGE_STATE_UNCOMMITTED" using nth_record_state [OF sch] by simp
    ultimately have "contents s' ! (slot_offset io slot + 18) \<noteq> MCONF_STORAGE_STATE_COMMITTED"
      using header_failed(5) nth_media(1) [OF ready, of 18] room l(1) by (auto simp: nth_patch)
    then show ?thesis using unseen by simp
  next
    case payload_failed
    have "contents s' ! (slot_offset io slot + 18) = MCONF_STORAGE_STATE_UNCOMMITTED"
      using payload_failed(2) state room l(2) len by (simp add: same_outside_def)
    then show ?thesis using unseen by simp
  next
    case (commit_failed s)
    have off18: "unat (slot * slot_size io + MCONF_STORAGE_STATE_OFFSET) = slot_offset io slot + 18"
      using unat_slot_plus [OF fits, of 18] room(3) by simp
    have "unat (slot * slot_size io + MCONF_STORAGE_STATE_OFFSET) + length [MCONF_STORAGE_STATE_COMMITTED]
        \<le> length (contents s)"
      using commit_failed(4) off18 room l(3) by simp
    then obtain k where "k \<le> 1" "contents s' = patch (contents s) (slot_offset io slot + 18)
        (take k [MCONF_STORAGE_STATE_COMMITTED])"
      by (rule write_exact_torn [OF commit_failed(3)]) (use commit_failed(2) off18 in auto)
    then consider "contents s' = contents s" | "contents s' = record_medium cfg ctx io slot g MCONF_STORAGE_STATE_COMMITTED c"
      using commit_completes_save [OF ready] commit_failed(4) by (cases k) auto
    then show ?thesis
    proof cases
      case 1
      then have "contents s' ! (slot_offset io slot + 18) = MCONF_STORAGE_STATE_UNCOMMITTED"
        using nth_media(3) [OF ready, of 18] nth_record_state [OF sch] room(3) commit_failed(4) by simp
      then show ?thesis using unseen by simp
    qed (use commit_failed in auto)
  next
    case committed
    then show ?thesis by simp
  qed
qed

lemma save_atomic:
  assumes ok: "ctx_ok cfg ctx" and fits: "io_fits io ctx" and ff: "format_fits ctx io" and s: "inv s"
    and reads: "newest_reads cfg ctx io (contents s)"
    and save: "mconf_save cfg (Some ctx) (Some io) s = Some (err, p', s')"
  shows "newest_reads cfg ctx io (contents s')"
    and "stored_config cfg ctx io (contents s') = stored_config cfg ctx io (contents s) \<or>
      stored_config cfg ctx io (contents s') = Some (saved_image ctx)"
proof -
  have "newest_reads cfg ctx io (contents s') \<and>
    (stored_config cfg ctx io (contents s') = stored_config cfg ctx io (contents s) \<or>
      stored_config cfg ctx io (contents s') = Some (saved_image ctx))"
  proof (rule save_runs [OF ok fits s], goal_cases)
    case (1 err s')
    then show ?case using save reads by simp
  next
    case (2 slot g err d s'')
    then have s'': "s'' = s'" using save by simp
    obtain sch where sch: "ctx_schema ctx = Some sch" using ok by (elim ctx_okE) auto
    have rf: "record_fits cfg ctx io" and sv: "saveable cfg ctx"
      using record_fits_accepts [OF 2(4) ff] 2(4) by (simp_all add: save_accepts_def)
    have choice: "(slot, g) = save_choice (slot_header ctx io (contents s) 0 True) (slot_header ctx io (contents s) 1 True)"
      using 2(7) no_read_fault by blast
    from stage_visible [OF 2(6,5)] show ?case
      using reads old_config_kept [OF sch fits contents_size [OF s] choice [symmetric] save_stage_frame [OF 2(6,5)] _ reads]
        stage_commit_stored [OF ok rf sv 2(5) choice] s'' by auto
  qed
  then show "newest_reads cfg ctx io (contents s')"
    "stored_config cfg ctx io (contents s') = stored_config cfg ctx io (contents s) \<or>
      stored_config cfg ctx io (contents s') = Some (saved_image ctx)" by auto
qed

end

section \<open>The store of the tests\<close>

lemma demo_format_fits: "format_fits demo_ctx fake_io"
  using demo_record_fits by (simp add: format_fits_def record_fits_def) (simp add: fake_io_def)

lemma demo_accepts: "save_accepts default_config demo_ctx fake_io"
  using demo_record_fits by (simp add: save_accepts_def demo_saveable record_fits_def)

text \<open>An erased medium stores nothing.\<close>

lemma erased_newest:
  assumes "ctx_schema ctx = Some sch" and "io_fits io ctx"
  shows "newest_reads cfg ctx io (replicate (unat (storage_size io)) 0xFF)"
    and "stored_config cfg ctx io (replicate (unat (storage_size io)) 0xFF) = None"
proof -
  have "snd (slot_header ctx io (replicate (unat (storage_size io)) 0xFF) slot True) = None"
    if slot: "slot \<in> {0, 1}" for slot
  proof (rule erased_invisible [OF assms slot])
    have "slot_offset io slot < unat (storage_size io)"
      using assms(2) slot by (auto simp: slot_offset_def io_fits_def)
    then show "replicate (unat (storage_size io)) 0xFF ! slot_offset io slot \<noteq> (0x4D :: byte)" by simp
  qed simp
  from this [of 0] this [of 1] have "load_order ctx io (replicate (unat (storage_size io)) 0xFF) = []"
    by (simp add: load_order_def slot_order_def)
  then show "newest_reads cfg ctx io (replicate (unat (storage_size io)) 0xFF)"
    "stored_config cfg ctx io (replicate (unat (storage_size io)) 0xFF) = None"
    by (simp_all add: newest_reads_def stored_config_def)
qed

lemma fresh_store_newest: "newest_reads default_config demo_ctx fake_io (fs_bytes fresh_store)"
  using erased_newest(1) [OF _ demo_io_fits, of demo_schema default_config]
  by (simp add: demo_ctx_def fresh_store_def) (simp add: fake_io_def)

lemma saved_store_newest:
  "newest_reads default_config demo_ctx fake_io (fs_bytes saved_store)"
  "stored_config default_config demo_ctx fake_io (fs_bytes saved_store) = Some (saved_image demo_ctx)"
proof -
  have sch: "ctx_schema demo_ctx = Some demo_schema" by (simp add: demo_ctx_def)
  have "snd (slot_header demo_ctx fake_io (fs_bytes saved_store) 1 True) = None"
  proof (rule erased_invisible [OF sch demo_io_fits])
    show "fs_bytes saved_store ! slot_offset fake_io 1 \<noteq> 0x4D"
      by (simp add: saved_store_def slot_offset_def fake_io_def nth_patch demo_record_length)
  qed (use saved_store_ok in \<open>simp_all add: fake_inv_def fake_io_def\<close>)
  moreover have "snd (slot_header demo_ctx fake_io (fs_bytes saved_store) 0 True) \<noteq> None"
    using slot_record_valid(3) [OF demo_ctx_ok saved_store_reads] by simp
  ultimately have "load_order demo_ctx fake_io (fs_bytes saved_store) = [0]"
    by (auto simp: load_order_def slot_order_def split: option.splits)
  with saved_store_reads
  show "newest_reads default_config demo_ctx fake_io (fs_bytes saved_store)"
    "stored_config default_config demo_ctx fake_io (fs_bytes saved_store) = Some (saved_image demo_ctx)"
    by (simp_all add: newest_reads_def stored_config_def)
qed

section \<open>Interfaces of the properties\<close>

context torn_backend
begin

lemma save_returns_atomic:
  assumes ok: "ctx_ok cfg ctx" and fits: "io_fits io ctx" and ff: "format_fits ctx io" and s: "inv s"
    and reads: "newest_reads cfg ctx io (contents s)"
  shows "\<exists>err p' s'. mconf_save cfg (Some ctx) (Some io) s = Some (err, p', s') \<and> inv s' \<and>
    newest_reads cfg ctx io (contents s') \<and>
    (if err = MCONF_OK
     then p' = Some (ctx\<lparr>ctx_data := Some (saved_image ctx)\<rparr>) \<and>
       stored_config cfg ctx io (contents s') = Some (saved_image ctx)
     else stored_config cfg ctx io (contents s') \<in>
       {stored_config cfg ctx io (contents s), Some (saved_image ctx)})"
proof (rule save_total [OF ok fits s])
  fix err d slot s'
  assume save: "mconf_save cfg (Some ctx) (Some io) s = Some (err, Some (ctx\<lparr>ctx_data := Some d\<rparr>), s')"
    and s': "inv s'"
  note atomic = save_atomic [OF ok fits ff s reads save]
  show ?thesis
  proof (cases "err = MCONF_OK")
    case True
    from save_OK_stored [OF ok fits ff s no_read_fault save [unfolded True]] save s' True
    show ?thesis by auto
  next
    case False
    with save s' atomic show ?thesis by auto
  qed
qed

end

end
