(* ===== verification/Mconf_Machine.thy ===== *)
theory Mconf_Machine
  imports Mconf_Commit
begin

text \<open>
  The library as a state machine: a device runs any sequence of requests to one configuration, is reset
  at any moment with its memory lost, and keeps its storage. The abstract store is a pair of the live
  configuration and the one that a restart would load; every call is a step of it.
\<close>

section \<open>Requests\<close>

text \<open>
  The calls that change the configuration or the storage. The source of a setter is an object of the
  caller with exactly the given bytes; \<open>Set_Scalar\<close> stands for the eight typed setters.
\<close>

datatype request =
    Set_Raw size_t "byte list"
  | Set_String size_t "byte list"
  | Set_Blob size_t "byte list"
  | Set_Scalar mconf_type size_t "byte list"
  | Reset_Field size_t
  | Load_Defaults
  | Load
  | Save

fun api_call ::
  "mconf_config \<Rightarrow> 's mconf_io \<Rightarrow> request \<Rightarrow> mconf_ctx \<times> 's \<Rightarrow> (mconf_err \<times> mconf_ctx option \<times> 's) option" where
  "api_call cfg io (Set_Raw i bs) (ctx, s) =
     do { (err, p) \<leftarrow> mconf_set (Some ctx) i (ExtPtr bs) (of_nat (length bs)); Some (err, p, s) }"
| "api_call cfg io (Set_String i bs) (ctx, s) =
     do { (err, p, _) \<leftarrow> mconf_set_string (Some ctx) i (ExtPtr bs) (of_nat (length bs)) None; Some (err, p, s) }"
| "api_call cfg io (Set_Blob i bs) (ctx, s) =
     do { (err, p) \<leftarrow> mconf_set_blob (Some ctx) i (ExtPtr bs) (of_nat (length bs)); Some (err, p, s) }"
| "api_call cfg io (Set_Scalar ty i bs) (ctx, s) =
     do { (err, p) \<leftarrow> mconf_set_typed_scalar cfg (Some ctx) i ty (ExtPtr bs) (of_nat (length bs)); Some (err, p, s) }"
| "api_call cfg io (Reset_Field i) (ctx, s) = do { (err, p) \<leftarrow> mconf_reset_field (Some ctx) i; Some (err, p, s) }"
| "api_call cfg io Load_Defaults (ctx, s) = do { (err, p) \<leftarrow> mconf_load_defaults (Some ctx); Some (err, p, s) }"
| "api_call cfg io Load (ctx, s) = mconf_load cfg (Some ctx) (Some io) s"
| "api_call cfg io Save (ctx, s) = mconf_save cfg (Some ctx) (Some io) s"

text \<open>An object of the caller leaves room in the address space, and a typed setter has a scalar type.\<close>

fun request_ok :: "request \<Rightarrow> bool" where
  "request_ok (Set_Raw i bs) \<longleftrightarrow> length bs + 1 < 2 ^ 64"
| "request_ok (Set_String i bs) \<longleftrightarrow> length bs + 1 < 2 ^ 64"
| "request_ok (Set_Blob i bs) \<longleftrightarrow> length bs + 1 < 2 ^ 64"
| "request_ok (Set_Scalar ty i bs) \<longleftrightarrow> length bs + 1 < 2 ^ 64 \<and> mconf_is_scalar_type ty"
| "request_ok _ \<longleftrightarrow> True"

section \<open>Writing one field\<close>

fun request_field :: "request \<Rightarrow> size_t option" where
  "request_field (Set_Raw i bs) = Some i"
| "request_field (Set_String i bs) = Some i"
| "request_field (Set_Blob i bs) = Some i"
| "request_field (Set_Scalar ty i bs) = Some i"
| "request_field (Reset_Field i) = Some i"
| "request_field _ = None"

text \<open>What the field of an entry is to hold after a request, or \<open>None\<close> for a request that is refused.\<close>

definition string_value :: "mconf_entry \<Rightarrow> byte list \<Rightarrow> byte list option" where
  "string_value e cs =
     (if length cs < unat (entry_size e) \<and> 0 \<notin> set cs
      then Some (cs @ replicate (unat (entry_size e) - length cs) 0) else None)"

definition plain_value :: "mconf_entry \<Rightarrow> byte list \<Rightarrow> byte list option" where
  "plain_value e bs = (if length bs = unat (entry_size e) \<and> value_ok e bs then Some bs else None)"

fun request_value :: "mconf_config \<Rightarrow> mconf_entry \<Rightarrow> request \<Rightarrow> byte list option" where
  "request_value cfg e (Set_Raw i bs) =
     (if entry_type e = MCONF_TYPE_STRING then string_value e bs else plain_value e bs)"
| "request_value cfg e (Set_String i bs) = (if entry_type e = MCONF_TYPE_STRING then string_value e bs else None)"
| "request_value cfg e (Set_Blob i bs) = (if entry_type e = MCONF_TYPE_BLOB then plain_value e bs else None)"
| "request_value cfg e (Set_Scalar ty i bs) =
     (if entry_type e = ty \<and> scalar_ok cfg ty then plain_value e bs else None)"
| "request_value cfg e (Reset_Field i) = Some (default_bytes e)"
| "request_value cfg e _ = None"

definition field_result :: "mconf_config \<Rightarrow> mconf_ctx \<Rightarrow> request \<Rightarrow> size_t \<Rightarrow> byte list option" where
  "field_result cfg ctx req i =
     (if unat i < length (ctx_entries ctx) then request_value cfg (ctx_entries ctx ! unat i) req else None)"

lemma size_of_object:
  "length bs + 1 < 2 ^ 64 \<Longrightarrow> unat (of_nat (length bs) :: size_t) = length bs"
  "length bs + 1 < 2 ^ 64 \<Longrightarrow> (of_nat (length bs) :: size_t) + 1 \<noteq> 0"
  "length bs + 1 < 2 ^ 64 \<Longrightarrow> (of_nat (length bs) = n) = (length bs = unat (n :: size_t))"
proof -
  assume small: "length bs + 1 < 2 ^ 64"
  then show u: "unat (of_nat (length bs) :: size_t) = length bs"
    by (simp add: unat_of_nat take_bit_nat_eq_self)
  have "(of_nat (Suc (length bs)) :: size_t) \<noteq> 0"
    using small by (auto simp: word_of_nat_eq_0_iff simp del: of_nat_Suc dest!: dvd_imp_le)
  then show "(of_nat (length bs) :: size_t) + 1 \<noteq> 0" by (simp add: add.commute)
  show "(of_nat (length bs) = n) = (length bs = unat n)" using u by auto
qed

lemma plain_store:
  assumes ok: "ctx_ok cfg ctx" and i: "i < length (ctx_entries ctx)"
    and ty: "entry_type (ctx_entries ctx ! i) \<noteq> MCONF_TYPE_STRING"
    and len: "length bs = unat (entry_size (ctx_entries ctx ! i))"
  shows "do { bad \<leftarrow> (if entry_type (ctx_entries ctx ! i) = MCONF_TYPE_BOOL
                then not_a_bool (ctx_bytes ctx) (ExtPtr bs) else Some False);
              if bad then Some (MCONF_ERR_INVALID, Some ctx)
              else store_field ctx (ctx_entries ctx ! i) (ctx_bytes ctx) (ExtPtr bs) } =
    Some (case plain_value (ctx_entries ctx ! i) bs of
            Some v \<Rightarrow> (MCONF_OK, Some (ctx_put ctx i v)) | None \<Rightarrow> (MCONF_ERR_INVALID, Some ctx))"
proof (cases "entry_type (ctx_entries ctx ! i) = MCONF_TYPE_BOOL")
  case True
  with ctx_bool_size [OF ok i] len obtain b where b: "bs = [b]" by (cases bs) auto
  have "store_field ctx (ctx_entries ctx ! i) (ctx_bytes ctx) (ExtPtr bs) = Some (MCONF_OK, Some (ctx_put ctx i bs))"
    using store_field_eq [OF ok i, of "ExtPtr bs"] len by simp
  then show ?thesis
    using True len unfolding b by (simp add: not_a_bool_eq plain_value_def value_ok_def del: One_nat_def)
next
  case False
  with len ty show ?thesis
    using store_field_eq [OF ok i, of "ExtPtr bs"] by (simp add: plain_value_def value_ok_def)
qed

lemma set_string_result:
  assumes ok: "ctx_ok cfg ctx" and i: "unat i < length (ctx_entries ctx)"
    and ty: "entry_type (ctx_entries ctx ! unat i) = MCONF_TYPE_STRING" and small: "length bs + 1 < 2 ^ 64"
  shows "\<exists>err req'. mconf_set_string (Some ctx) i (ExtPtr bs) (of_nat (length bs)) req =
      Some (err, Some (case string_value (ctx_entries ctx ! unat i) bs of Some v \<Rightarrow> ctx_put ctx (unat i) v | None \<Rightarrow> ctx), req') \<and>
    (err = MCONF_OK \<longleftrightarrow> string_value (ctx_entries ctx ! unat i) bs \<noteq> None)"
proof -
  let ?e = "ctx_entries ctx ! unat i"
  note len = size_of_object [OF small]
  have fits: "(of_nat (length bs) + 1 > entry_size ?e) \<longleftrightarrow> \<not> length bs < unat (entry_size ?e)"
    using unat_Suc_size [OF len(2)] len(1) by (simp add: word_less_nat_alt not_less less_Suc_eq_le)
  show ?thesis
  proof (cases "length bs < unat (entry_size ?e)")
    case False
    with fits ty show ?thesis
      by (simp add: mconf_set_string_def ctx_guards [OF ok] i Let_def string_value_def)
  next
    case True
    show ?thesis
    proof (cases "0 \<in> set bs")
      case nul: True
      with True fits ty len show ?thesis
        using src_has_nul_eq [of "ctx_bytes ctx" "ExtPtr bs" 0 "length bs"]
        by (simp add: mconf_set_string_def ctx_guards [OF ok] i Let_def string_value_def chunk_def)
    next
      case False
      with True len set_string_eq [OF ok i ty, of "of_nat (length bs)" "ExtPtr bs" req]
      show ?thesis by (fastforce simp: string_value_def)
    qed
  qed
qed

text \<open>The result of every request to a field.\<close>

definition field_effect :: "mconf_ctx \<Rightarrow> nat \<Rightarrow> byte list option \<Rightarrow> mconf_err \<Rightarrow> mconf_ctx option \<Rightarrow> bool" where
  "field_effect ctx i v err p \<longleftrightarrow>
     p = Some (case v of Some bs \<Rightarrow> ctx_put ctx i bs | None \<Rightarrow> ctx) \<and> (err = MCONF_OK \<longleftrightarrow> v \<noteq> None)"

lemma set_string_effect_exact:
  assumes ok: "ctx_ok cfg ctx" and i: "unat i < length (ctx_entries ctx)"
    and small: "length bs + 1 < 2 ^ 64" and string: "entry_type (ctx_entries ctx ! unat i) = MCONF_TYPE_STRING"
  shows "\<exists>err p req'. mconf_set_string (Some ctx) i (ExtPtr bs) (of_nat (length bs)) req = Some (err, p, req') \<and>
    field_effect ctx (unat i) (string_value (ctx_entries ctx ! unat i) bs) err p"
  using set_string_result [OF ok i string small, of req] by (auto simp: field_effect_def)

lemma set_raw_effect:
  assumes ok: "ctx_ok cfg ctx" and i: "unat i < length (ctx_entries ctx)"
    and small: "length bs + 1 < 2 ^ 64"
  shows "\<exists>err p. mconf_set (Some ctx) i (ExtPtr bs) (of_nat (length bs)) = Some (err, p) \<and>
    field_effect ctx (unat i) (request_value cfg (ctx_entries ctx ! unat i) (Set_Raw i bs)) err p"
proof -
  let ?e = "ctx_entries ctx ! unat i"
  note guards = ctx_guards [OF ok] i field_effect_def
  have size: "entry_size ?e \<noteq> 0" using ctx_entry_ok [OF ok i] by (simp add: entry_ok_def)
  consider "entry_type ?e = MCONF_TYPE_STRING"
    | "entry_type ?e \<noteq> MCONF_TYPE_STRING" "length bs = unat (entry_size ?e)" "of_nat (length bs) = entry_size ?e"
    | "entry_type ?e \<noteq> MCONF_TYPE_STRING" "length bs \<noteq> unat (entry_size ?e)" "of_nat (length bs) \<noteq> entry_size ?e"
    using size_of_object(3) [OF small, of "entry_size ?e"] by blast
  then show ?thesis
  proof cases
    case 1
    with set_string_effect_exact [OF ok i small 1, of "Some 0"] show ?thesis
      by (auto simp: mconf_set_def guards)
  next
    case 2
    with size plain_store [OF ok i 2(1,2)] show ?thesis
      by (auto simp: mconf_set_def guards split: option.splits)
  next
    case 3
    then show ?thesis by (auto simp: mconf_set_def guards plain_value_def)
  qed
qed

lemma set_blob_effect_exact:
  assumes ok: "ctx_ok cfg ctx" and i: "unat i < length (ctx_entries ctx)"
    and small: "length bs + 1 < 2 ^ 64"
  shows "\<exists>err p. mconf_set_blob (Some ctx) i (ExtPtr bs) (of_nat (length bs)) = Some (err, p) \<and>
    field_effect ctx (unat i) (request_value cfg (ctx_entries ctx ! unat i) (Set_Blob i bs)) err p"
proof -
  let ?e = "ctx_entries ctx ! unat i"
  note guards = ctx_guards [OF ok] i field_effect_def plain_value_def
  have size: "entry_size ?e \<noteq> 0" using ctx_entry_ok [OF ok i] by (simp add: entry_ok_def)
  show ?thesis
  proof (cases "entry_type ?e = MCONF_TYPE_BLOB \<and> length bs = unat (entry_size ?e)")
    case True
    then have "of_nat (length bs) = entry_size ?e" using size_of_object(3) [OF small] by blast
    with True size store_field_eq [OF ok i, of "ExtPtr bs"] show ?thesis
      by (auto simp: mconf_set_blob_def guards value_ok_def)
  next
    case False
    then have "entry_type ?e \<noteq> MCONF_TYPE_BLOB \<or> of_nat (length bs) \<noteq> entry_size ?e"
      using size_of_object(3) [OF small, of "entry_size ?e"] by blast
    with False show ?thesis by (auto simp: mconf_set_blob_def guards)
  qed
qed

lemma set_scalar_effect:
  assumes ok: "ctx_ok cfg ctx" and i: "unat i < length (ctx_entries ctx)"
    and small: "length bs + 1 < 2 ^ 64" and scalar: "mconf_is_scalar_type ty"
  shows "\<exists>err p. mconf_set_typed_scalar cfg (Some ctx) i ty (ExtPtr bs) (of_nat (length bs)) = Some (err, p) \<and>
    field_effect ctx (unat i) (request_value cfg (ctx_entries ctx ! unat i) (Set_Scalar ty i bs)) err p"
proof -
  let ?e = "ctx_entries ctx ! unat i"
  note guards = ctx_guards [OF ok] i field_effect_def
  show ?thesis
  proof (cases "entry_type ?e = ty \<and> scalar_ok cfg ty \<and> length bs = unat (entry_size ?e)")
    case True
    then have "of_nat (length bs) = entry_size ?e" using size_of_object(3) [OF small] by blast
    moreover have "ty \<noteq> MCONF_TYPE_STRING" using scalar by (auto simp: mconf_is_scalar_type_def)
    ultimately show ?thesis
      using True plain_store [OF ok i, of bs]
      by (auto simp: mconf_set_typed_scalar_def guards scalar_ok_def split: option.splits)
  next
    case False
    then have "entry_type ?e \<noteq> ty \<or> \<not> scalar_ok cfg ty \<or> of_nat (length bs) \<noteq> entry_size ?e"
      using size_of_object(3) [OF small, of "entry_size ?e"] by blast
    with False scalar show ?thesis
      by (auto simp: mconf_set_typed_scalar_def guards scalar_ok_def plain_value_def)
  qed
qed

lemma field_call:
  assumes ok: "ctx_ok cfg ctx" and req: "request_ok req" and field: "request_field req = Some i"
  shows "\<exists>err p. api_call cfg io req (ctx, s) = Some (err, p, s) \<and>
    field_effect ctx (unat i) (field_result cfg ctx req i) err p"
proof (cases "unat i < length (ctx_entries ctx)")
  case False
  with field show ?thesis
    by (cases req) (auto simp: field_result_def field_effect_def mconf_set_def mconf_set_string_def mconf_set_blob_def
        mconf_set_typed_scalar_def mconf_reset_field_def ctx_guards [OF ok])
next
  case True
  note effects = set_raw_effect [OF ok True] set_string_effect_exact [OF ok True] set_blob_effect_exact [OF ok True]
    set_scalar_effect [OF ok True]
  show ?thesis
  proof (cases req)
    case (Set_String j bs)
    then have small: "length bs + 1 < 2 ^ 64" and j: "j = i" using req field by auto
    show ?thesis
    proof (cases "entry_type (ctx_entries ctx ! unat i) = MCONF_TYPE_STRING")
      case string: True
      from effects(2) [OF small string, of None] string show ?thesis by (auto simp: Set_String j field_result_def True)
    qed (auto simp: Set_String j mconf_set_string_def ctx_guards [OF ok] field_result_def field_effect_def True)
  next
    case (Reset_Field j)
    with field show ?thesis by (auto simp: reset_field_eq [OF ok True] field_result_def field_effect_def True)
  qed (use req field effects in \<open>force simp: field_result_def True\<close>)+
qed

section \<open>The device\<close>

text \<open>The schema, the build and the geometry of the backend go together; no length overflows its field.\<close>

definition device_ok :: "mconf_config \<Rightarrow> mconf_schema \<Rightarrow> 's mconf_io \<Rightarrow> bool" where
  "device_ok cfg sch io \<longleftrightarrow>
     schema_ok cfg sch \<and> client_ok sch \<and>
     32 \<le> unat (slot_size io) \<and> 2 * unat (slot_size io) \<le> unat (storage_size io) \<and>
     unat (storage_size io) + 2 * unat (schema_data_size sch) < 2 ^ 64 \<and> unat (slot_size io) < 2 ^ 32 \<and>
     (\<forall>e \<in> set (live_entries sch). entry_type e = MCONF_TYPE_STRING \<longrightarrow> unat (entry_size e) < 65536)"

text \<open>The context of the schema over the data \<open>d\<close>.\<close>

definition config_ctx :: "mconf_schema \<Rightarrow> byte list \<Rightarrow> mconf_ctx" where
  "config_ctx sch d = \<lparr>ctx_schema = Some sch, ctx_data = Some d, ctx_data_size = schema_data_size sch,
     schema_fingerprint = schema_hash sch, initialized = True\<rparr>"

definition config_size :: "mconf_schema \<Rightarrow> nat" where
  "config_size sch = unat (schema_data_size sch)"

lemma config_ctx_simps [simp]:
  "ctx_bytes (config_ctx sch d) = d" "ctx_entries (config_ctx sch d) = live_entries sch"
  "(config_ctx sch d)\<lparr>ctx_data := Some d'\<rparr> = config_ctx sch d'"
  by (simp_all add: config_ctx_def ctx_bytes_def ctx_entries_def)

lemma ctx_put_config [simp]: "ctx_put (config_ctx sch d) i v = config_ctx sch (field_put (live_entries sch) d i v)"
  by (simp add: ctx_put_def)

lemma device_ctx_ok: "device_ok cfg sch io \<Longrightarrow> length d = config_size sch \<Longrightarrow> ctx_ok cfg (config_ctx sch d)"
  by (simp add: device_ok_def ctx_ok_def config_ctx_def config_size_def)

lemma device_io_fits: "device_ok cfg sch io \<Longrightarrow> length d = config_size sch \<Longrightarrow> io_fits io (config_ctx sch d)"
  by (simp add: device_ok_def io_fits_def config_size_def)

lemma device_format_fits:
  assumes "device_ok cfg sch io" and "length d = config_size sch"
  shows "format_fits (config_ctx sch d) io"
proof -
  have "string_fits (live_entries sch ! k) (ctx_field (config_ctx sch d) k)" if "k < length (live_entries sch)" for k
    using assms(1) ctx_field_length [OF device_ctx_ok [OF assms], of k] c_strlen_le [of "ctx_field (config_ctx sch d) k"] that
    by (auto simp: string_fits_def device_ok_def dest!: bspec [OF _ nth_mem])
  with assms(1) show ?thesis by (simp add: format_fits_def device_ok_def)
qed

lemma device_init:
  assumes "device_ok cfg sch io"
  shows "mconf_init cfg (Some c) sizeof_mconf_t (Some sch) (Some d) (schema_data_size sch) =
    Some (MCONF_OK, Some (config_ctx sch d))"
proof -
  have "schema_ok cfg sch" "schema_array_ok sch" "entries sch \<noteq> None"
    using assms by (simp_all add: device_ok_def client_ok_def schema_ok_def)
  then show ?thesis
    by (simp add: mconf_init_def schema_validate_eq config_ctx_def)
qed

text \<open>What a medium stores does not depend on the live data.\<close>

definition durable :: "mconf_config \<Rightarrow> mconf_schema \<Rightarrow> 's mconf_io \<Rightarrow> byte list \<Rightarrow> byte list option" where
  "durable cfg sch io c = stored_config cfg (config_ctx sch (replicate (config_size sch) 0)) io c"

definition sound_medium :: "mconf_config \<Rightarrow> mconf_schema \<Rightarrow> 's mconf_io \<Rightarrow> byte list \<Rightarrow> bool" where
  "sound_medium cfg sch io c \<longleftrightarrow> newest_reads cfg (config_ctx sch (replicate (config_size sch) 0)) io c"

lemma load_order_set_data: "load_order (ctx\<lparr>ctx_data := d\<rparr>) io c = load_order ctx io c"
  by (simp add: load_order_def)

lemma durable_eq:
  assumes "length d = config_size sch"
  shows "stored_config cfg (config_ctx sch d) io c = durable cfg sch io c"
    and "newest_reads cfg (config_ctx sch d) io c = sound_medium cfg sch io c"
proof -
  have "config_ctx sch d = (config_ctx sch (replicate (config_size sch) 0))\<lparr>ctx_data := Some d\<rparr>" by simp
  then have same: "slot_record cfg (config_ctx sch d) io c slot True =
      slot_record cfg (config_ctx sch (replicate (config_size sch) 0)) io c slot True"
    "load_order (config_ctx sch d) io c = load_order (config_ctx sch (replicate (config_size sch) 0)) io c" for slot
    using assms by (metis slot_record_set_data config_ctx_simps(1) length_replicate, metis load_order_set_data)
  show "stored_config cfg (config_ctx sch d) io c = durable cfg sch io c"
    "newest_reads cfg (config_ctx sch d) io c = sound_medium cfg sch io c"
    by (simp_all add: durable_def sound_medium_def stored_config_def newest_reads_def same)
qed

text \<open>The image of a configuration on the medium: strings are padded with zeros.\<close>

definition normal :: "mconf_schema \<Rightarrow> byte list \<Rightarrow> byte list" where
  "normal sch d = saved_image (config_ctx sch d)"

definition defaults_of :: "mconf_schema \<Rightarrow> byte list" where
  "defaults_of sch = defaults_image (config_ctx sch (replicate (config_size sch) 0))"

lemma defaults_of_eq: "length d = config_size sch \<Longrightarrow> defaults_image (config_ctx sch d) = defaults_of sch"
  using defaults_image_set_data [of d "config_ctx sch (replicate (config_size sch) 0)"] by (simp add: defaults_of_def)

section \<open>The abstract store\<close>

definition can_save :: "mconf_config \<Rightarrow> mconf_schema \<Rightarrow> 's mconf_io \<Rightarrow> byte list \<Rightarrow> bool" where
  "can_save cfg sch io d \<longleftrightarrow> save_accepts cfg (config_ctx sch d) io"

text \<open>
  A step from one pair of the live and the durable configuration to the next. A save that fails has
  refused, or was stopped before or after the moment that makes the new configuration durable.
\<close>

inductive store_step ::
  "mconf_config \<Rightarrow> mconf_schema \<Rightarrow> 's mconf_io \<Rightarrow> request \<Rightarrow> mconf_err \<Rightarrow>
    byte list \<times> byte list option \<Rightarrow> byte list \<times> byte list option \<Rightarrow> bool"
  for cfg sch io
where
  written: "request_field req = Some i \<Longrightarrow> field_result cfg (config_ctx sch d) req i = Some v \<Longrightarrow>
    store_step cfg sch io req MCONF_OK (d, m) (field_put (live_entries sch) d (unat i) v, m)"
| refused: "request_field req = Some i \<Longrightarrow> field_result cfg (config_ctx sch d) req i = None \<Longrightarrow> err \<noteq> MCONF_OK \<Longrightarrow>
    store_step cfg sch io req err (d, m) (d, m)"
| defaults: "store_step cfg sch io Load_Defaults MCONF_OK (d, m) (defaults_of sch, m)"
| loaded: "store_step cfg sch io Load MCONF_OK (d, Some d') (d', Some d')"
| not_found: "err \<noteq> MCONF_OK \<Longrightarrow> store_step cfg sch io Load err (d, None) (defaults_of sch, None)"
| saved: "can_save cfg sch io d \<Longrightarrow>
    store_step cfg sch io Save MCONF_OK (d, m) (normal sch d, Some (normal sch d))"
| save_failed: "err \<noteq> MCONF_OK \<Longrightarrow> d' = d \<or> can_save cfg sch io d \<and> d' = normal sch d \<Longrightarrow>
    m' = m \<or> can_save cfg sch io d \<and> m' = Some (normal sch d) \<Longrightarrow>
    store_step cfg sch io Save err (d, m) (d', m')"

inductive_cases load_step [elim]: "store_step cfg sch io Load err v v'"
inductive_cases save_step [elim]: "store_step cfg sch io Save err v v'"

lemma load_result_durable:
  assumes "length d = config_size sch"
  shows "load_result cfg (config_ctx sch d) io c =
    (case durable cfg sch io c of
       Some d' \<Rightarrow> (MCONF_OK, d')
     | None \<Rightarrow> (load_error (fst (slot_header (config_ctx sch d) io c 0 True)) (fst (slot_header (config_ctx sch d) io c 1 True)),
                defaults_of sch))"
  using assms by (simp add: load_result_def durable_eq defaults_of_eq split: option.splits)

lemma field_effect_config:
  assumes "field_effect (config_ctx sch d) i v err p" and "i < length (live_entries sch) \<or> v = None"
  shows "\<exists>d'. p = Some (config_ctx sch d') \<and>
    (case v of Some bs \<Rightarrow> err = MCONF_OK \<and> d' = field_put (live_entries sch) d i bs | None \<Rightarrow> err \<noteq> MCONF_OK \<and> d' = d)"
  using assms by (auto simp: field_effect_def split: option.splits)

lemma field_result_length:
  assumes "ctx_ok cfg ctx" and "field_result cfg ctx req i = Some v"
  shows "unat i < length (ctx_entries ctx)" and "length v = unat (entry_size (ctx_entries ctx ! unat i))"
proof -
  show i: "unat i < length (ctx_entries ctx)" using assms(2) by (auto simp: field_result_def split: if_splits)
  have d: "length (default_bytes (ctx_entries ctx ! unat i)) = unat (entry_size (ctx_entries ctx ! unat i))"
    using ctx_default_ok [OF assms(1) i] by (simp add: length_default_bytes)
  from i assms(2) d show "length v = unat (entry_size (ctx_entries ctx ! unat i))"
    by (cases req) (auto simp: field_result_def string_value_def plain_value_def split: if_splits)
qed

section \<open>Every call is a step of the store\<close>

definition store_view :: "mconf_config \<Rightarrow> mconf_schema \<Rightarrow> 's mconf_io \<Rightarrow> ('s \<Rightarrow> byte list) \<Rightarrow> mconf_ctx \<times> 's \<Rightarrow>
    byte list \<times> byte list option" where
  "store_view cfg sch io contents st = (ctx_bytes (fst st), durable cfg sch io (contents (snd st)))"

definition good_state :: "mconf_config \<Rightarrow> mconf_schema \<Rightarrow> 's mconf_io \<Rightarrow> ('s \<Rightarrow> byte list) \<Rightarrow> ('s \<Rightarrow> bool) \<Rightarrow>
    mconf_ctx \<times> 's \<Rightarrow> bool" where
  "good_state cfg sch io contents ok st \<longleftrightarrow>
     (\<exists>d. length d = config_size sch \<and> fst st = config_ctx sch d) \<and> ok (snd st) \<and>
     sound_medium cfg sch io (contents (snd st))"

lemma good_state_ctx_ok:
  "device_ok cfg sch io \<Longrightarrow> good_state cfg sch io contents ok (ctx, s) \<Longrightarrow> ctx_ok cfg ctx"
  by (auto simp: good_state_def device_ctx_ok)

context torn_backend
begin

lemma load_is_step:
  assumes dev: "device_ok cfg sch io" and d: "length d = config_size sch" and s: "inv s"
  shows "\<exists>err d' s'. mconf_load cfg (Some (config_ctx sch d)) (Some io) s = Some (err, Some (config_ctx sch d'), s') \<and>
    length d' = config_size sch \<and> inv s' \<and> contents s' = contents s \<and>
    store_step cfg sch io Load err (d, durable cfg sch io (contents s)) (d', durable cfg sch io (contents s))"
proof (rule load_eq [OF device_ctx_ok [OF dev d] device_io_fits [OF dev d] s])
  fix err d' s'
  assume load: "mconf_load cfg (Some (config_ctx sch d)) (Some io) s =
      Some (err, Some ((config_ctx sch d)\<lparr>ctx_data := Some d'\<rparr>), s')"
    "length d' = length (ctx_bytes (config_ctx sch d))" "inv s'" "contents s' = contents s"
    and bad: "err \<noteq> MCONF_OK \<Longrightarrow> d' = defaults_image (config_ctx sch d) \<and>
      err \<in> {MCONF_ERR_VERSION, MCONF_ERR_MAGIC, MCONF_ERR_INVALID}"
    and exact: "\<not> read_fault io contents inv \<Longrightarrow> (err, d') = load_result cfg (config_ctx sch d) io (contents s)"
  have "store_step cfg sch io Load err (d, durable cfg sch io (contents s)) (d', durable cfg sch io (contents s))"
  proof (cases "durable cfg sch io (contents s)")
    case None
    have "err \<noteq> MCONF_OK" using exact [OF no_read_fault] None by (auto simp: load_result_durable [OF d] load_error_def)
    with None bad show ?thesis by (simp add: defaults_of_eq [OF d] store_step.not_found)
  next
    case (Some x)
    with exact [OF no_read_fault] show ?thesis by (simp add: load_result_durable [OF d] store_step.loaded)
  qed
  with load d show ?thesis by auto
qed

lemma save_is_step:
  assumes dev: "device_ok cfg sch io" and d: "length d = config_size sch" and s: "inv s"
    and sound: "sound_medium cfg sch io (contents s)"
  shows "\<exists>err d' s'. mconf_save cfg (Some (config_ctx sch d)) (Some io) s = Some (err, Some (config_ctx sch d'), s') \<and>
    length d' = config_size sch \<and> inv s' \<and> sound_medium cfg sch io (contents s') \<and>
    store_step cfg sch io Save err (d, durable cfg sch io (contents s)) (d', durable cfg sch io (contents s'))"
proof (rule save_total [OF device_ctx_ok [OF dev d] device_io_fits [OF dev d] s])
  fix err d' slot s'
  let ?ctx = "config_ctx sch d"
  note pre = device_ctx_ok [OF dev d] device_io_fits [OF dev d] device_format_fits [OF dev d] s
  assume save: "mconf_save cfg (Some ?ctx) (Some io) s = Some (err, Some (?ctx\<lparr>ctx_data := Some d'\<rparr>), s')"
    "length d' = length (ctx_bytes ?ctx)" "inv s'"
    and OK: "err = MCONF_OK \<Longrightarrow> save_accepts cfg ?ctx io \<and> data_valid cfg (ctx_entries ?ctx) d' \<and>
      (\<exists>g. chunk (contents s') (slot_offset io slot) (length (record_bytes cfg ?ctx g MCONF_STORAGE_STATE_COMMITTED)) =
         record_bytes cfg ?ctx g MCONF_STORAGE_STATE_COMMITTED)"
  have reads: "newest_reads cfg ?ctx io (contents s)" using sound d by (simp add: durable_eq)
  note atomic = save_atomic [OF pre reads save(1)]
  have "can_save cfg sch io d" if "contents s' \<noteq> contents s"
  proof (rule ccontr)
    assume "\<not> can_save cfg sch io d"
    with save_runs [OF pre(1,2,4)] save(1) that show False
      unfolding can_save_def by (metis (no_types, lifting) option.inject prod.inject)
  qed
  then have medium: "durable cfg sch io (contents s') = durable cfg sch io (contents s) \<or>
      can_save cfg sch io d \<and> durable cfg sch io (contents s') = Some (normal sch d)"
    using atomic(2) d by (cases "contents s' = contents s") (auto simp: durable_eq normal_def)
  have data: "d' = d \<or> can_save cfg sch io d \<and> d' = normal sch d"
    using save_keeps_data [OF pre no_read_fault, of err "config_ctx sch d'" s'] save(1)
    by (auto simp: config_ctx_def can_save_def normal_def)
  have "store_step cfg sch io Save err (d, durable cfg sch io (contents s)) (d', durable cfg sch io (contents s'))"
  proof (cases "err = MCONF_OK")
    case True
    note stored = save_OK_stored [OF pre no_read_fault save(1) [unfolded True]]
    have "d' = normal sch d" using stored(1) by (simp add: config_ctx_def normal_def)
    with stored(3) True OK d show ?thesis
      by (simp add: durable_eq normal_def [symmetric] store_step.saved can_save_def)
  next
    case False
    from store_step.save_failed [OF False data medium] show ?thesis .
  qed
  with save d atomic(1) show ?thesis by (auto simp: durable_eq)
qed

end

lemma defaults_of_length: "device_ok cfg sch io \<Longrightarrow> length (defaults_of sch) = config_size sch"
  using defaults_image_fields(1) [OF device_ctx_ok, of cfg sch io "replicate (config_size sch) 0"]
  by (simp add: defaults_of_def)

context torn_backend
begin

lemma call_is_step:
  assumes dev: "device_ok cfg sch io" and good: "good_state cfg sch io contents inv (ctx, s)" and req: "request_ok req"
  shows "\<exists>err ctx' s'. api_call cfg io req (ctx, s) = Some (err, Some ctx', s') \<and>
    good_state cfg sch io contents inv (ctx', s') \<and>
    store_step cfg sch io req err (store_view cfg sch io contents (ctx, s)) (store_view cfg sch io contents (ctx', s'))"
proof -
  obtain d where d: "length d = config_size sch" and ctx: "ctx = config_ctx sch d" and s: "inv s"
    and sound: "sound_medium cfg sch io (contents s)" using good by (auto simp: good_state_def)
  note ok = device_ctx_ok [OF dev d]
  show ?thesis
  proof (cases "request_field req")
    case (Some i)
    let ?v = "field_result cfg (config_ctx sch d) req i"
    obtain err p where run: "api_call cfg io req (ctx, s) = Some (err, p, s)" "field_effect (config_ctx sch d) (unat i) ?v err p"
      using field_call [OF ok req Some, of io s] ctx by auto
    have "unat i < length (live_entries sch) \<or> ?v = None"
      using field_result_length(1) [OF ok, of req i] by auto
    from field_effect_config [OF run(2) this] obtain d' where d': "p = Some (config_ctx sch d')"
      "case ?v of Some bs \<Rightarrow> err = MCONF_OK \<and> d' = field_put (live_entries sch) d (unat i) bs | None \<Rightarrow> err \<noteq> MCONF_OK \<and> d' = d"
      by blast
    have "length d' = config_size sch"
      using d' d field_result_length [OF ok, of req i] length_field_put [OF ctx_layout [OF ok], of "unat i"]
      by (auto split: option.splits)
    moreover have "store_step cfg sch io req err (d, m) (d', m)" for m
      using d'(2) store_step.written [OF Some, of cfg sch d] store_step.refused [OF Some, of cfg sch d]
      by (auto split: option.splits)
    ultimately show ?thesis
      using run(1) d'(1) s sound ctx by (auto simp: good_state_def store_view_def)
  next
    case None
    then consider "req = Load_Defaults" | "req = Load" | "req = Save" by (cases req) auto
    then show ?thesis
    proof cases
      case 1
      then show ?thesis
        using s sound ctx defaults_of_length [OF dev] store_step.defaults [of cfg sch io]
        by (auto simp: load_defaults_eq [OF ok] defaults_of_eq [OF d] good_state_def store_view_def)
    next
      case 2
      from load_is_step [OF dev d s] 2 sound ctx show ?thesis
        by (auto simp: good_state_def store_view_def)
    next
      case 3
      from save_is_step [OF dev d s sound] 3 ctx show ?thesis
        by (auto simp: good_state_def store_view_def)
    qed
  qed
qed

end

section \<open>Runs\<close>

text \<open>
  A device starts with an erased storage, serves requests, and is reset at any moment: the contents of
  the storage survive, everything else is arbitrary, and the application initialises its context
  again. The history lists the saves, the latest first, with the configuration and whether it was
  acknowledged.
\<close>

type_synonym history = "(byte list \<times> bool) list"

definition save_event :: "request \<Rightarrow> mconf_err \<Rightarrow> mconf_ctx \<Rightarrow> history" where
  "save_event req err ctx = (if req = Save then [(ctx_bytes ctx, err = MCONF_OK)] else [])"

inductive device_run ::
  "mconf_config \<Rightarrow> mconf_schema \<Rightarrow> 's mconf_io \<Rightarrow> ('s \<Rightarrow> byte list) \<Rightarrow> ('s \<Rightarrow> bool) \<Rightarrow> history \<Rightarrow> mconf_ctx \<times> 's \<Rightarrow> bool"
  for cfg sch io contents ok
where
  boot: "mconf_init cfg (Some c) sizeof_mconf_t (Some sch) (Some d) (schema_data_size sch) = Some (MCONF_OK, Some ctx) \<Longrightarrow>
    length d = config_size sch \<Longrightarrow> ok s \<Longrightarrow> contents s = replicate (unat (storage_size io)) 0xFF \<Longrightarrow>
    device_run cfg sch io contents ok [] (ctx, s)"
| call: "device_run cfg sch io contents ok h (ctx, s) \<Longrightarrow> request_ok req \<Longrightarrow>
    api_call cfg io req (ctx, s) = Some (err, Some ctx', s') \<Longrightarrow>
    device_run cfg sch io contents ok (save_event req err ctx @ h) (ctx', s')"
| reset: "device_run cfg sch io contents ok h (ctx, s) \<Longrightarrow>
    mconf_init cfg (Some c) sizeof_mconf_t (Some sch) (Some d) (schema_data_size sch) = Some (MCONF_OK, Some ctx') \<Longrightarrow>
    length d = config_size sch \<Longrightarrow> ok s' \<Longrightarrow> contents s' = contents s \<Longrightarrow>
    device_run cfg sch io contents ok h (ctx', s')"

text \<open>
  What the storage may hold after a history: the last acknowledged configuration, or one whose save
  was attempted after it, or nothing as long as no save was acknowledged.
\<close>

fun may_hold :: "mconf_schema \<Rightarrow> history \<Rightarrow> byte list option set" where
  "may_hold sch [] = {None}"
| "may_hold sch ((d, acknowledged) # h) =
     (if acknowledged then {Some (normal sch d)} else insert (Some (normal sch d)) (may_hold sch h))"

lemma erased_durable:
  assumes "device_ok cfg sch io"
  shows "durable cfg sch io (replicate (unat (storage_size io)) 0xFF) = None"
    and "sound_medium cfg sch io (replicate (unat (storage_size io)) 0xFF)"
proof -
  have sch: "ctx_schema (config_ctx sch (replicate (config_size sch) 0)) = Some sch" by (simp add: config_ctx_def)
  show "durable cfg sch io (replicate (unat (storage_size io)) 0xFF) = None"
    "sound_medium cfg sch io (replicate (unat (storage_size io)) 0xFF)"
    using erased_newest [OF sch device_io_fits [OF assms]] by (simp_all add: durable_def sound_medium_def)
qed

context torn_backend
begin

lemma run_invariant:
  assumes dev: "device_ok cfg sch io" and run: "device_run cfg sch io contents inv h st"
  shows "good_state cfg sch io contents inv st \<and> durable cfg sch io (contents (snd st)) \<in> may_hold sch h"
  using run
proof induction
  case (boot c d ctx s)
  then show ?case
    using device_init [OF dev, of c d] erased_durable [OF dev] by (auto simp: good_state_def)
next
  case (call h ctx s req err ctx' s')
  then have good: "good_state cfg sch io contents inv (ctx, s)" and held: "durable cfg sch io (contents s) \<in> may_hold sch h"
    by simp_all
  from call_is_step [OF dev good call(2)] call(3)
  have good': "good_state cfg sch io contents inv (ctx', s')"
    and step: "store_step cfg sch io req err (ctx_bytes ctx, durable cfg sch io (contents s))
      (ctx_bytes ctx', durable cfg sch io (contents s'))"
    by (auto simp: store_view_def)
  from step have "durable cfg sch io (contents s') \<in> may_hold sch (save_event req err ctx @ h)"
    by cases (use held in \<open>auto simp: save_event_def\<close>)
  with good' show ?case by simp
next
  case (reset h ctx s c d ctx' s')
  then show ?case using device_init [OF dev, of c d] by (auto simp: good_state_def)
qed

end

section \<open>The device of the tests\<close>

lemma demo_device_ok: "device_ok default_config demo_schema fake_io"
proof -
  have "live_entries demo_schema = demo_entries" by (simp add: live_entries_def demo_schema_def demo_entries_def)
  then have "\<forall>e \<in> set (live_entries demo_schema). entry_type e = MCONF_TYPE_STRING \<longrightarrow> unat (entry_size e) < 65536"
    by (simp add: demo_entries_def)
  then show ?thesis
    using demo_schema_ok demo_client_ok by (simp add: device_ok_def) (simp add: fake_io_def demo_schema_def)
qed

lemma demo_ctx_config: "demo_ctx = config_ctx demo_schema (replicate 20 0)"
  by (simp add: demo_ctx_def config_ctx_def) (simp add: demo_schema_def)

lemma demo_config_size: "config_size demo_schema = 20"
  by (simp add: config_size_def demo_schema_def)

lemma demo_boot: "device_run default_config demo_schema fake_io fs_bytes fake_inv [] (demo_ctx, fresh_store)"
proof (rule device_run.boot)
  show "mconf_init default_config (Some blank_ctx) sizeof_mconf_t (Some demo_schema) (Some (replicate 20 0))
      (schema_data_size demo_schema) = Some (MCONF_OK, Some demo_ctx)"
    unfolding demo_ctx_config by (rule device_init [OF demo_device_ok])
qed (simp_all add: demo_config_size fresh_store_def fake_inv_def fake_io_def)

section \<open>Properties\<close>

text \<open>
  C10. Progress and preservation: in every state that a device reaches from an erased storage, through any
  requests, failing backend calls and resets, the context is well-formed, and every request returns a
  well-formed context again, inside the objects of the program.
\<close>

theorem requests_never_stuck:
  assumes "torn_backend io contents ok" and "device_ok cfg sch io"
    and "device_run cfg sch io contents ok h (ctx, s)" and "request_ok req"
  shows "ctx_ok cfg ctx \<and>
    (\<exists>err ctx' s'. api_call cfg io req (ctx, s) = Some (err, Some ctx', s') \<and> ctx_ok cfg ctx' \<and> ok s' \<and>
       device_run cfg sch io contents ok (save_event req err ctx @ h) (ctx', s'))"
proof -
  from torn_backend.run_invariant [OF assms(1-3)] have good: "good_state cfg sch io contents ok (ctx, s)" by simp
  from torn_backend.call_is_step [OF assms(1,2) good assms(4)] obtain err ctx' s' where
    call: "api_call cfg io req (ctx, s) = Some (err, Some ctx', s')" and good': "good_state cfg sch io contents ok (ctx', s')"
    by blast
  have "ok s'" using good' by (simp add: good_state_def)
  with call good_state_ctx_ok [OF assms(2) good] good_state_ctx_ok [OF assms(2) good'] device_run.call [OF assms(3,4) call]
  show ?thesis by blast
qed

theorem requests_never_stuck_witness:
  "ctx_ok default_config demo_ctx \<and>
    (\<exists>err ctx' s'. api_call default_config fake_io Save (demo_ctx, fresh_store) = Some (err, Some ctx', s') \<and>
       ctx_ok default_config ctx' \<and> fake_inv s' \<and>
       device_run default_config demo_schema fake_io fs_bytes fake_inv (save_event Save err demo_ctx @ []) (ctx', s'))"
  by (rule requests_never_stuck [OF fake.torn_backend_axioms demo_device_ok demo_boot]) simp

text \<open>
  C4. The library implements the abstract store: in every state that a device reaches, every request is a
  step of the store on the pair of the live and the durable configuration. A setter writes exactly the
  value that its request describes or is refused, a load installs the durable configuration or else the
  defaults, a save that is acknowledged makes the live configuration durable, and one that fails
  leaves either of the two.
\<close>

theorem requests_refine_store:
  assumes "torn_backend io contents ok" and "device_ok cfg sch io"
    and "device_run cfg sch io contents ok h (ctx, s)" and "request_ok req"
    and "api_call cfg io req (ctx, s) = Some (err, Some ctx', s')"
  shows "store_step cfg sch io req err (store_view cfg sch io contents (ctx, s)) (store_view cfg sch io contents (ctx', s'))"
proof -
  from torn_backend.run_invariant [OF assms(1-3)] have good: "good_state cfg sch io contents ok (ctx, s)" by simp
  from torn_backend.call_is_step [OF assms(1,2) good assms(4)] assms(5) show ?thesis by auto
qed

theorem requests_refine_store_witness:
  "\<exists>err ctx' s'. api_call default_config fake_io Save (demo_ctx, fresh_store) = Some (err, Some ctx', s') \<and>
    store_step default_config demo_schema fake_io Save err
      (store_view default_config demo_schema fake_io fs_bytes (demo_ctx, fresh_store))
      (store_view default_config demo_schema fake_io fs_bytes (ctx', s'))"
proof -
  obtain err d slot s' where save: "mconf_save default_config (Some demo_ctx) (Some fake_io) fresh_store =
      Some (err, Some (demo_ctx\<lparr>ctx_data := Some d\<rparr>), s')"
    by (rule fake.save_total [OF demo_ctx_ok demo_io_fits, of fresh_store]) (simp add: fake_inv_def fresh_store_def)
  then show ?thesis
    using requests_refine_store [OF fake.torn_backend_axioms demo_device_ok demo_boot, of Save] by auto
qed

text \<open>
  C3. Acknowledged saves survive: after any run, with power cuts anywhere, a load installs the configuration
  of the last acknowledged save or of one attempted after it; it reports a failure and installs the
  defaults only if no save was ever acknowledged.
\<close>

theorem acknowledged_saves_survive:
  assumes "torn_backend io contents ok" and "device_ok cfg sch io"
    and "device_run cfg sch io contents ok h (ctx, s)"
  shows "\<exists>err ctx' s'. mconf_load cfg (Some ctx) (Some io) s = Some (err, Some ctx', s') \<and>
    (if err = MCONF_OK then Some (ctx_bytes ctx') \<in> may_hold sch h
     else None \<in> may_hold sch h \<and> (\<forall>(d, acknowledged) \<in> set h. \<not> acknowledged) \<and> ctx_bytes ctx' = defaults_of sch)"
proof -
  note inv = torn_backend.run_invariant [OF assms(1-3)]
  then obtain d where d: "length d = config_size sch" "ctx = config_ctx sch d" and s: "ok s"
    by (auto simp: good_state_def)
  have acked: "\<forall>(d, acknowledged) \<in> set h. \<not> acknowledged" if "None \<in> may_hold sch h"
    using that by (induction h) (auto split: if_splits)
  from torn_backend.load_is_step [OF assms(1,2) d(1) s] obtain err d' s' where
    load: "mconf_load cfg (Some ctx) (Some io) s = Some (err, Some (config_ctx sch d'), s')"
    and step: "store_step cfg sch io Load err (d, durable cfg sch io (contents s)) (d', durable cfg sch io (contents s))"
    using d(2) by blast
  have held: "durable cfg sch io (contents s) \<in> may_hold sch h" using inv by simp
  from step have "if err = MCONF_OK then Some d' = durable cfg sch io (contents s)
      else durable cfg sch io (contents s) = None \<and> d' = defaults_of sch"
    by cases simp_all
  with load held acked show ?thesis
    by (intro exI [of _ err] exI [of _ "config_ctx sch d'"] exI [of _ s']) (cases "err = MCONF_OK", simp_all)
qed

theorem acknowledged_saves_survive_witness:
  "\<exists>err ctx' s'. mconf_load default_config (Some demo_ctx) (Some fake_io) fresh_store = Some (err, Some ctx', s') \<and>
    (if err = MCONF_OK then Some (ctx_bytes ctx') \<in> may_hold demo_schema []
     else None \<in> may_hold demo_schema [] \<and> (\<forall>(d, acknowledged) \<in> set ([] :: history). \<not> acknowledged) \<and>
       ctx_bytes ctx' = defaults_of demo_schema)"
  by (rule acknowledged_saves_survive [OF fake.torn_backend_axioms demo_device_ok demo_boot])

text \<open>
  C11. Nothing wedges a device: whatever happened before, once its backend has stopped failing a save of a
  configuration that the format can hold succeeds, and after a reset, with anything in the memory, a load
  succeeds and every field has the saved value.
\<close>

theorem device_recovers:
  assumes "torn_backend io contents ok" and "device_ok cfg sch io"
    and "device_run cfg sch io contents ok h (ctx, s)"
    and "reliable_backend io contents fine" and "fine s"
    and "save_accepts cfg ctx io" and "length d = config_size sch"
  shows "\<exists>p' s' ctx2 ctx' s''. mconf_save cfg (Some ctx) (Some io) s = Some (MCONF_OK, p', s') \<and>
    mconf_init cfg (Some c) sizeof_mconf_t (Some sch) (Some d) (schema_data_size sch) = Some (MCONF_OK, Some ctx2) \<and>
    mconf_load cfg (Some ctx2) (Some io) s' = Some (MCONF_OK, Some ctx', s'') \<and>
    (\<forall>k < length (ctx_entries ctx). same_value (ctx_entries ctx ! k) (ctx_field ctx' k) (ctx_field ctx k))"
proof -
  from torn_backend.run_invariant [OF assms(1-3)] obtain d0 where d0: "length d0 = config_size sch" "ctx = config_ctx sch d0"
    by (auto simp: good_state_def)
  note pre = device_ctx_ok [OF assms(2) d0(1)] device_io_fits [OF assms(2) d0(1)] device_format_fits [OF assms(2) d0(1)]
  have rb: "readable_backend io contents fine" by (rule reliable_backend.axioms(1) [OF assms(4)])
  have acc: "save_accepts cfg (config_ctx sch d0) io" using assms(6) d0(2) by simp
  have valid: "data_valid cfg (ctx_entries (config_ctx sch d0)) (ctx_bytes (config_ctx sch d0))"
    using acc unfolding save_accepts_def saveable_def by blast
  obtain p' s' where save: "mconf_save cfg (Some (config_ctx sch d0)) (Some io) s = Some (MCONF_OK, p', s')"
    using reliable_backend.save_succeeds [OF assms(4) pre assms(5) acc] by blast
  note stored = storage_backend.save_OK_stored [OF readable_backend.axioms(1) [OF rb] pre assms(5)
      readable_backend.no_read_fault [OF rb] save]
  have "load_result cfg (config_ctx sch d0) io (contents s') = (MCONF_OK, saved_image (config_ctx sch d0))"
    using stored(3) by (simp add: load_result_def)
  then obtain s'' where "mconf_load cfg (Some (config_ctx sch d)) (Some io) s' =
      Some (MCONF_OK, Some ((config_ctx sch d0)\<lparr>ctx_data := Some (saved_image (config_ctx sch d0))\<rparr>), s'')"
    using readable_backend.load_runs [OF rb pre(1,2) stored(2), of d] assms(7) d0(1) by auto
  with save d0(2) saved_field_value [OF pre(1) valid] show ?thesis
    by (simp add: device_init [OF assms(2)])
qed

theorem device_recovers_witness:
  "\<exists>p' s' ctx2 ctx' s''. mconf_save default_config (Some demo_ctx) (Some fake_io) fresh_store = Some (MCONF_OK, p', s') \<and>
    mconf_init default_config (Some blank_ctx) sizeof_mconf_t (Some demo_schema) (Some (replicate 20 7))
      (schema_data_size demo_schema) = Some (MCONF_OK, Some ctx2) \<and>
    mconf_load default_config (Some ctx2) (Some fake_io) s' = Some (MCONF_OK, Some ctx', s'') \<and>
    (\<forall>k < length (ctx_entries demo_ctx). same_value (ctx_entries demo_ctx ! k) (ctx_field ctx' k) (ctx_field demo_ctx k))"
  by (rule device_recovers [OF fake.torn_backend_axioms demo_device_ok demo_boot fault_free.reliable_backend_axioms
        fresh_store_fault_free demo_accepts]) (simp add: demo_config_size)

end
