(* ===== verification/Mconf_Region.thy ===== *)
theory Mconf_Region
  imports Mconf_Backend
begin

text \<open>
  A backend that keeps its storage in a region of a larger device, as both Zephyr backends do
  (zephyr/src/mconf_zephyr_eeprom.c, zephyr/src/mconf_zephyr_flash.c). The locale \<open>region\<close> is what the
  callbacks of such a backend do to the device; from it follows the contract of Mconf_Backend for the
  region, and that the rest of the device is never changed. The locale is interpreted in
  Mconf_Eeprom and Mconf_Flash on the code of the two backends.
\<close>

section \<open>Addresses\<close>

text \<open>Zephyr's error numbers; \<open>off_t\<close> is a signed 64-bit integer.\<close>

definition EIO :: int where "EIO = 5"
definition ENOENT :: int where "ENOENT = 2"
definition ENOMEM :: int where "ENOMEM = 12"
definition ENODEV :: int where "ENODEV = 19"
definition EINVAL :: int where "EINVAL = 22"
definition ENOTSUP :: int where "ENOTSUP = 134"

lemmas errno_defs = EIO_def ENOENT_def ENOMEM_def ENODEV_def EINVAL_def ENOTSUP_def

definition off_t :: "size_t \<Rightarrow> int" where
  "off_t n = sint n"

lemma off_t_eq:
  assumes "unat n < 2 ^ 63"
  shows "off_t n = int (unat n)"
proof -
  have eq: "uint n = int (unat n)" by simp
  have "int (unat n) < int (2 ^ 63)" using assms by (simp only: of_nat_less_iff)
  then have "int (unat n) < 2 ^ 63" by (simp only: of_nat_power of_nat_numeral)
  then have "uint n < 2 ^ 63" unfolding eq .
  moreover have "- (2 ^ 63) \<le> uint n" by (rule order_trans [of _ 0]) simp_all
  ultimately have "signed_take_bit 63 (uint n) = uint n" by (intro signed_take_bit_int_eq_self)
  then show ?thesis by (simp add: off_t_def sint_uint)
qed

text \<open>The check of a range by the callbacks, and the address that they pass to the driver.\<close>

lemma bound_check:
  assumes "unat off + n < 2 ^ 64"
  shows "off + of_nat n > (limit :: size_t) \<longleftrightarrow> unat limit < unat off + n"
  using assms unat_of_nat_size [of n] by (simp add: word_less_nat_alt unat_add_no_wrap)

lemma in_bounds:
  assumes "unat off + n \<le> unat (limit :: size_t)"
  shows "n < 2 ^ 64" "\<not> off + of_nat n > limit"
proof -
  have "unat off + n < 2 ^ 64" using assms size_t_bound [of limit] by simp
  from bound_check [OF this, of limit] assms this show "n < 2 ^ 64" "\<not> off + of_nat n > limit" by simp_all
qed

lemma region_target:
  assumes "unat off + n \<le> unat limit" and "unat base + unat limit < 2 ^ 63"
  shows "off_t (base + off) = int (unat base + unat off)"
proof -
  have eq: "unat (base + off) = unat base + unat off" using assms by (simp add: unat_add_no_wrap)
  show ?thesis using off_t_eq [of "base + off", unfolded eq] assms by linarith
qed

section \<open>Regions of a medium\<close>

lemma length_region [simp]: "base + n \<le> length m \<Longrightarrow> length (chunk m base n) = n"
  by simp

lemma chunk_patch_region:
  assumes "off + length bs \<le> n" and "base + n \<le> length m"
  shows "chunk (patch m (base + off) bs) base n = patch (chunk m base n) off bs"
proof (rule nth_equalityI)
  show "length (chunk (patch m (base + off) bs) base n) = length (patch (chunk m base n) off bs)"
    using assms by simp
  fix i assume "i < length (chunk (patch m (base + off) bs) base n)"
  then have "i < n" using assms by simp
  then show "chunk (patch m (base + off) bs) base n ! i = patch (chunk m base n) off bs ! i"
    using assms by (auto simp: chunk_nth nth_patch)
qed

text \<open>Writes of consecutive prefixes.\<close>

lemma patch_take:
  "k \<le> length bs \<Longrightarrow> off + length bs \<le> length m \<Longrightarrow> length (patch m off (take k bs)) = length m"
  by simp

lemma patch_replicate_append:
  "off + (n + k) \<le> length m \<Longrightarrow>
     patch (patch m off (replicate n x)) (off + n) (replicate k x) = patch m off (replicate (n + k) x)"
  using patch_append [of off "replicate n x" "replicate k x" m] by (simp add: replicate_add)

section \<open>The contract\<close>

text \<open>The storage of the backend, and the invariant that the rest of the device is untouched.\<close>

definition region_storage :: "'s mconf_io \<Rightarrow> ('s \<Rightarrow> byte list) \<Rightarrow> nat \<Rightarrow> 's \<Rightarrow> byte list" where
  "region_storage io medium base s = chunk (medium s) base (unat (storage_size io))"

definition region_inv ::
  "'s mconf_io \<Rightarrow> ('s \<Rightarrow> byte list) \<Rightarrow> ('s \<Rightarrow> bool) \<Rightarrow> nat \<Rightarrow> byte list \<Rightarrow> 's \<Rightarrow> bool" where
  "region_inv io medium sinv base original s \<longleftrightarrow>
     sinv s \<and> same_outside original (medium s) base (unat (storage_size io))"

text \<open>
  \<open>medium\<close> is the whole device, of which the backend has \<open>storage_size io\<close> bytes at \<open>base\<close>; \<open>original\<close>
  is the device as the backend found it. A call outside the region fails and does nothing. A call
  inside it may fail, and a write or an erase that fails may have changed anything in its range.
\<close>

locale region =
  fixes io :: "'s mconf_io"
    and medium :: "'s \<Rightarrow> byte list"
    and sinv :: "'s \<Rightarrow> bool"
    and base :: nat
    and original :: "byte list"
  assumes has_callbacks: "io_read io \<noteq> None" "io_write io \<noteq> None" "io_erase io \<noteq> None"
    and inside: "sinv s \<Longrightarrow> base + unat (storage_size io) \<le> length (medium s)"
    and outside: "sinv s \<Longrightarrow> unat off + m < 2 ^ 64 \<Longrightarrow> unat (storage_size io) < unat off + m \<Longrightarrow>
      (length buf = m \<longrightarrow> the (io_read io) s off buf = Some (- 1, buf, s) \<and>
         the (io_write io) s off buf = Some (- 1, s)) \<and>
      the (io_erase io) s off (of_nat m) = Some (- 1, s)"
    and read_law: "sinv s \<Longrightarrow> unat off + length buf \<le> unat (storage_size io) \<Longrightarrow>
      \<exists>rc buf' s'. the (io_read io) s off buf = Some (rc, buf', s') \<and> length buf' = length buf \<and>
        sinv s' \<and> medium s' = medium s \<and>
        (rc = 0 \<longrightarrow> buf' = chunk (medium s) (base + unat off) (length buf))"
    and write_law: "sinv s \<Longrightarrow> unat off + length bs \<le> unat (storage_size io) \<Longrightarrow>
      \<exists>rc s'. the (io_write io) s off bs = Some (rc, s') \<and> sinv s' \<and>
        same_outside (medium s) (medium s') (base + unat off) (length bs) \<and>
        (rc = 0 \<longrightarrow> medium s' = patch (medium s) (base + unat off) bs)"
    and erase_law: "sinv s \<Longrightarrow> unat off + unat n \<le> unat (storage_size io) \<Longrightarrow>
      \<exists>rc s'. the (io_erase io) s off n = Some (rc, s') \<and> sinv s' \<and>
        same_outside (medium s) (medium s') (base + unat off) (unat n) \<and>
        (rc = 0 \<longrightarrow> medium s' = patch (medium s) (base + unat off) (replicate (unat n) 0xFF))"
begin

abbreviation storage :: "'s \<Rightarrow> byte list" where
  "storage \<equiv> region_storage io medium base"

abbreviation rinv :: "'s \<Rightarrow> bool" where
  "rinv \<equiv> region_inv io medium sinv base original"

lemma length_storage [simp]: "sinv s \<Longrightarrow> length (storage s) = unat (storage_size io)"
  using inside by (simp add: region_storage_def)

text \<open>A change of the region, in terms of the storage.\<close>

lemma region_changed:
  assumes "rinv s" and "sinv s'" and "same_outside (medium s) (medium s') (base + off) n"
    and "off + n \<le> unat (storage_size io)"
  shows "rinv s'" and "same_outside (storage s) (storage s') off n"
proof -
  have room: "base + unat (storage_size io) \<le> length (medium s)" using assms(1) inside by (simp add: region_inv_def)
  have "same_outside (medium s) (medium s') base (unat (storage_size io))"
    using assms(3) by (rule same_outside_mono) (use assms(4) in simp_all)
  then show "rinv s'" using assms(1,2) same_outside_trans unfolding region_inv_def by blast
  show "same_outside (storage s) (storage s') off n"
    using assms(3,4) room by (auto simp: same_outside_def region_storage_def chunk_nth)
qed

lemma region_patched:
  assumes "sinv s" and "medium s' = patch (medium s) (base + off) bs"
    and "off + length bs \<le> unat (storage_size io)"
  shows "storage s' = patch (storage s) off bs"
  using chunk_patch_region [OF assms(3) inside [OF assms(1)]] assms(2) by (simp add: region_storage_def)

lemma region_write:
  assumes "rinv s" and "unat off + length bs < 2 ^ 64"
  obtains rc s' where "the (io_write io) s off bs = Some (rc, s')" "rinv s'"
    "same_outside (storage s) (storage s') (unat off) (length bs)"
    "rc = 0 \<Longrightarrow> unat off + length bs \<le> unat (storage_size io) \<and> storage s' = patch (storage s) (unat off) bs"
proof (cases "unat off + length bs \<le> unat (storage_size io)")
  case False
  then show thesis
    using outside [of s off "length bs" bs] assms
    by (intro that [of "- 1" s]) (auto simp: region_inv_def same_outside_def)
next
  case True
  have sinv: "sinv s" using assms(1) by (simp add: region_inv_def)
  from write_law [OF this True] obtain rc s' where w: "the (io_write io) s off bs = Some (rc, s')" "sinv s'"
    "same_outside (medium s) (medium s') (base + unat off) (length bs)"
    "rc = 0 \<longrightarrow> medium s' = patch (medium s) (base + unat off) bs" by blast
  with region_changed [OF assms(1) w(2,3) True] region_patched [OF sinv _ True, of s'] True show thesis
    by (intro that [of rc s']) auto
qed

lemma region_erase:
  assumes "rinv s" and "unat off + unat n < 2 ^ 64"
  obtains rc s' where "the (io_erase io) s off n = Some (rc, s')" "rinv s'"
    "same_outside (storage s) (storage s') (unat off) (unat n)"
    "rc = 0 \<Longrightarrow> unat off + unat n \<le> unat (storage_size io) \<and>
       storage s' = patch (storage s) (unat off) (replicate (unat n) 0xFF)"
proof (cases "unat off + unat n \<le> unat (storage_size io)")
  case False
  then show thesis
    using outside [of s off "unat n"] assms
    by (intro that [of "- 1" s]) (auto simp: region_inv_def same_outside_def)
next
  case True
  have sinv: "sinv s" using assms(1) by (simp add: region_inv_def)
  from erase_law [OF this True] obtain rc s' where w: "the (io_erase io) s off n = Some (rc, s')" "sinv s'"
    "same_outside (medium s) (medium s') (base + unat off) (unat n)"
    "rc = 0 \<longrightarrow> medium s' = patch (medium s) (base + unat off) (replicate (unat n) 0xFF)" by blast
  with region_changed [OF assms(1) w(2,3) True] region_patched [OF sinv, of s' "unat off" "replicate (unat n) 0xFF"] True
  show thesis by (intro that [of rc s']) auto
qed

lemma region_read:
  assumes "rinv s" and "unat off + length buf < 2 ^ 64"
  obtains rc buf' s' where "the (io_read io) s off buf = Some (rc, buf', s')" "length buf' = length buf"
    "rinv s'" "storage s' = storage s"
    "rc = 0 \<Longrightarrow> unat off + length buf \<le> unat (storage_size io) \<and> buf' = chunk (storage s) (unat off) (length buf)"
proof (cases "unat off + length buf \<le> unat (storage_size io)")
  case False
  then show thesis
    using outside [of s off "length buf" buf] assms by (intro that [of "- 1" buf s]) (auto simp: region_inv_def)
next
  case True
  have sinv: "sinv s" using assms(1) by (simp add: region_inv_def)
  from read_law [OF this True] obtain rc buf' s' where r: "the (io_read io) s off buf = Some (rc, buf', s')"
    "length buf' = length buf" "sinv s'" "medium s' = medium s"
    "rc = 0 \<longrightarrow> buf' = chunk (medium s) (base + unat off) (length buf)" by blast
  have "chunk (storage s) (unat off) (length buf) = chunk (medium s) (base + unat off) (length buf)"
    unfolding region_storage_def by (rule chunk_chunk [OF True inside [OF sinv]])
  with r assms(1) True show thesis
    by (intro that [of rc buf' s']) (auto simp: region_inv_def region_storage_def)
qed

end

sublocale region \<subseteq> storage_backend io storage rinv
proof (unfold_locales, goal_cases)
  case (4 s)
  then show ?case by (simp add: region_inv_def)
next
  case (5 s off buf)
  then have "length (storage s) = unat (storage_size io)" by (simp add: region_inv_def)
  with region_read [OF 5] show ?case by metis
next
  case (6 s off bs)
  then have "length (storage s) = unat (storage_size io)" by (simp add: region_inv_def)
  with region_write [OF 6] show ?case by metis
next
  case (7 s off n)
  then have "length (storage s) = unat (storage_size io)" by (simp add: region_inv_def)
  with region_erase [OF 7] show ?case by metis
qed (fact has_callbacks)+

context region
begin

lemma backend: "storage_backend io storage rinv"
  by unfold_locales

end

text \<open>
  Reads of the region succeed, and a write or an erase that fails has completed a first part of its
  range: the backend tears its writes at worst.
\<close>

locale readable_region = region +
  assumes read_succeeds: "sinv s \<Longrightarrow> unat off + length buf \<le> unat (storage_size io) \<Longrightarrow>
      the (io_read io) s off buf = Some (rc, buf', s') \<Longrightarrow> rc = 0"
    and write_tears: "sinv s \<Longrightarrow> unat off + length bs \<le> unat (storage_size io) \<Longrightarrow>
      the (io_write io) s off bs = Some (rc, s') \<Longrightarrow>
      \<exists>k \<le> length bs. medium s' = patch (medium s) (base + unat off) (take k bs)"
    and erase_tears: "sinv s \<Longrightarrow> unat off + unat n \<le> unat (storage_size io) \<Longrightarrow>
      the (io_erase io) s off n = Some (rc, s') \<Longrightarrow>
      \<exists>k \<le> unat n. medium s' = patch (medium s) (base + unat off) (replicate k 0xFF)"

sublocale readable_region \<subseteq> torn_backend io storage rinv
proof (unfold_locales, goal_cases)
  case (1 s off buf rc buf' s')
  then show ?case using read_succeeds [of s off buf rc buf' s'] by (simp add: region_inv_def)
next
  case (2 s off bs rc s')
  then have sinv: "sinv s" by (simp add: region_inv_def)
  show ?case
  proof (cases "unat off + length bs \<le> unat (storage_size io)")
    case True
    from write_tears [OF sinv True 2(3)] obtain k where
      k: "k \<le> length bs" "medium s' = patch (medium s) (base + unat off) (take k bs)" by blast
    with region_patched [OF sinv k(2)] True show ?thesis by (intro exI [of _ k]) simp
  next
    case False
    with outside [OF sinv 2(2), of bs] 2(3) show ?thesis by (intro exI [of _ 0]) simp
  qed
next
  case (3 s off n rc s')
  then have sinv: "sinv s" by (simp add: region_inv_def)
  show ?case
  proof (cases "unat off + unat n \<le> unat (storage_size io)")
    case True
    from erase_tears [OF sinv True 3(3)] obtain k where
      k: "k \<le> unat n" "medium s' = patch (medium s) (base + unat off) (replicate k 0xFF)" by blast
    with region_patched [OF sinv k(2)] True show ?thesis by (intro exI [of _ k]) simp
  next
    case False
    with outside [OF sinv 3(2)] 3(3) show ?thesis by (intro exI [of _ 0]) simp
  qed
qed

context readable_region
begin

lemma torn: "torn_backend io storage rinv"
  by unfold_locales

end

section \<open>A chip\<close>

text \<open>
  The hardware on which the drivers of both backends are instantiated: a chip of 256 bytes whose supply
  lasts for \<open>chip_budget\<close> more bytes; the write during which it ends stores the bytes before that point
  and fails.
\<close>

record chip =
  chip_mem :: "byte list"
  chip_budget :: nat

definition chip_write :: "int \<Rightarrow> byte list \<Rightarrow> chip \<Rightarrow> int \<times> chip" where
  "chip_write a bs d =
     (let k = min (chip_budget d) (length bs)
      in (if k < length bs then - EIO else 0,
          d\<lparr>chip_mem := patch (chip_mem d) (nat a) (take k bs), chip_budget := chip_budget d - k\<rparr>))"

definition chip_ok :: "chip \<Rightarrow> bool" where
  "chip_ok d \<longleftrightarrow> length (chip_mem d) = 256"

definition erased_chip :: "nat \<Rightarrow> chip" where
  "erased_chip budget = \<lparr>chip_mem = replicate 256 0xFF, chip_budget = budget\<rparr>"

lemma erased_chip_ok [simp]: "chip_ok (erased_chip budget)"
  by (simp add: erased_chip_def chip_ok_def)

lemma chip_write_law:
  assumes "chip_ok d" and "a + length bs \<le> 256"
  shows "\<exists>rc d' k. chip_write (int a) bs d = (rc, d') \<and> chip_ok d' \<and> k \<le> length bs \<and>
    chip_mem d' = patch (chip_mem d) a (take k bs) \<and> rc = (if k = length bs then 0 else - EIO)"
proof -
  define k where "k = min (chip_budget d) (length bs)"
  show ?thesis
    by (rule exI [of _ "if k < length bs then - EIO else 0"],
        rule exI [of _ "d\<lparr>chip_mem := patch (chip_mem d) a (take k bs), chip_budget := chip_budget d - k\<rparr>"],
        rule exI [of _ k])
       (use assms in \<open>auto simp: chip_write_def chip_ok_def Let_def k_def\<close>)
qed

end
