(* ===== verification/Mconf_Eeprom.thy ===== *)
theory Mconf_Eeprom
  imports Mconf_Region
begin

text \<open>
  The Zephyr EEPROM backend (zephyr/src/mconf_zephyr_eeprom.c, zephyr/include/mconf_zephyr.h lines 31
  to 35). The driver behind \<open>eeprom_read\<close>, \<open>eeprom_write\<close>, \<open>eeprom_get_size\<close> and \<open>device_is_ready\<close> is not
  part of the repository: it is the parameter \<open>eeprom_api\<close>, over a state \<open>'d\<close> of the hardware, and the
  locale \<open>eeprom_driver\<close> says what its documentation promises. The log messages are left out.
\<close>

section \<open>The code\<close>

record ('v, 'd) eeprom_api =
  device_is_ready :: "'v \<Rightarrow> 'd \<Rightarrow> bool"
  eeprom_get_size :: "'v \<Rightarrow> 'd \<Rightarrow> size_t"
  eeprom_read :: "'v \<Rightarrow> int \<Rightarrow> byte list \<Rightarrow> 'd \<Rightarrow> int \<times> byte list \<times> 'd"
  eeprom_write :: "'v \<Rightarrow> int \<Rightarrow> byte list \<Rightarrow> 'd \<Rightarrow> int \<times> 'd"

record 'v mconf_zephyr_eeprom_ctx =
  eeprom_dev :: "'v option"
  eeprom_base_offset :: size_t
  eeprom_total_size :: size_t

text \<open>The result is the return code, the buffer and the state of the hardware.\<close>

definition mconf_zephyr_eeprom_read ::
  "('v, 'd) eeprom_api \<Rightarrow> 'v mconf_zephyr_eeprom_ctx option \<Rightarrow> size_t \<Rightarrow> byte list option \<Rightarrow> size_t \<Rightarrow>
    'd \<Rightarrow> (int \<times> byte list option \<times> 'd) option" where
  "mconf_zephyr_eeprom_read drv callback_ctx off buffer n d =
     (case (callback_ctx, buffer) of
        (Some ctx, Some buf) \<Rightarrow>
          if off + n > eeprom_total_size ctx then Some (- 1, buffer, d)
          else
            do { let target = off_t (eeprom_base_offset ctx + off);
                 dev \<leftarrow> eeprom_dev ctx;
                 out \<leftarrow> mem_read buf 0 (unat n);
                 let (rc, out, d) = eeprom_read drv dev target out d;
                 buf \<leftarrow> mem_write buf 0 out;
                 Some (if rc < 0 then - 1 else 0, Some buf, d) }
      | _ \<Rightarrow> Some (- 1, buffer, d))"

definition mconf_zephyr_eeprom_write ::
  "('v, 'd) eeprom_api \<Rightarrow> 'v mconf_zephyr_eeprom_ctx option \<Rightarrow> size_t \<Rightarrow> byte list option \<Rightarrow> size_t \<Rightarrow>
    'd \<Rightarrow> (int \<times> 'd) option" where
  "mconf_zephyr_eeprom_write drv callback_ctx off buffer n d =
     (case (callback_ctx, buffer) of
        (Some ctx, Some buf) \<Rightarrow>
          if off + n > eeprom_total_size ctx then Some (- 1, d)
          else
            do { let target = off_t (eeprom_base_offset ctx + off);
                 dev \<leftarrow> eeprom_dev ctx;
                 bs \<leftarrow> mem_read buf 0 (unat n);
                 let (rc, d) = eeprom_write drv dev target bs d;
                 Some (if rc < 0 then - 1 else 0, d) }
      | _ \<Rightarrow> Some (- 1, d))"

text \<open>The loop of the erase; \<open>ff_buf\<close> is its array of 32 bytes.\<close>

function eeprom_erase_loop ::
  "('v, 'd) eeprom_api \<Rightarrow> 'v mconf_zephyr_eeprom_ctx \<Rightarrow> byte list \<Rightarrow> size_t \<Rightarrow> size_t \<Rightarrow> 'd \<Rightarrow>
    (int \<times> 'd) option" where
  "eeprom_erase_loop drv ctx ff_buf remaining current_offset d =
     (if remaining > 0 then
        do { let n = (if remaining > 32 then 32 else remaining);
             let target = off_t (eeprom_base_offset ctx + current_offset);
             dev \<leftarrow> eeprom_dev ctx;
             bs \<leftarrow> mem_read ff_buf 0 (unat n);
             let (rc, d) = eeprom_write drv dev target bs d;
             if rc < 0 then Some (- 1, d)
             else eeprom_erase_loop drv ctx ff_buf (remaining - n) (current_offset + n) d }
      else Some (0, d))"
  by pat_completeness auto

lemma erase_chunk_less:
  fixes remaining :: size_t
  assumes "remaining > 0"
  shows "unat (remaining - (if remaining > 32 then 32 else remaining)) < unat remaining"
proof (cases "remaining > 32")
  case True
  then have "unat (remaining - 32) = unat remaining - 32"
    by (simp add: unat_sub word_less_nat_alt word_le_nat_alt)
  with True show ?thesis by (simp add: word_less_nat_alt)
qed (use assms in \<open>simp add: word_less_nat_alt\<close>)

termination eeprom_erase_loop
  by (relation "measure (\<lambda>(drv, ctx, ff_buf, remaining, current_offset, d). unat remaining)")
     (use erase_chunk_less in auto)

declare eeprom_erase_loop.simps [simp del]

definition mconf_zephyr_eeprom_erase ::
  "('v, 'd) eeprom_api \<Rightarrow> 'v mconf_zephyr_eeprom_ctx option \<Rightarrow> size_t \<Rightarrow> size_t \<Rightarrow> 'd \<Rightarrow>
    (int \<times> 'd) option" where
  "mconf_zephyr_eeprom_erase drv callback_ctx off n d =
     (case callback_ctx of
        None \<Rightarrow> Some (- 1, d)
      | Some ctx \<Rightarrow>
          if off + n > eeprom_total_size ctx then Some (- 1, d)
          else eeprom_erase_loop drv ctx (replicate 32 0xFF) n off d)"

text \<open>
  The callbacks as the library sees them: the state behind \<open>callback_ctx\<close> is the context that it
  points to together with the hardware, and the library's buffers are never null.
\<close>

type_synonym ('v, 'd) eeprom_state = "'v mconf_zephyr_eeprom_ctx option \<times> 'd"

definition eeprom_io :: "('v, 'd) eeprom_api \<Rightarrow> size_t \<Rightarrow> ('v, 'd) eeprom_state mconf_io" where
  "eeprom_io drv total_size =
     \<lparr>storage_size = total_size, slot_size = total_size div 2,
      io_read = Some (\<lambda>(c, d) off buf.
        do { (rc, out, d) \<leftarrow> mconf_zephyr_eeprom_read drv c off (Some buf) (of_nat (length buf)) d;
             buf \<leftarrow> out;
             Some (rc, buf, c, d) }),
      io_write = Some (\<lambda>(c, d) off bs.
        do { (rc, d) \<leftarrow> mconf_zephyr_eeprom_write drv c off (Some bs) (of_nat (length bs)) d;
             Some (rc, c, d) }),
      io_erase = Some (\<lambda>(c, d) off n.
        do { (rc, d) \<leftarrow> mconf_zephyr_eeprom_erase drv c off n d;
             Some (rc, c, d) })\<rparr>"

text \<open>The result is the return code, \<open>*ctx\<close> and \<open>*io\<close>.\<close>

definition mconf_zephyr_eeprom_init ::
  "('v, 'd) eeprom_api \<Rightarrow> 'v mconf_zephyr_eeprom_ctx option \<Rightarrow> 'v option \<Rightarrow> size_t \<Rightarrow> size_t \<Rightarrow>
    ('v, 'd) eeprom_state mconf_io option \<Rightarrow> 'd \<Rightarrow>
    int \<times> 'v mconf_zephyr_eeprom_ctx option \<times> ('v, 'd) eeprom_state mconf_io option" where
  "mconf_zephyr_eeprom_init drv ctx dev base_offset total_size io d =
     (case (ctx, dev, io) of
        (Some c, Some v, Some _) \<Rightarrow>
          if \<not> device_is_ready drv v d then (- ENODEV, ctx, io)
          else
            let dev_size = eeprom_get_size drv v d in
            if dev_size = 0 then (- ENODEV, ctx, io)
            else if base_offset \<ge> dev_size then (- EINVAL, ctx, io)
            else
              let total_size = (if total_size = 0 then dev_size - base_offset else total_size) in
              if base_offset + total_size > dev_size then (- EINVAL, ctx, io)
              else if total_size < 64 \<or> total_size mod 2 \<noteq> 0 then (- EINVAL, ctx, io)
              else (0, Some (c\<lparr>eeprom_dev := dev, eeprom_base_offset := base_offset,
                      eeprom_total_size := total_size\<rparr>), Some (eeprom_io drv total_size))
      | _ \<Rightarrow> (- EINVAL, ctx, io))"

section \<open>The driver\<close>

text \<open>
  What the documentation of the driver promises for a range inside the device. A read changes nothing and,
  unless it reports an error, fills the buffer; a write changes only its range and, unless it reports
  an error, stores its bytes. Either may fail. The capacity does not change and is small enough for an
  \<open>off_t\<close>.
\<close>

locale eeprom_driver =
  fixes drv :: "('v, 'd) eeprom_api"
    and dev :: 'v
    and capacity :: size_t
    and mem :: "'d \<Rightarrow> byte list"
    and dinv :: "'d \<Rightarrow> bool"
  assumes reported_size: "dinv d \<Longrightarrow> eeprom_get_size drv dev d = capacity"
    and mem_size: "dinv d \<Longrightarrow> length (mem d) = unat capacity"
    and capacity_off_t: "unat capacity < 2 ^ 63"
    and driver_read: "dinv d \<Longrightarrow> a + length buf \<le> unat capacity \<Longrightarrow>
      \<exists>rc buf' d'. eeprom_read drv dev (int a) buf d = (rc, buf', d') \<and> length buf' = length buf \<and>
        dinv d' \<and> mem d' = mem d \<and> (0 \<le> rc \<longrightarrow> buf' = chunk (mem d) a (length buf))"
    and driver_write: "dinv d \<Longrightarrow> a + length bs \<le> unat capacity \<Longrightarrow>
      \<exists>rc d'. eeprom_write drv dev (int a) bs d = (rc, d') \<and> dinv d' \<and>
        same_outside (mem d) (mem d') a (length bs) \<and> (0 \<le> rc \<longrightarrow> mem d' = patch (mem d) a bs)"
begin

text \<open>
  The erase loop fills a first part of its range. On success that is all of it, otherwise a write of the
  driver to a part of the rest has failed.
\<close>

lemma erase_loop_runs:
  assumes "dinv d" and "eeprom_dev ctx = Some dev"
    and "unat (eeprom_base_offset ctx) + unat cur + unat remaining \<le> unat capacity"
  shows "\<exists>rc d' k. eeprom_erase_loop drv ctx (replicate 32 0xFF) remaining cur d = Some (rc, d') \<and> dinv d' \<and>
    (rc = 0 \<and> k = unat remaining \<and>
       mem d' = patch (mem d) (unat (eeprom_base_offset ctx) + unat cur) (replicate k 0xFF) \<or>
     rc = - 1 \<and> (\<exists>d1 n rc1. dinv d1 \<and> k + n \<le> unat remaining \<and>
       mem d1 = patch (mem d) (unat (eeprom_base_offset ctx) + unat cur) (replicate k 0xFF) \<and>
       eeprom_write drv dev (int (unat (eeprom_base_offset ctx) + unat cur + k)) (replicate n 0xFF) d1 = (rc1, d')))"
  using assms
proof (induction "unat remaining" arbitrary: remaining cur d rule: less_induct)
  case less
  show ?case
  proof (cases "remaining > 0")
    case False
    then show ?thesis
      using less.prems by (intro exI [of _ 0] exI [of _ d]) (simp add: eeprom_erase_loop.simps word_gt_0)
  next
    case True
    let ?base = "unat (eeprom_base_offset ctx)"
    define n where "n = (if remaining > 32 then 32 else remaining)"
    have n: "unat n \<le> 32" "unat n \<le> unat remaining" "n \<le> remaining"
      by (auto simp: n_def word_less_nat_alt word_le_nat_alt)
    note smaller = erase_chunk_less [OF True, folded n_def]
    have rest: "unat (remaining - n) = unat remaining - unat n" using n(3) by (simp add: unat_sub)
    have cur: "unat (cur + n) = unat cur + unat n"
      using less.prems(3) n(2) size_t_bound [of capacity] by (simp add: unat_add_no_wrap)
    define a where "a = ?base + unat cur"
    have a: "a + unat remaining \<le> unat capacity" "unat (eeprom_base_offset ctx + cur) = a"
      using less.prems(3) size_t_bound [of capacity] by (simp_all add: a_def unat_add_no_wrap)
    have target: "off_t (eeprom_base_offset ctx + cur) = int a"
      using off_t_eq [of "eeprom_base_offset ctx + cur", unfolded a(2)] a(1) capacity_off_t by (simp only:)
    have ff: "mem_read (replicate 32 0xFF) 0 (unat n) = Some (replicate (unat n) (0xFF :: byte))"
      using n(1) by (simp add: mem_read_def)
    have "a + length (replicate (unat n) (0xFF :: byte)) \<le> unat capacity" using a(1) n(2) by simp
    from driver_write [OF less.prems(1) this]
    obtain rc d1 where w: "eeprom_write drv dev (int a) (replicate (unat n) 0xFF) d = (rc, d1)" "dinv d1"
      "0 \<le> rc \<longrightarrow> mem d1 = patch (mem d) a (replicate (unat n) 0xFF)"
      by blast
    note step = eeprom_erase_loop.simps [of drv ctx "replicate 32 0xFF" remaining cur d, folded n_def]
    show ?thesis
    proof (cases "rc < 0")
      case rc: True
      then show ?thesis
        using True w n(2) less.prems(1,2)
        by (intro exI [of _ "- 1"] exI [of _ d1] exI [of _ 0], simp add: step ff target a_def)
           (metis add_0)
    next
      case False
      have fits: "?base + unat (cur + n) + unat (remaining - n) \<le> unat capacity"
        using less.prems(3) n(2) by (simp add: cur rest)
      have joint: "patch (mem d1) (?base + unat (cur + n)) (replicate j 0xFF) =
          patch (mem d) a (replicate (unat n + j) 0xFF)" if "j \<le> unat remaining - unat n" for j
      proof -
        have "a + (unat n + j) \<le> length (mem d)" using that n(2) a(1) mem_size [OF less.prems(1)] by simp
        from patch_replicate_append [OF this] show ?thesis
          using w(3) False by (simp add: cur a_def add.assoc [symmetric])
      qed
      from less.hyps [OF smaller w(2) less.prems(2) fits] obtain rc' d' j where
        r: "eeprom_erase_loop drv ctx (replicate 32 0xFF) (remaining - n) (cur + n) d1 = Some (rc', d')" "dinv d'"
        and cases: "rc' = 0 \<and> j = unat remaining - unat n \<and>
            mem d' = patch (mem d1) (?base + unat (cur + n)) (replicate j 0xFF) \<or>
          rc' = - 1 \<and> (\<exists>d2 m rc2. dinv d2 \<and> j + m \<le> unat remaining - unat n \<and>
            mem d2 = patch (mem d1) (?base + unat (cur + n)) (replicate j 0xFF) \<and>
            eeprom_write drv dev (int (?base + unat (cur + n) + j)) (replicate m 0xFF) d2 = (rc2, d'))"
        unfolding rest by blast
      have j: "j \<le> unat remaining - unat n" using cases by auto
      have run: "eeprom_erase_loop drv ctx (replicate 32 0xFF) remaining cur d = Some (rc', d')"
        using True False w r(1) less.prems(2) by (simp add: step ff target)
      have addr: "?base + unat (cur + n) + j = ?base + unat cur + (unat n + j)" by (simp add: cur)
      from cases show ?thesis
        using run r(2) n(2) joint [OF j] unfolding addr a_def
        by (intro exI [of _ rc'] exI [of _ d'] exI [of _ "unat n + j"]) fastforce
    qed
  qed
qed

end

text \<open>
  A device whose reads do not fail, and on which a write that fails, as when the supply ends, has stored
  a first part of its bytes.
\<close>

locale steady_eeprom = eeprom_driver +
  assumes read_steady: "dinv d \<Longrightarrow> a + length buf \<le> unat capacity \<Longrightarrow>
      eeprom_read drv dev (int a) buf d = (rc, buf', d') \<Longrightarrow> 0 \<le> rc"
    and write_steady: "dinv d \<Longrightarrow> a + length bs \<le> unat capacity \<Longrightarrow>
      eeprom_write drv dev (int a) bs d = (rc, d') \<Longrightarrow> \<exists>k \<le> length bs. mem d' = patch (mem d) a (take k bs)"

section \<open>The backend meets the contract\<close>

text \<open>
  A context that \<open>mconf_zephyr_eeprom_init\<close> has filled in, with a region that lies in the device.
\<close>

locale eeprom_region = eeprom_driver +
  fixes ctx :: "'a mconf_zephyr_eeprom_ctx"
    and original :: "byte list"
  assumes ctx_dev: "eeprom_dev ctx = Some dev"
    and ctx_region: "unat (eeprom_base_offset ctx) + unat (eeprom_total_size ctx) \<le> unat capacity"
begin

lemma region_room:
  assumes "unat off + n \<le> unat (eeprom_total_size ctx)"
  shows "n < 2 ^ 64" "\<not> off + of_nat n > eeprom_total_size ctx"
    "unat (eeprom_base_offset ctx) + unat off + n \<le> unat capacity"
    "off_t (eeprom_base_offset ctx + off) = int (unat (eeprom_base_offset ctx) + unat off)"
  using in_bounds [OF assms] region_target [OF assms] assms ctx_region capacity_off_t by simp_all

text \<open>The three callbacks inside the region, with the calls of the driver behind them.\<close>

lemma eeprom_read_runs:
  assumes "dinv d" and "unat off + length buf \<le> unat (eeprom_total_size ctx)"
  obtains rc buf' d' where
    "eeprom_read drv dev (int (unat (eeprom_base_offset ctx) + unat off)) buf d = (rc, buf', d')"
    "mconf_zephyr_eeprom_read drv (Some ctx) off (Some buf) (of_nat (length buf)) d =
      Some (if rc < 0 then - 1 else 0, Some buf', d')"
    "length buf' = length buf" "dinv d'" "mem d' = mem d"
    "0 \<le> rc \<longrightarrow> buf' = chunk (mem d) (unat (eeprom_base_offset ctx) + unat off) (length buf)"
proof -
  note room = region_room [OF assms(2)]
  have len: "unat (of_nat (length buf) :: size_t) = length buf" using room(1) by (simp add: unat_of_nat_size)
  obtain rc buf' d' where "eeprom_read drv dev (int (unat (eeprom_base_offset ctx) + unat off)) buf d = (rc, buf', d')"
    "length buf' = length buf" "dinv d'" "mem d' = mem d"
    "0 \<le> rc \<longrightarrow> buf' = chunk (mem d) (unat (eeprom_base_offset ctx) + unat off) (length buf)"
    using driver_read [OF assms(1) room(3)] by blast
  with room len ctx_dev show thesis
    by (intro that [of rc buf' d']) (simp_all add: mconf_zephyr_eeprom_read_def mem_simps patch_def del: of_nat_add)
qed

lemma eeprom_write_runs:
  assumes "dinv d" and "unat off + length bs \<le> unat (eeprom_total_size ctx)"
  obtains rc d' where
    "eeprom_write drv dev (int (unat (eeprom_base_offset ctx) + unat off)) bs d = (rc, d')"
    "mconf_zephyr_eeprom_write drv (Some ctx) off (Some bs) (of_nat (length bs)) d = Some (if rc < 0 then - 1 else 0, d')"
    "dinv d'" "same_outside (mem d) (mem d') (unat (eeprom_base_offset ctx) + unat off) (length bs)"
    "0 \<le> rc \<longrightarrow> mem d' = patch (mem d) (unat (eeprom_base_offset ctx) + unat off) bs"
proof -
  note room = region_room [OF assms(2)]
  have len: "unat (of_nat (length bs) :: size_t) = length bs" using room(1) by (simp add: unat_of_nat_size)
  obtain rc d' where "eeprom_write drv dev (int (unat (eeprom_base_offset ctx) + unat off)) bs d = (rc, d')"
    "dinv d'" "same_outside (mem d) (mem d') (unat (eeprom_base_offset ctx) + unat off) (length bs)"
    "0 \<le> rc \<longrightarrow> mem d' = patch (mem d) (unat (eeprom_base_offset ctx) + unat off) bs"
    using driver_write [OF assms(1) room(3)] by blast
  with room len ctx_dev show thesis
    by (intro that [of rc d']) (simp_all add: mconf_zephyr_eeprom_write_def mem_simps del: of_nat_add)
qed

lemma eeprom_erase_runs:
  assumes "dinv d" and "unat off + unat n \<le> unat (eeprom_total_size ctx)"
  obtains rc d' k where "mconf_zephyr_eeprom_erase drv (Some ctx) off n d = Some (rc, d')" "dinv d'" "k \<le> unat n"
    "rc = 0 \<and> k = unat n \<and>
       mem d' = patch (mem d) (unat (eeprom_base_offset ctx) + unat off) (replicate k 0xFF) \<or>
     rc = - 1 \<and> (\<exists>d1 m rc1. dinv d1 \<and> k + m \<le> unat n \<and>
       mem d1 = patch (mem d) (unat (eeprom_base_offset ctx) + unat off) (replicate k 0xFF) \<and>
       eeprom_write drv dev (int (unat (eeprom_base_offset ctx) + unat off + k)) (replicate m 0xFF) d1 = (rc1, d'))"
proof -
  have "\<not> off + n > eeprom_total_size ctx" using region_room(2) [OF assms(2)] by simp
  then have "mconf_zephyr_eeprom_erase drv (Some ctx) off n d = eeprom_erase_loop drv ctx (replicate 32 0xFF) n off d"
    using ctx_dev by (simp add: mconf_zephyr_eeprom_erase_def)
  with erase_loop_runs [OF assms(1) ctx_dev region_room(3) [OF assms(2)]] obtain rc d' k where
    run: "mconf_zephyr_eeprom_erase drv (Some ctx) off n d = Some (rc, d')" "dinv d'"
    and cases: "rc = 0 \<and> k = unat n \<and>
       mem d' = patch (mem d) (unat (eeprom_base_offset ctx) + unat off) (replicate k 0xFF) \<or>
     rc = - 1 \<and> (\<exists>d1 m rc1. dinv d1 \<and> k + m \<le> unat n \<and>
       mem d1 = patch (mem d) (unat (eeprom_base_offset ctx) + unat off) (replicate k 0xFF) \<and>
       eeprom_write drv dev (int (unat (eeprom_base_offset ctx) + unat off + k)) (replicate m 0xFF) d1 = (rc1, d'))"
    by metis
  have "k \<le> unat n" using cases by auto
  from that [OF run this cases] show thesis .
qed

text \<open>The range of a failed write of the erase loop, after the part that is filled.\<close>

lemma erase_failed_inside:
  fixes off n :: size_t
  assumes "dinv d" and "unat off + unat n \<le> unat (eeprom_total_size ctx)" and "dinv d1" and "k + m \<le> unat n"
    and "mem d1 = patch (mem d) (unat (eeprom_base_offset ctx) + unat off) (replicate k 0xFF)"
    and "eeprom_write drv dev (int (unat (eeprom_base_offset ctx) + unat off + k)) (replicate m 0xFF) d1 = (rc1, d')"
  shows "same_outside (mem d) (mem d') (unat (eeprom_base_offset ctx) + unat off) (unat n)"
proof -
  let ?a = "unat (eeprom_base_offset ctx) + unat off"
  have room: "?a + unat n \<le> unat capacity" by (rule region_room(3) [OF assms(2)])
  have "?a + k + length (replicate m (0xFF :: byte)) \<le> unat capacity" using room assms(4) by simp
  from driver_write [OF assms(3) this] have "same_outside (mem d1) (mem d') (?a + k) m"
    using assms(6) by auto
  then have "same_outside (mem d1) (mem d') ?a (unat n)"
    by (rule same_outside_mono) (use assms(4) in simp_all)
  moreover have "same_outside (mem d) (mem d1) ?a (unat n)"
    using same_outside_patch [of ?a "replicate k 0xFF" "mem d"] room assms(4,5) mem_size [OF assms(1)]
    by (auto intro: same_outside_mono)
  ultimately show ?thesis using same_outside_trans by blast
qed

end

sublocale eeprom_region \<subseteq> region "eeprom_io drv (eeprom_total_size ctx)" "\<lambda>s. mem (snd s)"
  "\<lambda>s. fst s = Some ctx \<and> dinv (snd s)" "unat (eeprom_base_offset ctx)" original
proof (unfold_locales, goal_cases)
  case (4 s)
  then show ?case using ctx_region mem_size by (simp add: eeprom_io_def)
next
  case (5 s off m buf)
  then show ?case
    using bound_check [OF 5(2)]
    by (cases s) (auto simp: eeprom_io_def mconf_zephyr_eeprom_read_def mconf_zephyr_eeprom_write_def
        mconf_zephyr_eeprom_erase_def)
next
  case (6 s off buf)
  then have room: "unat off + length buf \<le> unat (eeprom_total_size ctx)" by (simp add: eeprom_io_def)
  obtain d where s: "s = (Some ctx, d)" "dinv d" using 6(1) by (cases s) auto
  show ?case
    by (rule eeprom_read_runs [OF s(2) room]) (auto simp: s(1) eeprom_io_def)
next
  case (7 s off bs)
  then have room: "unat off + length bs \<le> unat (eeprom_total_size ctx)" by (simp add: eeprom_io_def)
  obtain d where s: "s = (Some ctx, d)" "dinv d" using 7(1) by (cases s) auto
  show ?case by (rule eeprom_write_runs [OF s(2) room]) (auto simp: s(1) eeprom_io_def)
next
  case (8 s off n)
  then have room: "unat off + unat n \<le> unat (eeprom_total_size ctx)" by (simp add: eeprom_io_def)
  obtain d where s: "s = (Some ctx, d)" "dinv d" using 8(1) by (cases s) auto
  obtain rc d' k where e: "mconf_zephyr_eeprom_erase drv (Some ctx) off n d = Some (rc, d')" "dinv d'"
    "rc = 0 \<and> k = unat n \<and>
       mem d' = patch (mem d) (unat (eeprom_base_offset ctx) + unat off) (replicate k 0xFF) \<or>
     rc = - 1 \<and> (\<exists>d1 m rc1. dinv d1 \<and> k + m \<le> unat n \<and>
       mem d1 = patch (mem d) (unat (eeprom_base_offset ctx) + unat off) (replicate k 0xFF) \<and>
       eeprom_write drv dev (int (unat (eeprom_base_offset ctx) + unat off + k)) (replicate m 0xFF) d1 = (rc1, d'))"
    by (rule eeprom_erase_runs [OF s(2) room])
  from e(3) have "same_outside (mem d) (mem d') (unat (eeprom_base_offset ctx) + unat off) (unat n) \<and>
      (rc = 0 \<longrightarrow> mem d' = patch (mem d) (unat (eeprom_base_offset ctx) + unat off) (replicate (unat n) 0xFF))"
  proof (elim disjE conjE exE)
    assume "rc = 0" "k = unat n" "mem d' = patch (mem d) (unat (eeprom_base_offset ctx) + unat off) (replicate k 0xFF)"
    then show ?thesis
      using same_outside_patch [of "unat (eeprom_base_offset ctx) + unat off" "replicate (unat n) 0xFF" "mem d"]
        region_room(3) [OF room] mem_size [OF s(2)] by simp
  qed (use erase_failed_inside [OF s(2) room] in auto)
  with e(1,2) show ?case by (simp add: s(1) eeprom_io_def)
qed (simp_all add: eeprom_io_def)

context eeprom_region
begin

lemma in_region:
  "region (eeprom_io drv (eeprom_total_size ctx)) (\<lambda>s. mem (snd s))
  (\<lambda>s. fst s = Some ctx \<and> dinv (snd s)) (unat (eeprom_base_offset ctx))"
  by unfold_locales

end

text \<open>On a steady device the region tears its writes at worst.\<close>

locale steady_eeprom_region = eeprom_region + steady_eeprom

sublocale steady_eeprom_region \<subseteq> readable_region "eeprom_io drv (eeprom_total_size ctx)" "\<lambda>s. mem (snd s)"
  "\<lambda>s. fst s = Some ctx \<and> dinv (snd s)" "unat (eeprom_base_offset ctx)" original
proof (unfold_locales, goal_cases)
  case (1 s off buf rc buf' s')
  then have room: "unat off + length buf \<le> unat (eeprom_total_size ctx)" by (simp add: eeprom_io_def)
  obtain d where s: "s = (Some ctx, d)" "dinv d" using 1(1) by (cases s) auto
  show ?case
    by (rule eeprom_read_runs [OF s(2) room])
       (use 1(3) read_steady [OF s(2) region_room(3) [OF room]] in \<open>auto simp: s(1) eeprom_io_def split: if_splits\<close>)
next
  case (2 s off bs rc s')
  then have room: "unat off + length bs \<le> unat (eeprom_total_size ctx)" by (simp add: eeprom_io_def)
  obtain d where s: "s = (Some ctx, d)" "dinv d" using 2(1) by (cases s) auto
  show ?case
    by (rule eeprom_write_runs [OF s(2) room])
       (use 2(3) write_steady [OF s(2) region_room(3) [OF room]] in \<open>auto simp: s(1) eeprom_io_def\<close>)
next
  case (3 s off n rc s')
  then have room: "unat off + unat n \<le> unat (eeprom_total_size ctx)" by (simp add: eeprom_io_def)
  obtain d where s: "s = (Some ctx, d)" "dinv d" using 3(1) by (cases s) auto
  let ?a = "unat (eeprom_base_offset ctx) + unat off"
  have cap: "?a + unat n \<le> unat capacity" by (rule region_room(3) [OF room])
  show ?case
  proof (rule eeprom_erase_runs [OF s(2) room], elim disjE conjE exE)
    fix rc1 d' k
    assume "mconf_zephyr_eeprom_erase drv (Some ctx) off n d = Some (rc1, d')" "k \<le> unat n"
      "mem d' = patch (mem d) ?a (replicate k 0xFF)"
    with 3(3) show ?thesis by (intro exI [of _ k]) (auto simp: s(1) eeprom_io_def)
  next
    fix rc1 d' k d1 m rc2
    assume run: "mconf_zephyr_eeprom_erase drv (Some ctx) off n d = Some (rc1, d')"
      and d1: "dinv d1" "k + m \<le> unat n" "mem d1 = patch (mem d) ?a (replicate k 0xFF)"
      and w: "eeprom_write drv dev (int (?a + k)) (replicate m 0xFF) d1 = (rc2, d')"
    have "?a + k + length (replicate m (0xFF :: byte)) \<le> unat capacity" using cap d1(2) by simp
    from write_steady [OF d1(1) this w] obtain j where j: "j \<le> m"
      "mem d' = patch (mem d1) (?a + k) (replicate j 0xFF)" by (auto simp: min_absorb1)
    have "?a + (k + j) \<le> length (mem d)" using cap d1(2) j(1) mem_size [OF s(2)] by simp
    from patch_replicate_append [OF this] have "mem d' = patch (mem d) ?a (replicate (k + j) 0xFF)"
      using j(2) d1(3) by simp
    with run 3(3) d1(2) j(1) show ?thesis by (intro exI [of _ "k + j"]) (auto simp: s(1) eeprom_io_def)
  qed
qed

context steady_eeprom_region
begin

lemma in_readable_region:
  "readable_region (eeprom_io drv (eeprom_total_size ctx)) (\<lambda>s. mem (snd s))
  (\<lambda>s. fst s = Some ctx \<and> dinv (snd s)) (unat (eeprom_base_offset ctx))"
  by unfold_locales

end

section \<open>On the chip\<close>

definition chip_api :: "(unit, chip) eeprom_api" where
  "chip_api = \<lparr>device_is_ready = \<lambda>_ _. True, eeprom_get_size = \<lambda>_ _. 256,
     eeprom_read = \<lambda>_ a buf d. (0, chunk (chip_mem d) (nat a) (length buf), d),
     eeprom_write = \<lambda>_ a bs d. chip_write a bs d\<rparr>"

definition chip_ctx :: "unit mconf_zephyr_eeprom_ctx" where
  "chip_ctx = \<lparr>eeprom_dev = Some (), eeprom_base_offset = 16, eeprom_total_size = 240\<rparr>"

interpretation chip: steady_eeprom chip_api "()" 256 chip_mem chip_ok
proof (unfold_locales, goal_cases)
  case (5 d a bs)
  from chip_write_law [of d a bs] 5 obtain rc d' k where w: "chip_write (int a) bs d = (rc, d')" "chip_ok d'" "k \<le> length bs"
    "chip_mem d' = patch (chip_mem d) a (take k bs)" "rc = (if k = length bs then 0 else - EIO)" by auto
  have "same_outside (chip_mem d) (chip_mem d') a (length (take k bs))"
    unfolding w(4) by (rule same_outside_patch) (use 5 w(3) in \<open>simp add: chip_ok_def\<close>)
  then have "same_outside (chip_mem d) (chip_mem d') a (length bs)"
    by (rule same_outside_mono) (use w(3) in simp_all)
  with w show ?case by (auto simp: chip_api_def errno_defs split: if_splits)
next
  case (7 d a bs rc d')
  with chip_write_law [of d a bs] show ?case by (auto simp: chip_api_def)
qed (auto simp: chip_api_def chip_ok_def)

interpretation chip_part: steady_eeprom_region chip_api "()" 256 chip_mem chip_ok chip_ctx "replicate 256 0xFF"
  by unfold_locales (simp_all add: chip_ctx_def)

section \<open>Properties\<close>

lemma unat_minus_size:
  assumes "0 < (b :: size_t)"
  shows "unat (- b) = 2 ^ 64 - unat b"
proof -
  let ?sum = "unat (- b) + unat b"
  have "- b + b < - b" using assms by (simp add: word_gt_0)
  then have "2 ^ 64 \<le> ?sum" using unat_add_wrap_iff [of "- b" b] by simp
  moreover have "?sum mod 2 ^ 64 = 0" using unat_word_ariths(1) [of "- b" b] by simp
  moreover have "?sum < 2 ^ 64 + 2 ^ 64" using size_t_bound [of b] size_t_bound [of "- b"] by simp
  ultimately have "?sum = 2 ^ 64" by (simp add: le_mod_geq)
  then show ?thesis by simp
qed

text \<open>The size that a total size of 0 stands for.\<close>

definition eeprom_region_size :: "size_t \<Rightarrow> size_t \<Rightarrow> size_t \<Rightarrow> size_t" where
  "eeprom_region_size capacity base_offset total_size =
     (if total_size = 0 then capacity - base_offset else total_size)"

lemma eeprom_init_runs:
  assumes "eeprom_driver drv dev capacity mem dinv" and "dinv d"
  shows "\<exists>rc c' io'. mconf_zephyr_eeprom_init drv (Some c) (Some dev) base_offset total_size (Some io) d =
      (rc, Some c', Some io') \<and>
    (rc = 0 \<longleftrightarrow> device_is_ready drv dev d \<and> base_offset < capacity \<and>
       base_offset + eeprom_region_size capacity base_offset total_size \<le> capacity \<and>
       64 \<le> eeprom_region_size capacity base_offset total_size \<and>
       even (unat (eeprom_region_size capacity base_offset total_size))) \<and>
    (if rc = 0
     then io' = eeprom_io drv (eeprom_total_size c') \<and> eeprom_base_offset c' = base_offset \<and>
       eeprom_total_size c' = eeprom_region_size capacity base_offset total_size \<and>
       (unat base_offset + unat (eeprom_total_size c') < 2 ^ 64 \<longrightarrow> eeprom_region drv dev capacity mem dinv c')
     else rc = (if \<not> device_is_ready drv dev d \<or> capacity = 0 then - ENODEV else - EINVAL) \<and> c' = c \<and> io' = io)"
proof -
  define size where "size = eeprom_region_size capacity base_offset total_size"
  note drv = eeprom_driver.reported_size [OF assms]
  have parity: "(size mod 2 \<noteq> 0) = odd (unat size)"
    by (simp add: unat_eq_0 [symmetric] unat_mod even_iff_mod_2_eq_zero)
  let ?c = "c\<lparr>eeprom_dev := Some dev, eeprom_base_offset := base_offset, eeprom_total_size := size\<rparr>"
  have region: "eeprom_region drv dev capacity mem dinv ?c"
    if "unat base_offset + unat size < 2 ^ 64" "base_offset + size \<le> capacity"
    using assms(1) that by (simp add: eeprom_region_def eeprom_region_axioms_def word_le_nat_alt unat_add_no_wrap)
  note init = mconf_zephyr_eeprom_init_def [of drv "Some c" "Some dev" base_offset total_size "Some io" d,
      simplified, unfolded drv Let_def, folded eeprom_region_size_def, folded size_def]
  consider "\<not> device_is_ready drv dev d \<or> capacity = 0" | "device_is_ready drv dev d" "capacity \<noteq> 0" "capacity \<le> base_offset"
    | "device_is_ready drv dev d" "capacity \<noteq> 0" "base_offset < capacity" by force
  then show ?thesis
  proof cases
    case 3
    then show ?thesis
      using region parity unfolding size_def [symmetric]
      by (auto simp: init errno_defs not_less not_le)
  qed (auto simp: init errno_defs)
qed

text \<open>
  C27. \<open>mconf_zephyr_eeprom_init\<close> on a driver that keeps its contract succeeds exactly when the device is
  ready, the region starts inside it, the end of the region computed as a \<open>size_t\<close> is not past its end,
  and the region splits into two slots that can hold a header. It then fills in context and interface;
  if the end does not wrap around, the region lies in the device and every callback meets the contract.
  Otherwise it reports \<open>-ENODEV\<close> or \<open>-EINVAL\<close> and leaves both as they were.
\<close>

theorem eeprom_init_exact:
  assumes "eeprom_driver drv dev capacity mem dinv" and "dinv d"
  shows "\<exists>rc c' io'. mconf_zephyr_eeprom_init drv (Some c) (Some dev) base_offset total_size (Some io) d =
      (rc, Some c', Some io') \<and>
    (rc = 0 \<longleftrightarrow> device_is_ready drv dev d \<and> base_offset < capacity \<and>
       base_offset + eeprom_region_size capacity base_offset total_size \<le> capacity \<and>
       64 \<le> eeprom_region_size capacity base_offset total_size \<and>
       even (unat (eeprom_region_size capacity base_offset total_size))) \<and>
    (if rc = 0
     then io' = eeprom_io drv (eeprom_total_size c') \<and> eeprom_base_offset c' = base_offset \<and>
       eeprom_total_size c' = eeprom_region_size capacity base_offset total_size \<and>
       (unat base_offset + unat (eeprom_total_size c') < 2 ^ 64 \<longrightarrow> eeprom_region drv dev capacity mem dinv c')
     else rc = (if \<not> device_is_ready drv dev d \<or> capacity = 0 then - ENODEV else - EINVAL) \<and> c' = c \<and> io' = io)"
  by (rule eeprom_init_runs [OF assms])

theorem eeprom_init_exact_witness:
  "\<exists>rc c' io'. mconf_zephyr_eeprom_init chip_api (Some chip_ctx) (Some ()) 16 0 (Some (eeprom_io chip_api 0))
      (erased_chip 0) = (rc, Some c', Some io') \<and>
    (rc = 0 \<longleftrightarrow> device_is_ready chip_api () (erased_chip 0) \<and> (16 :: size_t) < 256 \<and>
       16 + eeprom_region_size 256 16 0 \<le> 256 \<and>
       64 \<le> eeprom_region_size 256 16 0 \<and> even (unat (eeprom_region_size 256 16 0))) \<and>
    (if rc = 0
     then io' = eeprom_io chip_api (eeprom_total_size c') \<and> eeprom_base_offset c' = 16 \<and>
       eeprom_total_size c' = eeprom_region_size 256 16 0 \<and>
       (unat (16 :: size_t) + unat (eeprom_total_size c') < 2 ^ 64 \<longrightarrow> eeprom_region chip_api () 256 chip_mem chip_ok c')
     else rc = (if \<not> device_is_ready chip_api () (erased_chip 0) \<or> (256 :: size_t) = 0 then - ENODEV else - EINVAL) \<and>
       c' = chip_ctx \<and> io' = eeprom_io chip_api 0)"
  by (rule eeprom_init_exact [OF chip.eeprom_driver_axioms]) simp

text \<open>
  C31. The check of the region does not see an end that wraps around: with any even base offset inside the
  device there is a size that the call accepts although it is larger than the device.
\<close>

theorem eeprom_init_wraps:
  assumes "eeprom_driver drv dev capacity mem dinv" and "dinv d" and "device_is_ready drv dev d"
    and "0 < base_offset" and "base_offset < capacity" and "even (unat base_offset)"
  shows "\<exists>c' io'. mconf_zephyr_eeprom_init drv (Some c) (Some dev) base_offset (- base_offset) (Some io) d =
      (0, Some c', Some io') \<and> unat capacity < unat (storage_size io')"
proof -
  have bound: "unat capacity < 2 ^ 63" by (rule eeprom_driver.capacity_off_t [OF assms(1)])
  have size: "unat (- base_offset) = 2 ^ 64 - unat base_offset"
    by (rule unat_minus_size [OF assms(4)])
  have "odd (unat (- base_offset)) = False" using size assms(6) by simp
  then have parity: "(- base_offset) mod 2 = 0"
    by (simp add: unat_eq_0 [symmetric] unat_mod even_iff_mod_2_eq_zero)
  have bounds: "\<not> - base_offset < 64" "\<not> capacity \<le> base_offset" "capacity \<noteq> 0" "base_offset \<noteq> 0"
    "unat capacity < unat (- base_offset)"
    using size bound assms(4,5) by (auto simp: word_less_nat_alt word_le_nat_alt)
  show ?thesis
    using bounds assms(3) parity eeprom_driver.reported_size [OF assms(1,2)]
    by (simp add: mconf_zephyr_eeprom_init_def eeprom_io_def Let_def)
qed

theorem eeprom_init_wraps_witness:
  "\<exists>c' io'. mconf_zephyr_eeprom_init chip_api (Some chip_ctx) (Some ()) 16 (- 16) (Some (eeprom_io chip_api 0))
      (erased_chip 0) = (0, Some c', Some io') \<and>
    unat (256 :: size_t) < unat (storage_size io')"
  by (rule eeprom_init_wraps [OF chip.eeprom_driver_axioms]) (simp_all add: chip_api_def)

section \<open>The erase loop ends\<close>

text \<open>A driver that counts the writes, for any driver whatever.\<close>

definition counting :: "('v, 'd) eeprom_api \<Rightarrow> ('v, 'd \<times> nat) eeprom_api" where
  "counting drv = \<lparr>device_is_ready = \<lambda>v (d, n). device_is_ready drv v d, eeprom_get_size = \<lambda>v (d, n). eeprom_get_size drv v d,
     eeprom_read = \<lambda>v a buf (d, n). (let (rc, out, d) = eeprom_read drv v a buf d in (rc, out, d, n)),
     eeprom_write = \<lambda>v a bs (d, n). (let (rc, d) = eeprom_write drv v a bs d in (rc, d, Suc n))\<rparr>"

lemma counting_write [simp]:
  "eeprom_write (counting drv) v a bs (d, n) = (fst (eeprom_write drv v a bs d), snd (eeprom_write drv v a bs d), Suc n)"
  by (simp add: counting_def split: prod.split)

lemma erase_loop_counts:
  assumes "eeprom_dev ctx \<noteq> None"
  shows "\<exists>rc d' calls. eeprom_erase_loop (counting drv) ctx (replicate 32 0xFF) remaining cur (d, n) =
      Some (rc, d', n + calls) \<and> calls \<le> (unat remaining + 31) div 32 \<and>
    (rc = 0 \<longrightarrow> calls = (unat remaining + 31) div 32)"
proof (induction "unat remaining" arbitrary: remaining cur d n rule: less_induct)
  case less
  show ?case
  proof (cases "remaining > 0")
    case False
    then show ?thesis by (intro exI [of _ 0] exI [of _ d]) (simp add: eeprom_erase_loop.simps word_gt_0)
  next
    case True
    define k where "k = (if remaining > 32 then 32 else remaining)"
    have k: "unat k = min 32 (unat remaining)" "k \<le> remaining"
      by (auto simp: k_def word_less_nat_alt word_le_nat_alt)
    note smaller = erase_chunk_less [OF True, folded k_def]
    have rest: "unat (remaining - k) = unat remaining - 32" using k by (simp add: unat_sub)
    have pos: "0 < unat remaining" using True by (simp add: word_less_nat_alt)
    have ceil: "(unat remaining + 31) div 32 = Suc ((unat remaining - 32 + 31) div 32)"
      using pos by (cases "unat remaining \<le> 32") (auto simp: div_if)
    obtain dev where dev: "eeprom_dev ctx = Some dev" using assms by blast
    have ff: "mem_read (replicate 32 0xFF) 0 (unat k) = Some (replicate (unat k) (0xFF :: byte))"
      using k(1) by (simp add: mem_read_def)
    obtain rc d1 where w: "eeprom_write drv dev (off_t (eeprom_base_offset ctx + cur)) (replicate (unat k) 0xFF) d = (rc, d1)"
      by (cases "eeprom_write drv dev (off_t (eeprom_base_offset ctx + cur)) (replicate (unat k) 0xFF) d")
    note step = eeprom_erase_loop.simps [of "counting drv" ctx "replicate 32 0xFF" remaining cur "(d, n)", folded k_def]
    show ?thesis
    proof (cases "rc < 0")
      case rc: True
      then show ?thesis
        using True w by (intro exI [of _ "- 1"] exI [of _ d1] exI [of _ 1]) (simp add: step ff dev ceil)
    next
      case False
      from less [OF smaller, of "cur + k" d1 "Suc n"] obtain rc' d' calls where
        "eeprom_erase_loop (counting drv) ctx (replicate 32 0xFF) (remaining - k) (cur + k) (d1, Suc n) = Some (rc', d', Suc n + calls)"
        "calls \<le> (unat remaining - 32 + 31) div 32" "rc' = 0 \<longrightarrow> calls = (unat remaining - 32 + 31) div 32"
        unfolding rest by blast
      then show ?thesis
        using True False w by (intro exI [of _ rc'] exI [of _ d'] exI [of _ "Suc calls"]) (simp add: step ff dev ceil)
    qed
  qed
qed

text \<open>
  C36. An erase ends: on any driver, even one that keeps no contract, it returns after at most one write for
  every 32 bytes, and after exactly that many when it reports success. A range outside the configured
  region is refused without any write.
\<close>

theorem eeprom_erase_terminates:
  assumes "eeprom_dev ctx \<noteq> None"
  shows "\<exists>rc d' calls. mconf_zephyr_eeprom_erase (counting drv) (Some ctx) off n (d, 0) = Some (rc, d', calls) \<and>
    calls \<le> (unat n + 31) div 32 \<and> (rc = 0 \<longrightarrow> calls = (unat n + 31) div 32)"
proof (cases "off + n > eeprom_total_size ctx")
  case False
  from erase_loop_counts [OF assms, of drv n off d 0] False show ?thesis
    by (auto simp: mconf_zephyr_eeprom_erase_def)
qed (simp add: mconf_zephyr_eeprom_erase_def)

theorem eeprom_erase_terminates_witness:
  "\<exists>rc d' calls. mconf_zephyr_eeprom_erase (counting chip_api) (Some chip_ctx) 0 120 (erased_chip 1000, 0) = Some (rc, d', calls) \<and>
    calls \<le> (unat (120 :: size_t) + 31) div 32 \<and> (rc = 0 \<longrightarrow> calls = (unat (120 :: size_t) + 31) div 32)"
  by (rule eeprom_erase_terminates) (simp add: chip_ctx_def)

end
