(* ===== verification/Mconf_EraseFirst.thy ===== *)
theory Mconf_EraseFirst
  imports Mconf_Commit
begin

text \<open>
  Backends on memory that has to be erased before it is written, as the flash map documents it: a write
  to erased bytes stores them, and a write to any other bytes may leave anything in its range, whatever
  it reports. A save erases its slot, writes header and payload to erased bytes, and only the commit
  overwrites a byte. So its run is, up to the commit, the run on a backend that refuses to overwrite,
  which meets the contract of Mconf_Backend.
\<close>

section \<open>The guarded backend\<close>

definition erased :: "byte list \<Rightarrow> nat \<Rightarrow> nat \<Rightarrow> bool" where
  "erased c off n \<longleftrightarrow> off + n \<le> length c \<and> (\<forall>i < n. c ! (off + i) = 0xFF)"

definition guarded :: "('s \<Rightarrow> byte list) \<Rightarrow> 's mconf_io \<Rightarrow> 's mconf_io" where
  "guarded contents io = io\<lparr>io_write := Some (\<lambda>s off bs.
     if erased (contents s) (unat off) (length bs) then the (io_write io) s off bs else Some (- 1, s))\<rparr>"

lemma guarded_sizes [simp]:
  "storage_size (guarded contents io) = storage_size io" "slot_size (guarded contents io) = slot_size io"
  "io_read (guarded contents io) = io_read io" "io_erase (guarded contents io) = io_erase io"
  "slot_offset (guarded contents io) slot = slot_offset io slot" "io_fits (guarded contents io) ctx = io_fits io ctx"
  by (simp_all add: guarded_def slot_offset_def io_fits_def)

lemma guarded_write [simp]:
  "io_write (guarded contents io) = Some (\<lambda>s off bs.
     if erased (contents s) (unat off) (length bs) then the (io_write io) s off bs else Some (- 1, s))"
  by (simp add: guarded_def)

lemma guarded_media [simp]:
  "erased_medium (guarded contents io) = erased_medium io"
  "header_medium cfg ctx (guarded contents io) = header_medium cfg ctx io"
  "record_medium cfg ctx (guarded contents io) = record_medium cfg ctx io"
  "save_ready cfg ctx (guarded contents io) slot c = save_ready cfg ctx io slot c"
  by (simp_all add: fun_eq_iff erased_medium_def header_medium_def record_medium_def save_ready_def)

lemma guarded_parses [simp]:
  "slot_header ctx (guarded contents io) = slot_header ctx io"
  "slot_record cfg ctx (guarded contents io) = slot_record cfg ctx io"
  "load_order ctx (guarded contents io) = load_order ctx io"
  "stored_config cfg ctx (guarded contents io) = stored_config cfg ctx io"
  "newest_reads cfg ctx (guarded contents io) = newest_reads cfg ctx io"
proof -
  show header: "slot_header ctx (guarded contents io) = slot_header ctx io"
    by (intro ext) (simp only: slot_header_def header_check_def guarded_sizes)
  show rec: "slot_record cfg ctx (guarded contents io) = slot_record cfg ctx io"
    by (intro ext) (simp add: slot_record_def header)
  show order: "load_order ctx (guarded contents io) = load_order ctx io"
    by (intro ext) (simp add: load_order_def header)
  show "stored_config cfg ctx (guarded contents io) = stored_config cfg ctx io"
    "newest_reads cfg ctx (guarded contents io) = newest_reads cfg ctx io"
    by (simp_all add: fun_eq_iff stored_config_def newest_reads_def rec order)
qed

lemma guarded_limits [simp]:
  "save_accepts cfg ctx (guarded contents io) = save_accepts cfg ctx io"
  "format_fits ctx (guarded contents io) = format_fits ctx io"
  "record_fits cfg ctx (guarded contents io) = record_fits cfg ctx io"
  by (simp_all add: save_accepts_def format_fits_def record_fits_def)

text \<open>The reads of the library do not see the guard.\<close>

lemma guarded_reads [simp]:
  "mconf_io_read_exact (guarded contents io) = mconf_io_read_exact io"
  "mconf_probe_slot_header ctx (guarded contents io) = mconf_probe_slot_header ctx io"
proof -
  show read: "mconf_io_read_exact (guarded contents io) = mconf_io_read_exact io"
    by (intro ext) (simp add: mconf_io_read_exact_def)
  show "mconf_probe_slot_header ctx (guarded contents io) = mconf_probe_slot_header ctx io"
    by (intro ext) (simp only: mconf_probe_slot_header_def guarded_sizes read)
qed

lemma guarded_load_loop [simp]:
  "load_slot_loop cfg ctx (guarded contents io) i n = load_slot_loop cfg ctx io i n"
proof (induction n arbitrary: i)
  case (Suc n)
  show ?case by (intro ext) (simp only: load_slot_loop.simps guarded_reads Suc)
qed (intro ext, simp)

lemma guarded_load_slot [simp]:
  "mconf_load_slot_into_buffer cfg ctx (guarded contents io) = mconf_load_slot_into_buffer cfg ctx io"
  "save_front cfg ctx (guarded contents io) = save_front cfg ctx io"
proof -
  show "mconf_load_slot_into_buffer cfg ctx (guarded contents io) = mconf_load_slot_into_buffer cfg ctx io"
    by (intro ext) (simp only: mconf_load_slot_into_buffer_def guarded_sizes guarded_reads guarded_load_loop)
  show "save_front cfg ctx (guarded contents io) = save_front cfg ctx io"
    by (intro ext) (simp only: save_front_def guarded_sizes guarded_reads)
qed

lemma guarded_load_first: "load_first_of cfg (guarded contents io) slots ctx s = load_first_of cfg io slots ctx s"
proof (induction slots arbitrary: ctx s)
  case (Cons slot slots)
  show ?case by (simp only: load_first_of.simps guarded_load_slot Cons)
qed simp

lemma guarded_load:
  "mconf_load cfg p (Some (guarded contents io)) s = mconf_load cfg p (Some io) s"
  "load_result cfg ctx (guarded contents io) c = load_result cfg ctx io c"
proof -
  show "mconf_load cfg p (Some (guarded contents io)) s = mconf_load cfg p (Some io) s"
    by (simp only: mconf_load_def option.case guarded_sizes guarded_reads guarded_load_first)
  show "load_result cfg ctx (guarded contents io) c = load_result cfg ctx io c"
    by (simp only: load_result_def guarded_parses)
qed

lemma guarded_write_exact:
  "erased (contents s) (unat off) (length bs) \<Longrightarrow> io_write io \<noteq> None \<Longrightarrow>
     mconf_io_write_exact (guarded contents io) s off bs = mconf_io_write_exact io s off bs"
  "\<not> erased (contents s) (unat off) (length bs) \<Longrightarrow>
     mconf_io_write_exact (guarded contents io) s off bs = Some (MCONF_ERR_IO, s)"
  by (auto simp: mconf_io_write_exact_def)

section \<open>The writer as a sequence of writes\<close>

fun write_pieces :: "'s mconf_io \<Rightarrow> size_t \<Rightarrow> byte list list \<Rightarrow> 's \<Rightarrow> (mconf_err \<times> 's) option" where
  "write_pieces io off [] s = Some (MCONF_OK, s)"
| "write_pieces io off (bs # ws) s =
     do { (err, s) \<leftarrow> mconf_io_write_exact io s off bs;
          if err \<noteq> MCONF_OK then Some (err, s) else write_pieces io (off + of_nat (length bs)) ws s }"

lemma write_pieces_append:
  "write_pieces io off (us @ ws) s =
     do { (err, s) \<leftarrow> write_pieces io off us s;
          if err \<noteq> MCONF_OK then Some (err, s) else write_pieces io (off + of_nat (length (concat us))) ws s }"
proof (induction us arbitrary: off s)
  case (Cons bs us)
  have off: "off + of_nat (length (concat (bs # us))) = off + of_nat (length bs) + of_nat (length (concat us))"
    by (simp add: add.assoc)
  show ?case
    unfolding off by (cases "mconf_io_write_exact io s off bs") (auto simp: Cons)
qed simp

text \<open>One and two writes before the rest of a loop.\<close>

lemma write_pieces_single: "write_pieces io off [bs] s = mconf_io_write_exact io s off bs"
  by (cases "mconf_io_write_exact io s off bs") auto

lemma write_pieces_then:
  "do { (err, s) \<leftarrow> write_pieces io off [bs] s; if err \<noteq> MCONF_OK then Some (err, s) else k s } =
     do { (err, s) \<leftarrow> mconf_io_write_exact io s off bs; if err \<noteq> MCONF_OK then Some (err, s) else k s }"
  "do { (err, s) \<leftarrow> write_pieces io off [bs, bs'] s; if err \<noteq> MCONF_OK then Some (err, s) else k s } =
     do { (err, s) \<leftarrow> mconf_io_write_exact io s off bs;
          if err \<noteq> MCONF_OK then Some (err, s)
          else
            do { (err, s) \<leftarrow> mconf_io_write_exact io s (off + of_nat (length bs)) bs';
                 if err \<noteq> MCONF_OK then Some (err, s) else k s } }"
  unfolding write_pieces_single write_pieces.simps(2) [of io off bs "[bs']"]
  by (rule refl) (cases "mconf_io_write_exact io s off bs"; auto)

lemma serialize_step_pieces:
  assumes ok: "ctx_ok cfg ctx" and valid: "data_valid cfg (ctx_entries ctx) (ctx_bytes ctx)"
    and i: "i < length (ctx_entries ctx)" and st: "storable cfg (ctx_entries ctx ! i)" and enc: "length encoded = 4"
  shows "\<exists>encoded' ws. length encoded' = 4 \<and>
    concat ws = entry_payload cfg (ctx_entries ctx ! i) (field_get (ctx_entries ctx) (ctx_bytes ctx) i) \<and>
    (\<forall>(io :: 's mconf_io) s. serialize_loop cfg ctx io (ctx_bytes ctx) i (Suc n) off encoded s =
       do { (err, s) \<leftarrow> write_pieces io off ws s;
            if err \<noteq> MCONF_OK then Some (err, s)
            else serialize_loop cfg ctx io (ctx_bytes ctx) (Suc i) n (off + of_nat (length (concat ws))) encoded' s })"
proof -
  let ?e = "ctx_entries ctx ! i" and ?d = "ctx_bytes ctx"
  let ?bs = "chunk ?d (unat (offset ?e)) (unat (entry_size ?e))"
  note f = ctx_field_facts [OF ok valid i, unfolded field_get_def]
  note loop = entry_at_eq [OF ok i] mconf_field_ptr_def Let_def
  consider (str) "entry_type ?e = MCONF_TYPE_STRING" | (blob) "entry_type ?e = MCONF_TYPE_BLOB"
    | (scal) "scalar_ok cfg (entry_type ?e)" using st by (auto simp: storable_def)
  then show ?thesis
  proof cases
    case blob
    have off: "off + of_nat (length (concat [?bs])) = off + entry_size ?e" using f(3) by simp
    have rd: "mem_read ?d (unat (offset ?e)) (unat (entry_size ?e)) = Some ?bs" using f(4) by (simp add: mem_simps)
    have p: "concat [?bs] = entry_payload cfg ?e (field_get (ctx_entries ctx) ?d i)"
      using blob by (simp add: entry_payload_def field_get_def)
    show ?thesis
      by (rule exI [of _ encoded], rule exI [of _ "[?bs]"], intro conjI allI, rule enc, rule p,
          simp only: write_pieces_then off, simp add: loop blob rd)
  next
    case scal
    define p where "p = scalar_encoding cfg (entry_type ?e) ?bs"
    from scal have sz: "entry_size ?e = mconf_expected_type_size (entry_type ?e)"
      and ty: "entry_type ?e \<noteq> MCONF_TYPE_STRING" "entry_type ?e \<noteq> MCONF_TYPE_BLOB"
      using f(1) by (auto simp: entry_ok_def scalar_ok_def scalar_type_cases)
    have len: "length p = unat (entry_size ?e)" "length p \<le> 4"
      using ty f(3) sz scalar_size_le_4 [of "entry_type ?e"] by (auto simp: p_def)
    have run: "mconf_encode_field_bytes cfg ?e ?d (unat (offset ?e)) encoded 0 =
        Some (MCONF_OK, patch encoded 0 p, of_nat (length p))"
      using encode_scalar [OF scal sz f(4) enc] ty len by (simp add: p_def)
    have enc4: "unat (of_nat (length p) :: size_t) = length p" "length (patch encoded 0 p) = 4"
      "mem_read (patch encoded 0 p) 0 (length p) = Some p"
      using len enc by (simp_all add: mem_simps chunk_patch_eq)
    have p: "concat [p] = entry_payload cfg ?e (field_get (ctx_entries ctx) ?d i)" "length (concat [p]) = length p"
      using ty by (simp_all add: entry_payload_def field_get_def p_def)
    show ?thesis
      by (rule exI [of _ "patch encoded 0 p"], rule exI [of _ "[p]"], intro conjI allI, rule enc4(2), rule p,
          simp only: write_pieces_then p(2), simp add: loop ty run enc4)
  next
    case str
    define l where "l = c_strlen ?bs"
    let ?le = "mconf_write_u16_le (of_nat l)" and ?tk = "chunk ?d (unat (offset ?e)) l"
    have l: "l < unat (entry_size ?e)"
      using f(2,3) str c_strlen_less_iff [of ?bs] by (simp add: value_ok_def l_def)
    then have ul: "unat (of_nat l :: size_t) = l"
      using size_t_bound [of "entry_size ?e"] by (intro unat_of_nat_size) simp
    have p: "?le @ ?tk = entry_payload cfg ?e (field_get (ctx_entries ctx) ?d i)" and len: "length ?tk = l"
      using l f(4) by (auto simp: field_get_def entry_payload_def str l_def take_chunk)
    have val: "mconf_validate_string_bytes ?d (unat (offset ?e)) (entry_size ?e) (Some 0) =
        Some (MCONF_OK, Some (of_nat l))"
      using f(1,2,4) str by (simp add: mem_simps value_ok_def entry_ok_def l_def)
    have rd: "mem_read ?d (unat (offset ?e)) l = Some ?tk" using l f(4) by (simp add: mem_simps)
    have two: "off + of_nat (length ?le) = off + 2" by simp
    show ?thesis
    proof (cases "l = 0")
      case True
      have p': "concat [?le] = entry_payload cfg ?e (field_get (ctx_entries ctx) ?d i)" "length (concat [?le]) = length ?le"
        using p len True by simp_all
      show ?thesis
        by (rule exI [of _ encoded], rule exI [of _ "[?le]"], intro conjI allI, rule enc, rule p',
            simp only: write_pieces_then p'(2) two, simp add: loop str val True cong: if_cong)
    next
      case False
      then have nz: "(of_nat l :: size_t) \<noteq> 0" using ul by (metis unat_0)
      have l2: "length (concat [?le, ?tk]) = 2 + l" using len by simp
      have p': "concat [?le, ?tk] = entry_payload cfg ?e (field_get (ctx_entries ctx) ?d i)"
        "off + of_nat (length (concat [?le, ?tk])) = off + 2 + of_nat l"
        using p by simp (simp only: l2, simp add: add.assoc)
      show ?thesis
        by (rule exI [of _ encoded], rule exI [of _ "[?le, ?tk]"], intro conjI allI, rule enc, rule p',
            simp only: write_pieces_then p'(2) two, simp add: loop str val nz ul rd length_bytes_of_nat cong: if_cong)
    qed
  qed
qed

lemma serialize_loop_pieces:
  assumes ok: "ctx_ok cfg ctx" and valid: "data_valid cfg (ctx_entries ctx) (ctx_bytes ctx)"
    and "i + n = length (ctx_entries ctx)"
    and st: "\<forall>k < length (ctx_entries ctx). storable cfg (ctx_entries ctx ! k)" and "length encoded = 4"
  shows "\<exists>ws. concat ws = payload_from cfg (ctx_entries ctx) (ctx_bytes ctx) i \<and>
    (\<forall>(io :: 's mconf_io) s. serialize_loop cfg ctx io (ctx_bytes ctx) i n off encoded s = write_pieces io off ws s)"
  using assms(3,5)
proof (induction n arbitrary: i off encoded)
  case 0
  then show ?case by (intro exI [of _ "[]"]) (simp add: payload_from_def)
next
  case (Suc n)
  let ?es = "ctx_entries ctx" and ?d = "ctx_bytes ctx"
  have i: "i < length ?es" using Suc.prems(1) by simp
  from serialize_step_pieces [OF ok valid i _ Suc.prems(2), of n off] st i obtain encoded' us where
    us: "length encoded' = 4" "concat us = entry_payload cfg (?es ! i) (field_get ?es ?d i)"
    and step: "\<And>(io :: 's mconf_io) s. serialize_loop cfg ctx io ?d i (Suc n) off encoded s =
       do { (err, s) \<leftarrow> write_pieces io off us s;
            if err \<noteq> MCONF_OK then Some (err, s)
            else serialize_loop cfg ctx io ?d (Suc i) n (off + of_nat (length (concat us))) encoded' s }"
    by blast
  from Suc.IH [of "Suc i" encoded' "off + of_nat (length (concat us))"] Suc.prems us(1) obtain ws where
    ws: "concat ws = payload_from cfg ?es ?d (Suc i)"
    "\<And>(io :: 's mconf_io) s. serialize_loop cfg ctx io ?d (Suc i) n (off + of_nat (length (concat us))) encoded' s =
       write_pieces io (off + of_nat (length (concat us))) ws s" by auto
  have "concat (us @ ws) = payload_from cfg ?es ?d i"
    using us(2) ws(1) payload_from_Cons [OF i, of cfg ?d] by simp
  moreover have "serialize_loop cfg ctx io ?d i (Suc n) off encoded s = write_pieces io off (us @ ws) s"
    for io :: "'s mconf_io" and s
    by (simp only: step ws(2) write_pieces_append)
  ultimately show ?case by blast
qed

lemma serialize_payload_pieces:
  assumes ok: "ctx_ok cfg ctx" and sv: "saveable cfg ctx"
  shows "\<exists>ws. concat ws = ctx_payload cfg ctx \<and>
    (\<forall>(io :: 's mconf_io) s. mconf_serialize_payload_to_storage cfg ctx io base s = write_pieces io base ws s)"
proof -
  obtain sch where sch: "ctx_schema ctx = Some sch" using ok by (elim ctx_okE) auto
  from serialize_loop_pieces [OF ok, of 0 "unat (entry_count sch)" "replicate 4 0" base] sv
    ctx_length_entries [OF ok sch]
  show ?thesis
    by (simp add: mconf_serialize_payload_to_storage_def sch ctx_data_bytes [OF ok] saveable_def payload_def)
qed

section \<open>The contract\<close>

text \<open>
  A write to erased bytes that reports success has stored them. Any other write may leave anything in
  its range.
\<close>

locale erase_first_backend =
  fixes io :: "'s mconf_io"
    and contents :: "'s \<Rightarrow> byte list"
    and inv :: "'s \<Rightarrow> bool"
  assumes has_callbacks: "io_read io \<noteq> None" "io_write io \<noteq> None" "io_erase io \<noteq> None"
    and storage_length: "inv s \<Longrightarrow> length (contents s) = unat (storage_size io)"
    and read_law: "inv s \<Longrightarrow> unat off + length buf < 2 ^ 64 \<Longrightarrow>
      \<exists>rc buf' s'. the (io_read io) s off buf = Some (rc, buf', s') \<and> length buf' = length buf \<and>
        inv s' \<and> contents s' = contents s \<and>
        (rc = 0 \<longrightarrow> unat off + length buf \<le> length (contents s) \<and>
          buf' = chunk (contents s) (unat off) (length buf))"
    and write_law: "inv s \<Longrightarrow> unat off + length bs < 2 ^ 64 \<Longrightarrow>
      \<exists>rc s'. the (io_write io) s off bs = Some (rc, s') \<and> inv s' \<and>
        same_outside (contents s) (contents s') (unat off) (length bs) \<and>
        (rc = 0 \<longrightarrow> unat off + length bs \<le> length (contents s) \<and>
          (erased (contents s) (unat off) (length bs) \<longrightarrow> contents s' = patch (contents s) (unat off) bs))"
    and erase_law: "inv s \<Longrightarrow> unat off + unat n < 2 ^ 64 \<Longrightarrow>
      \<exists>rc s'. the (io_erase io) s off n = Some (rc, s') \<and> inv s' \<and>
        same_outside (contents s) (contents s') (unat off) (unat n) \<and>
        (rc = 0 \<longrightarrow> unat off + unat n \<le> length (contents s) \<and>
          contents s' = patch (contents s) (unat off) (replicate (unat n) 0xFF))"

sublocale erase_first_backend \<subseteq> guarded: storage_backend "guarded contents io" contents inv
proof (unfold_locales, goal_cases)
  case (6 s off bs)
  show ?case
  proof (cases "erased (contents s) (unat off) (length bs)")
    case True
    with write_law [OF 6] show ?thesis by auto
  qed (simp add: 6)
qed (use has_callbacks storage_length read_law erase_law in simp_all)

text \<open>A write to erased bytes that fails.\<close>

definition blank_write_fault :: "'s mconf_io \<Rightarrow> ('s \<Rightarrow> byte list) \<Rightarrow> ('s \<Rightarrow> bool) \<Rightarrow> bool" where
  "blank_write_fault io contents ok \<longleftrightarrow>
     (\<exists>s off bs rc s'. ok s \<and> erased (contents s) (unat off) (length bs) \<and>
        the (io_write io) s off bs = Some (rc, s') \<and> rc \<noteq> 0)"

lemma erased_part:
  assumes "erased c off n" and "k + n' \<le> n"
  shows "erased c (off + k) n'"
  using assms by (auto simp: erased_def add.assoc)

lemma erased_after:
  assumes "erased c off (length bs + n)"
  shows "erased (patch c off bs) (off + length bs) n"
  using assms by (auto simp: erased_def nth_patch add.assoc)

context erase_first_backend
begin

lemma blank_write:
  assumes "inv s" and "erased (contents s) (unat off) (length bs)"
  obtains (ok) s' where "mconf_io_write_exact io s off bs = Some (MCONF_OK, s')" "inv s'"
    "contents s' = patch (contents s) (unat off) bs"
  | (fault) s' where "mconf_io_write_exact io s off bs = Some (MCONF_ERR_IO, s')" "inv s'"
    "same_outside (contents s) (contents s') (unat off) (length bs)" "blank_write_fault io contents inv"
proof -
  obtain wr where wr: "io_write io = Some wr" using has_callbacks(2) by blast
  have "unat off + length bs < 2 ^ 64"
    using assms(2) storage_length [OF assms(1)] size_t_bound [of "storage_size io"] by (simp add: erased_def)
  from write_law [OF assms(1) this] obtain rc s' where r: "wr s off bs = Some (rc, s')" "inv s'"
    "same_outside (contents s) (contents s') (unat off) (length bs)"
    "rc = 0 \<longrightarrow> contents s' = patch (contents s) (unat off) bs"
    using assms(2) by (auto simp: wr)
  show thesis
  proof (cases "rc = 0")
    case True
    with r show thesis by (intro ok [of s']) (auto simp: mconf_io_write_exact_def wr)
  next
    case False
    then have "blank_write_fault io contents inv"
      unfolding blank_write_fault_def using assms r(1) wr by (metis option.sel)
    with False r show thesis by (intro fault [of s']) (auto simp: mconf_io_write_exact_def wr)
  qed
qed

text \<open>On an erased range the guard lets every piece of the payload pass.\<close>

lemma write_pieces_guarded:
  assumes "inv s" and "erased (contents s) (unat off) (length (concat ws))"
  shows "write_pieces (guarded contents io) off ws s = write_pieces io off ws s \<and>
    (\<forall>err s'. write_pieces io off ws s = Some (err, s') \<longrightarrow> err \<noteq> MCONF_OK \<longrightarrow> blank_write_fault io contents inv)"
  using assms
proof (induction ws arbitrary: off s)
  case (Cons bs ws)
  have er: "erased (contents s) (unat off) (length bs)"
    using erased_part [OF Cons.prems(2), of 0 "length bs"] by simp
  note same = guarded_write_exact(1) [of contents, OF er has_callbacks(2)]
  from Cons.prems(1) er show ?case
  proof (rule blank_write)
    fix s1
    assume s1: "mconf_io_write_exact io s off bs = Some (MCONF_OK, s1)" "inv s1"
      "contents s1 = patch (contents s) (unat off) bs"
    have "unat off + length bs < 2 ^ 64"
      using er storage_length [OF Cons.prems(1)] size_t_bound [of "storage_size io"] by (simp add: erased_def)
    then have off: "unat (off + of_nat (length bs)) = unat off + length bs"
      by (simp add: unat_add_no_wrap unat_of_nat_size)
    have "erased (contents s1) (unat (off + of_nat (length bs))) (length (concat ws))"
      unfolding off s1(3) using Cons.prems(2) by (intro erased_after) simp
    from Cons.IH [OF s1(2) this] show ?thesis by (simp add: same s1(1))
  qed (simp add: same)
qed simp

text \<open>The commit, or any other write: it returns.\<close>

lemma write_returns:
  assumes "inv s" and "unat off + length bs < 2 ^ 64"
  obtains err s' where "mconf_io_write_exact io s off bs = Some (err, s')" "inv s'"
    "same_outside (contents s) (contents s') (unat off) (length bs)"
    "err = MCONF_OK \<or> err = MCONF_ERR_IO \<and> (\<exists>rc. the (io_write io) s off bs = Some (rc, s') \<and> rc \<noteq> 0)"
proof -
  obtain wr where wr: "io_write io = Some wr" using has_callbacks(2) by blast
  from write_law [OF assms] obtain rc s' where "wr s off bs = Some (rc, s')" "inv s'"
    "same_outside (contents s) (contents s') (unat off) (length bs)" by (auto simp: wr)
  then show thesis
    by (intro that [of "if rc \<noteq> 0 then MCONF_ERR_IO else MCONF_OK" s']) (auto simp: mconf_io_write_exact_def wr)
qed

lemma blank_fault_guarded: "blank_write_fault io contents inv \<Longrightarrow> write_fault (guarded contents io) contents inv"
  unfolding blank_write_fault_def write_fault_def by (force simp: erased_def)

text \<open>The payload of a save goes to erased bytes, so up to the commit the guard is not noticed.\<close>

lemma save_verified_guarded:
  assumes ok: "ctx_ok cfg ctx" and sv: "saveable cfg ctx" and s: "inv s"
    and er: "erased (contents s) (unat (slot * slot_size io + MCONF_STORAGE_HEADER_SIZE)) (length (ctx_payload cfg ctx))"
  shows "save_verified cfg ctx (guarded contents io) slot header s = save_verified cfg ctx io slot header s"
    and "mconf_serialize_payload_to_storage cfg ctx (guarded contents io)
        (slot * slot_size io + MCONF_STORAGE_HEADER_SIZE) s = Some (err, s') \<Longrightarrow> err \<noteq> MCONF_OK \<Longrightarrow>
      blank_write_fault io contents inv"
proof -
  let ?off = "slot * slot_size io + MCONF_STORAGE_HEADER_SIZE"
  obtain ws where ws: "concat ws = ctx_payload cfg ctx"
    "\<And>(io :: 's mconf_io) s. mconf_serialize_payload_to_storage cfg ctx io ?off s = write_pieces io ?off ws s"
    using serialize_payload_pieces [OF ok sv, of ?off] by blast
  note run = write_pieces_guarded [OF s er [folded ws(1)]]
  then have same: "mconf_serialize_payload_to_storage cfg ctx (guarded contents io) ?off s =
      mconf_serialize_payload_to_storage cfg ctx io ?off s"
    by (simp add: ws(2))
  show "save_verified cfg ctx (guarded contents io) slot header s = save_verified cfg ctx io slot header s"
    by (simp only: save_verified_def guarded_sizes guarded_reads guarded_load_slot same)
  show "blank_write_fault io contents inv"
    if "mconf_serialize_payload_to_storage cfg ctx (guarded contents io) ?off s = Some (err, s')" "err \<noteq> MCONF_OK"
    using run that by (auto simp: ws(2))
qed

text \<open>
  The writes of a save: it stops before the commit, where the guarded backend would have stopped, or it
  comes to the commit, which is the only write over bytes that are not erased.
\<close>

lemma erase_first_stages:
  assumes ok: "ctx_ok cfg ctx" and sv: "saveable cfg ctx" and ready: "save_ready cfg ctx io slot (contents s)"
    and s: "inv s" and h: "header = take 32 (record_bytes cfg ctx g MCONF_STORAGE_STATE_UNCOMMITTED)"
  obtains (stopped) err d s' where
      "save_record cfg ctx io slot header s = Some (err, Some (ctx\<lparr>ctx_data := Some d\<rparr>), s')"
      "err \<noteq> MCONF_OK" "inv s'" "save_stage cfg ctx (guarded contents io) contents inv slot g (contents s) err d s'"
      "erase_fault io contents inv \<or> blank_write_fault io contents inv \<or> read_fault io contents inv \<or>
       slot_record cfg ctx io (record_medium cfg ctx io slot g MCONF_STORAGE_STATE_UNCOMMITTED (contents s))
         slot False = None"
  | (commit) d info s3 err s' where
      "save_record cfg ctx io slot header s = Some (err, Some (ctx\<lparr>ctx_data := Some d\<rparr>), s')"
      "slot_record cfg ctx io (record_medium cfg ctx io slot g MCONF_STORAGE_STATE_UNCOMMITTED (contents s))
         slot False = Some (info, d)"
      "inv s3" "contents s3 = record_medium cfg ctx io slot g MCONF_STORAGE_STATE_UNCOMMITTED (contents s)"
      "mconf_io_write_exact io s3 (slot * slot_size io + MCONF_STORAGE_STATE_OFFSET)
         [MCONF_STORAGE_STATE_COMMITTED] = Some (err, s')"
proof -
  let ?G = "guarded contents io" and ?c = "contents s" and ?p = "ctx_payload cfg ctx"
  have ready': "save_ready cfg ctx ?G slot ?c" using ready by simp
  have fits: "io_fits io ctx" "slot \<in> {0, 1}" using ready by (auto simp: save_ready_def)
  note f = save_ready_facts [OF ready] and off = slot_arith(1,2) [OF fits] and l = length_media [OF ready]
  note own = ctx_set_own_data [OF ok]
  have faults: "erase_fault ?G contents inv = erase_fault io contents inv"
    "read_fault ?G contents inv = read_fault io contents inv" by (simp_all add: erase_fault_def read_fault_def)
  from s ready' show thesis
  proof (rule guarded.erase_slot)
    fix rc s'
    assume "the (io_erase ?G) s (slot * slot_size ?G) (slot_size ?G) = Some (rc, s')" "rc \<noteq> 0"
      "inv s'" "same_outside ?c (contents s') (slot_offset ?G slot) (unat (slot_size ?G))"
      "erase_fault ?G contents inv"
    then show thesis
      using s has_callbacks(3) save_stage.erase_failed [of ?G s slot rc s' inv contents ?c cfg ctx g]
      by (intro stopped [of MCONF_ERR_IO "ctx_bytes ctx" s']) (auto simp: save_record_def own faults)
  next
    fix s1
    assume e: "the (io_erase ?G) s (slot * slot_size ?G) (slot_size ?G) = Some (0, s1)" "inv s1"
      "contents s1 = erased_medium ?G slot ?c"
    have blank: "erased (contents s1) (unat (slot * slot_size io)) (unat (slot_size io))"
      using e(3) nth_media(1) [OF ready] f(1) l(1) off(1) by (simp add: erased_def)
    have hlen: "length header = 32" using f(2) by (simp add: h)
    have er: "erased (contents s1) (unat (slot * slot_size io)) (length header)"
      using erased_part [OF blank, of 0 32] f(3) by (simp add: hlen)
    note same = guarded_write_exact(1) [of contents, OF er has_callbacks(2)]
    from e(2) er show thesis
    proof (rule blank_write)
      fix s'
      assume "mconf_io_write_exact io s1 (slot * slot_size io) header = Some (MCONF_ERR_IO, s')" "inv s'"
        "same_outside (contents s1) (contents s') (unat (slot * slot_size io)) (length header)"
        "blank_write_fault io contents inv"
      then show thesis
        using e has_callbacks(3) off(1) hlen same blank_fault_guarded
          save_stage.header_failed [of ?G s1 slot cfg ctx g s' inv contents ?c]
        by (intro stopped [of MCONF_ERR_IO "ctx_bytes ctx" s']) (auto simp: save_record_def own h [symmetric])
    next
      fix s2
      assume w: "mconf_io_write_exact io s1 (slot * slot_size io) header = Some (MCONF_OK, s2)" "inv s2"
        "contents s2 = patch (contents s1) (unat (slot * slot_size io)) header"
      then have c2: "contents s2 = header_medium cfg ctx ?G slot g ?c"
        using e(3) off(1) by (simp add: header_medium_def h)
      have off32: "unat (slot * slot_size io + MCONF_STORAGE_HEADER_SIZE) = unat (slot * slot_size io) + length header"
        using unat_slot_plus [OF fits, of 32] f(3) off(1) hlen by simp
      have "erased (contents s2) (unat (slot * slot_size io) + length header) (length ?p)"
        unfolding w(3) using erased_part [OF blank, of 0 "length header + length ?p"] f(3) hlen
        by (intro erased_after) simp
      from save_verified_guarded [OF ok sv w(2) this [folded off32]]
      have sg: "save_verified cfg ctx ?G slot header s2 = save_verified cfg ctx io slot header s2"
        and sf: "\<And>err s'. mconf_serialize_payload_to_storage cfg ctx ?G (slot * slot_size io + MCONF_STORAGE_HEADER_SIZE) s2 =
          Some (err, s') \<Longrightarrow> err \<noteq> MCONF_OK \<Longrightarrow> blank_write_fault io contents inv" by auto
      have run: "save_record cfg ctx io slot header s = save_payload_and_commit cfg ctx io slot header s2"
        using e w has_callbacks(3) by (auto simp: save_record_def)
      from ok sv ready' w(2) c2 h show thesis
      proof (rule guarded.save_verified_stages)
        fix err d s'
        assume v: "save_verified cfg ctx ?G slot header s2 = Some (err, d, s')" "err \<noteq> MCONF_OK" "inv s'"
          "same_outside (header_medium cfg ctx ?G slot g ?c) (contents s') (slot_offset ?G slot + 32) (length ?p)"
          and why: "write_fault ?G contents inv \<and>
             mconf_serialize_payload_to_storage cfg ctx ?G (slot * slot_size ?G + MCONF_STORAGE_HEADER_SIZE) s2 = Some (err, s') \<or>
           read_fault ?G contents inv \<or>
           slot_record cfg ctx ?G (record_medium cfg ctx ?G slot g MCONF_STORAGE_STATE_UNCOMMITTED ?c) slot False = None"
          and d: "d = ctx_bytes ctx \<or> read_fault ?G contents inv \<or>
           slot_record cfg ctx ?G (record_medium cfg ctx ?G slot g MCONF_STORAGE_STATE_UNCOMMITTED ?c) slot False = None"
        have "save_stage cfg ctx ?G contents inv slot g ?c err d s'"
          using why by (intro save_stage.payload_failed [OF v(2,4) _ d]) auto
        then show thesis
          using why v sf [of err s'] faults(2)
          by (intro stopped [of err d s']) (auto simp: run save_from_verified [OF ok] sg [symmetric])
      next
        fix d info s3
        assume v: "save_verified cfg ctx ?G slot header s2 = Some (MCONF_OK, d, s3)"
          "slot_record cfg ctx ?G (record_medium cfg ctx ?G slot g MCONF_STORAGE_STATE_UNCOMMITTED ?c)
             slot False = Some (info, d)"
          "inv s3" "contents s3 = record_medium cfg ctx ?G slot g MCONF_STORAGE_STATE_UNCOMMITTED ?c"
        have "unat (slot * slot_size io + MCONF_STORAGE_STATE_OFFSET) + length [MCONF_STORAGE_STATE_COMMITTED] < 2 ^ 64"
          using unat_slot_plus [OF fits, of 18] f(1,3) storage_length [OF s] size_t_bound [of "storage_size io"] by simp
        from v(3) this show thesis
          by (rule write_returns) (rule commit, use v in \<open>auto simp: run save_from_verified [OF ok] sg [symmetric]\<close>)
      qed
    qed
  qed
qed

end

section \<open>Atomic saves\<close>

text \<open>
  Reads succeed, and a write to erased bytes or an erase that fails, as when the supply ends, has
  completed a first part of its range. Nothing is assumed of a write to other bytes.
\<close>

locale torn_erase_first = erase_first_backend +
  assumes read_ok: "inv s \<Longrightarrow> unat off + length buf \<le> length (contents s) \<Longrightarrow>
      the (io_read io) s off buf = Some (rc, buf', s') \<Longrightarrow> rc = 0"
    and blank_write_torn: "inv s \<Longrightarrow> erased (contents s) (unat off) (length bs) \<Longrightarrow>
      the (io_write io) s off bs = Some (rc, s') \<Longrightarrow>
      \<exists>k \<le> length bs. contents s' = patch (contents s) (unat off) (take k bs)"
    and erase_torn: "inv s \<Longrightarrow> unat off + unat n < 2 ^ 64 \<Longrightarrow>
      the (io_erase io) s off n = Some (rc, s') \<Longrightarrow>
      \<exists>k \<le> unat n. contents s' = patch (contents s) (unat off) (replicate k 0xFF)"

sublocale torn_erase_first \<subseteq> guarded: torn_backend "guarded contents io" contents inv
proof (unfold_locales, goal_cases)
  case (2 s off bs rc s')
  then show ?case
    using blank_write_torn [of s off bs rc s'] by (auto split: if_splits intro: exI [of _ 0])
qed (use read_ok erase_torn in auto)

lemma record_medium_state:
  assumes "save_ready cfg ctx io slot c"
    and "same_outside (record_medium cfg ctx io slot g st c) c' (slot_offset io slot + 18) 1"
  shows "c' = record_medium cfg ctx io slot g (c' ! (slot_offset io slot + 18)) c"
proof -
  have room: "slot_offset io slot + 18 < length (record_medium cfg ctx io slot g st c)"
    using save_ready_facts(1,3) [OF assms(1)] length_media(3) [OF assms(1)] by simp
  have "c' = patch (record_medium cfg ctx io slot g st c) (slot_offset io slot + 18) [c' ! (slot_offset io slot + 18)]"
  proof (rule nth_equalityI)
    fix i assume "i < length c'"
    then show "c' ! i = patch (record_medium cfg ctx io slot g st c) (slot_offset io slot + 18)
        [c' ! (slot_offset io slot + 18)] ! i"
      using assms(2) room by (cases "i = slot_offset io slot + 18") (auto simp: same_outside_def nth_patch)
  qed (use assms(2) room in \<open>simp add: same_outside_def\<close>)
  then show ?thesis by (simp only: commit_completes_save [OF assms(1)])
qed

lemma record_medium_nth:
  assumes "save_ready cfg ctx io slot c"
  shows "record_medium cfg ctx io slot g st c ! (slot_offset io slot + 18) = st"
    and "slot_offset io slot + 18 < length (record_medium cfg ctx io slot g st c)"
    and "unat (slot * slot_size io + MCONF_STORAGE_STATE_OFFSET) = slot_offset io slot + 18"
proof -
  note f = save_ready_facts(1,3) [OF assms]
  have fits: "io_fits io ctx" "slot \<in> {0, 1}" using assms by (auto simp: save_ready_def)
  obtain sch where "ctx_schema ctx = Some sch" using assms by (auto simp: save_ready_def)
  from nth_media(3) [OF assms, of 18] nth_record_state [OF this] f
  show "record_medium cfg ctx io slot g st c ! (slot_offset io slot + 18) = st" by simp
  show "slot_offset io slot + 18 < length (record_medium cfg ctx io slot g st c)"
    using f length_media(3) [OF assms] by simp
  show "unat (slot * slot_size io + MCONF_STORAGE_STATE_OFFSET) = slot_offset io slot + 18"
    using unat_slot_plus [OF fits, of 18] f by simp
qed

text \<open>The guard refuses the commit.\<close>

lemma guarded_commit:
  assumes "save_ready cfg ctx io slot c" and "contents s = record_medium cfg ctx io slot g MCONF_STORAGE_STATE_UNCOMMITTED c"
  shows "mconf_io_write_exact (guarded contents io) s (slot * slot_size io + MCONF_STORAGE_STATE_OFFSET)
    [MCONF_STORAGE_STATE_COMMITTED] = Some (MCONF_ERR_IO, s)"
  by (rule guarded_write_exact(2))
     (use record_medium_nth(1,2) [OF assms(1), of g MCONF_STORAGE_STATE_UNCOMMITTED] record_medium_nth(3) [OF assms(1)]
       assms(2) in \<open>auto simp: erased_def\<close>)

context torn_erase_first
begin

lemma save_outcomes:
  assumes ok: "ctx_ok cfg ctx" and fits: "io_fits io ctx" and ff: "format_fits ctx io" and s: "inv s"
    and reads: "newest_reads cfg ctx io (contents s)"
  obtains (kept) err p' s' where "mconf_save cfg (Some ctx) (Some io) s = Some (err, p', s')" "err \<noteq> MCONF_OK"
      "inv s'" "newest_reads cfg ctx io (contents s')"
      "stored_config cfg ctx io (contents s') = stored_config cfg ctx io (contents s)"
      "\<not> save_accepts cfg ctx io \<or> erase_fault io contents inv \<or> blank_write_fault io contents inv"
  | (commit) s3 off err s' where
      "mconf_save cfg (Some ctx) (Some io) s = Some (err, Some (ctx\<lparr>ctx_data := Some (saved_image ctx)\<rparr>), s')"
      "inv s3" "unat off < length (contents s3)" "contents s3 ! unat off = MCONF_STORAGE_STATE_UNCOMMITTED"
      "mconf_io_write_exact io s3 off [MCONF_STORAGE_STATE_COMMITTED] = Some (err, s')" "inv s'"
      "newest_reads cfg ctx io (contents s')"
      "stored_config cfg ctx io (contents s') =
         (if contents s' ! unat off = MCONF_STORAGE_STATE_COMMITTED then Some (saved_image ctx)
          else stored_config cfg ctx io (contents s))"
proof -
  let ?G = "guarded contents io"
  have fits': "io_fits ?G ctx" using fits by simp
  note from_front = save_from_front [OF ok fits has_callbacks, of s]
  show thesis
  proof (rule guarded.save_front_cases [OF ok fits' s])
    fix err s'
    assume "save_front cfg ctx ?G s = Some (Inl (err, s'))" "err \<noteq> MCONF_OK" "inv s'" "contents s' = contents s"
      "\<not> save_accepts cfg ctx ?G"
    then show thesis using reads by (intro kept [of err "Some ctx" s']) (simp_all add: from_front)
  next
    fix slot g s1
    let ?h = "take 32 (record_bytes cfg ctx g MCONF_STORAGE_STATE_UNCOMMITTED)"
    assume acc: "save_accepts cfg ctx ?G" and s1: "inv s1" "contents s1 = contents s"
      and ready': "save_ready cfg ctx ?G slot (contents s)" and front: "save_front cfg ctx ?G s = Some (Inr (slot, ?h, s1))"
      and choice': "read_fault ?G contents inv \<or> (slot, g) =
        save_choice (slot_header ctx ?G (contents s) 0 True) (slot_header ctx ?G (contents s) 1 True)"
    have save: "mconf_save cfg (Some ctx) (Some io) s = save_record cfg ctx io slot ?h s1"
      using front by (simp add: from_front)
    have choice: "(slot, g) = save_choice (slot_header ctx io (contents s) 0 True) (slot_header ctx io (contents s) 1 True)"
      using choice' guarded.no_read_fault by simp
    have no_fault: "\<not> read_fault io contents inv" using guarded.no_read_fault by (simp add: read_fault_def)
    have ready: "save_ready cfg ctx io slot (contents s)" using ready' by simp
    have fits2: "io_fits io ctx" "slot \<in> {0, 1}" using ready by (auto simp: save_ready_def)
    have rf: "record_fits cfg ctx io" and sv: "saveable cfg ctx"
      using record_fits_accepts [of cfg ctx io] acc ff by (simp_all add: save_accepts_def)
    obtain sch where sch: "ctx_schema ctx = Some sch" using ok by (elim ctx_okE) auto
    note rec = guarded.record_medium_reads [OF ok sv _ ready', of MCONF_STORAGE_STATE_UNCOMMITTED False g, simplified, OF rf]
    note old = old_config_kept [OF sch fits storage_length [OF s] choice [symmetric] _ _ reads]
    from ok sv ready [folded s1(2)] s1(1) refl show thesis
    proof (rule erase_first_stages)
      fix err d s'
      assume st: "save_record cfg ctx io slot ?h s1 = Some (err, Some (ctx\<lparr>ctx_data := Some d\<rparr>), s')" "err \<noteq> MCONF_OK"
        "inv s'" "save_stage cfg ctx ?G contents inv slot g (contents s1) err d s'"
        and why: "erase_fault io contents inv \<or> blank_write_fault io contents inv \<or> read_fault io contents inv \<or>
          slot_record cfg ctx io (record_medium cfg ctx io slot g MCONF_STORAGE_STATE_UNCOMMITTED (contents s1))
            slot False = None"
      have same: "same_outside (contents s) (contents s') (slot_offset io slot) (unat (slot_size io))"
        using save_stage_frame [OF st(4)] ready' s1(2) by simp
      have "contents s' = contents s \<or> snd (slot_header ctx io (contents s') slot True) = None"
        using guarded.stage_visible [OF st(4)] ready' s1(2) st(2) guarded_commit [OF ready, of contents _ g]
          record_medium_nth(1) [OF ready, of g MCONF_STORAGE_STATE_UNCOMMITTED]
          record_medium_nth(1) [OF ready, of g MCONF_STORAGE_STATE_COMMITTED] by auto
      then have "stored_config cfg ctx io (contents s') = stored_config cfg ctx io (contents s) \<and>
          newest_reads cfg ctx io (contents s')"
        using old [OF same] reads by auto
      moreover have "erase_fault io contents inv \<or> blank_write_fault io contents inv"
        using why rec s1(2) no_fault by auto
      ultimately show thesis using st(1-3) save by (intro kept [of err _ s']) auto
    next
      fix d info s3 err s'
      assume c: "save_record cfg ctx io slot ?h s1 = Some (err, Some (ctx\<lparr>ctx_data := Some d\<rparr>), s')"
        "slot_record cfg ctx io (record_medium cfg ctx io slot g MCONF_STORAGE_STATE_UNCOMMITTED (contents s1))
           slot False = Some (info, d)"
        "inv s3" "contents s3 = record_medium cfg ctx io slot g MCONF_STORAGE_STATE_UNCOMMITTED (contents s1)"
        "mconf_io_write_exact io s3 (slot * slot_size io + MCONF_STORAGE_STATE_OFFSET)
           [MCONF_STORAGE_STATE_COMMITTED] = Some (err, s')"
      note c = c [unfolded s1(2)] and state = record_medium_nth [OF ready]
      let ?b = "contents s' ! (slot_offset io slot + 18)"
      have d: "d = saved_image ctx" using c(2) rec by auto
      have "unat (slot * slot_size io + MCONF_STORAGE_STATE_OFFSET) + length [MCONF_STORAGE_STATE_COMMITTED] < 2 ^ 64"
        using state(2,3) storage_length [OF s] length_media(3) [OF ready] size_t_bound [of "storage_size io"] by simp
      from c(3) this have s': "inv s'" "same_outside (contents s3) (contents s') (slot_offset io slot + 18) 1"
        by (rule write_returns, use c(5) state(3) in auto)+
      have medium: "contents s' = record_medium cfg ctx io slot g ?b (contents s)"
        by (rule record_medium_state [OF ready s'(2) [unfolded c(4)]])
      have same: "same_outside (contents s) (contents s') (slot_offset io slot) (unat (slot_size io))"
        by (subst medium) (rule media_same_outside(3) [OF ready])
      have "newest_reads cfg ctx io (contents s') \<and> stored_config cfg ctx io (contents s') =
          (if ?b = MCONF_STORAGE_STATE_COMMITTED then Some (saved_image ctx) else stored_config cfg ctx io (contents s))"
      proof (cases "?b = MCONF_STORAGE_STATE_COMMITTED")
        case True
        with medium guarded.stage_commit_stored [OF ok _ sv ready', of g "contents s'"] rf choice show ?thesis by simp
      next
        case False
        from uncommitted_invisible [OF sch fits2 storage_length [OF s'(1)] False] old [OF same] False
        show ?thesis by simp
      qed
      then show thesis
        using c(1,3,5) d s'(1) save state
        by (intro commit [of err s' s3 "slot * slot_size io + MCONF_STORAGE_STATE_OFFSET"])
           (simp_all add: c(4))
    qed
  qed
qed

text \<open>
  The stored configuration is the old one or the new one. It is the new one after success where the
  commit takes effect, and always the old one where a write can only clear bits.
\<close>

lemma save_old_or_new:
  assumes ok: "ctx_ok cfg ctx" and fits: "io_fits io ctx" and ff: "format_fits ctx io" and s: "inv s"
    and reads: "newest_reads cfg ctx io (contents s)"
  obtains err p' s' where "mconf_save cfg (Some ctx) (Some io) s = Some (err, p', s')" "inv s'"
    "newest_reads cfg ctx io (contents s')"
    "stored_config cfg ctx io (contents s') \<in> {stored_config cfg ctx io (contents s), Some (saved_image ctx)}"
    "err = MCONF_OK \<Longrightarrow> p' = Some (ctx\<lparr>ctx_data := Some (saved_image ctx)\<rparr>)"
    "\<lbrakk>err = MCONF_OK; \<And>s off b s'. inv s \<Longrightarrow> unat off < length (contents s) \<Longrightarrow>
        mconf_io_write_exact io s off [b] = Some (MCONF_OK, s') \<Longrightarrow> contents s' ! unat off = b\<rbrakk> \<Longrightarrow>
      stored_config cfg ctx io (contents s') = Some (saved_image ctx)"
proof (rule save_outcomes [OF ok fits ff s reads])
  fix s3 off err s'
  assume "mconf_save cfg (Some ctx) (Some io) s = Some (err, Some (ctx\<lparr>ctx_data := Some (saved_image ctx)\<rparr>), s')"
    "inv s3" "unat off < length (contents s3)"
    "mconf_io_write_exact io s3 off [MCONF_STORAGE_STATE_COMMITTED] = Some (err, s')" "inv s'"
    "newest_reads cfg ctx io (contents s')"
    "stored_config cfg ctx io (contents s') =
       (if contents s' ! unat off = MCONF_STORAGE_STATE_COMMITTED then Some (saved_image ctx)
        else stored_config cfg ctx io (contents s))"
  then show thesis by (intro that [of err _ s']) auto
next
  fix err p' s'
  assume "mconf_save cfg (Some ctx) (Some io) s = Some (err, p', s')" "err \<noteq> MCONF_OK" "inv s'"
    "newest_reads cfg ctx io (contents s')"
    "stored_config cfg ctx io (contents s') = stored_config cfg ctx io (contents s)"
  then show thesis by (intro that [of err p' s']) auto
qed

lemma save_lost:
  assumes ok: "ctx_ok cfg ctx" and fits: "io_fits io ctx" and ff: "format_fits ctx io" and s: "inv s"
    and reads: "newest_reads cfg ctx io (contents s)"
    and clears: "\<And>s off b err s'. inv s \<Longrightarrow> unat off < length (contents s) \<Longrightarrow>
      mconf_io_write_exact io s off [b] = Some (err, s') \<Longrightarrow>
      contents s' ! unat off AND contents s ! unat off = contents s' ! unat off"
  obtains err p' s' where "mconf_save cfg (Some ctx) (Some io) s = Some (err, p', s')" "inv s'"
    "newest_reads cfg ctx io (contents s')"
    "stored_config cfg ctx io (contents s') = stored_config cfg ctx io (contents s)"
    "err = MCONF_OK \<Longrightarrow> p' = Some (ctx\<lparr>ctx_data := Some (saved_image ctx)\<rparr>)"
    "\<lbrakk>save_accepts cfg ctx io; \<not> erase_fault io contents inv; \<not> write_fault io contents inv\<rbrakk> \<Longrightarrow> err = MCONF_OK"
proof (rule save_outcomes [OF ok fits ff s reads])
  fix err p' s'
  assume k: "mconf_save cfg (Some ctx) (Some io) s = Some (err, p', s')" "err \<noteq> MCONF_OK" "inv s'"
    "newest_reads cfg ctx io (contents s')"
    "stored_config cfg ctx io (contents s') = stored_config cfg ctx io (contents s)"
    "\<not> save_accepts cfg ctx io \<or> erase_fault io contents inv \<or> blank_write_fault io contents inv"
  have "write_fault io contents inv" if "blank_write_fault io contents inv"
    using that unfolding blank_write_fault_def write_fault_def erased_def by blast
  with k show thesis by (intro that [of err p' s']) auto
next
  fix s3 off err s'
  assume c: "mconf_save cfg (Some ctx) (Some io) s = Some (err, Some (ctx\<lparr>ctx_data := Some (saved_image ctx)\<rparr>), s')"
    "inv s3" "unat off < length (contents s3)" "contents s3 ! unat off = MCONF_STORAGE_STATE_UNCOMMITTED"
    "mconf_io_write_exact io s3 off [MCONF_STORAGE_STATE_COMMITTED] = Some (err, s')" "inv s'"
    "newest_reads cfg ctx io (contents s')"
    "stored_config cfg ctx io (contents s') =
       (if contents s' ! unat off = MCONF_STORAGE_STATE_COMMITTED then Some (saved_image ctx)
        else stored_config cfg ctx io (contents s))"
  have "contents s' ! unat off \<noteq> MCONF_STORAGE_STATE_COMMITTED"
    using clears [OF c(2,3,5)] c(4) by auto
  moreover have "err = MCONF_OK" if "\<not> write_fault io contents inv"
  proof -
    have room: "unat off + length [MCONF_STORAGE_STATE_COMMITTED] \<le> length (contents s3)" using c(3) by simp
    then have small: "unat off + length [MCONF_STORAGE_STATE_COMMITTED] < 2 ^ 64"
      using storage_length [OF c(2)] size_t_bound [of "storage_size io"] by simp
    have zero: "rc = 0" if "the (io_write io) s3 off [MCONF_STORAGE_STATE_COMMITTED] = Some (rc, s')" for rc s'
      using that \<open>\<not> write_fault io contents inv\<close> c(2) room unfolding write_fault_def by blast
    from c(2) small show ?thesis by (rule write_returns) (use c(5) zero in auto)
  qed
  ultimately show thesis using c by (intro that [of err _ s']) auto
qed

text \<open>A load does not write, so it is the load of the guarded backend.\<close>

lemma load_runs:
  assumes ok: "ctx_ok cfg ctx" and fits: "io_fits io ctx" and s: "inv s" and d: "length d = length (ctx_bytes ctx)"
  shows "\<exists>s'. mconf_load cfg (Some (ctx\<lparr>ctx_data := Some d\<rparr>)) (Some io) s =
    Some (fst (load_result cfg ctx io (contents s)),
          Some (ctx\<lparr>ctx_data := Some (snd (load_result cfg ctx io (contents s)))\<rparr>), s') \<and>
    inv s' \<and> contents s' = contents s"
  using guarded.load_runs [OF ok _ s d] fits by (simp add: guarded_load)

end

end
