(* ===== verification/Mconf_Flash.thy ===== *)
theory Mconf_Flash
  imports Mconf_Region Mconf_EraseFirst
begin

text \<open>
  The Zephyr flash backend (zephyr/src/mconf_zephyr_flash.c, zephyr/include/mconf_zephyr.h lines 72 to
  77). The flash map behind \<open>flash_area_open\<close> and its companions is the parameter \<open>flash_api\<close>, over a
  state \<open>'d\<close> of the hardware; the locale \<open>flash_driver\<close> says what its documentation promises. The log
  messages are left out.
\<close>

section \<open>The code\<close>

text \<open>
  \<open>flash_area_open\<close> gets the pointer that it is to fill in as it is and returns it as it leaves it.
\<close>

record ('f, 'd) flash_api =
  flash_area_open :: "byte \<Rightarrow> 'f option \<Rightarrow> 'd \<Rightarrow> int \<times> 'f option \<times> 'd"
  flash_area_close :: "'f \<Rightarrow> 'd \<Rightarrow> 'd"
  flash_area_get_size :: "'f \<Rightarrow> size_t"
  flash_area_read :: "'f \<Rightarrow> int \<Rightarrow> byte list \<Rightarrow> 'd \<Rightarrow> int \<times> byte list \<times> 'd"
  flash_area_write :: "'f \<Rightarrow> int \<Rightarrow> byte list \<Rightarrow> 'd \<Rightarrow> int \<times> 'd"
  flash_area_erase :: "'f \<Rightarrow> int \<Rightarrow> size_t \<Rightarrow> 'd \<Rightarrow> int \<times> 'd"

record 'f mconf_zephyr_flash_ctx =
  flash_fa :: "'f option"
  flash_area_id :: byte
  flash_base_offset :: size_t
  flash_total_size :: size_t

definition mconf_zephyr_flash_read ::
  "('f, 'd) flash_api \<Rightarrow> 'f mconf_zephyr_flash_ctx option \<Rightarrow> size_t \<Rightarrow> byte list option \<Rightarrow> size_t \<Rightarrow>
    'd \<Rightarrow> (int \<times> byte list option \<times> 'd) option" where
  "mconf_zephyr_flash_read drv callback_ctx off buffer n d =
     (case callback_ctx of
        None \<Rightarrow> Some (- 1, buffer, d)
      | Some ctx \<Rightarrow>
          (case (flash_fa ctx, buffer) of
             (Some fa, Some buf) \<Rightarrow>
               if off + n > flash_total_size ctx then Some (- 1, buffer, d)
               else
                 do { out \<leftarrow> mem_read buf 0 (unat n);
                      let (rc, out, d) = flash_area_read drv fa (off_t (flash_base_offset ctx + off)) out d;
                      buf \<leftarrow> mem_write buf 0 out;
                      Some (if rc \<noteq> 0 then - 1 else 0, Some buf, d) }
           | _ \<Rightarrow> Some (- 1, buffer, d)))"

definition mconf_zephyr_flash_write ::
  "('f, 'd) flash_api \<Rightarrow> 'f mconf_zephyr_flash_ctx option \<Rightarrow> size_t \<Rightarrow> byte list option \<Rightarrow> size_t \<Rightarrow>
    'd \<Rightarrow> (int \<times> 'd) option" where
  "mconf_zephyr_flash_write drv callback_ctx off buffer n d =
     (case callback_ctx of
        None \<Rightarrow> Some (- 1, d)
      | Some ctx \<Rightarrow>
          (case (flash_fa ctx, buffer) of
             (Some fa, Some buf) \<Rightarrow>
               if off + n > flash_total_size ctx then Some (- 1, d)
               else
                 do { bs \<leftarrow> mem_read buf 0 (unat n);
                      let (rc, d) = flash_area_write drv fa (off_t (flash_base_offset ctx + off)) bs d;
                      Some (if rc \<noteq> 0 then - 1 else 0, d) }
           | _ \<Rightarrow> Some (- 1, d)))"

definition mconf_zephyr_flash_erase ::
  "('f, 'd) flash_api \<Rightarrow> 'f mconf_zephyr_flash_ctx option \<Rightarrow> size_t \<Rightarrow> size_t \<Rightarrow> 'd \<Rightarrow>
    (int \<times> 'd) option" where
  "mconf_zephyr_flash_erase drv callback_ctx off n d =
     (case callback_ctx of
        None \<Rightarrow> Some (- 1, d)
      | Some ctx \<Rightarrow>
          (case flash_fa ctx of
             None \<Rightarrow> Some (- 1, d)
           | Some fa \<Rightarrow>
               if off + n > flash_total_size ctx then Some (- 1, d)
               else
                 let (rc, d) = flash_area_erase drv fa (off_t (flash_base_offset ctx + off)) n d
                 in Some (if rc \<noteq> 0 then - 1 else 0, d)))"

type_synonym ('f, 'd) flash_state = "'f mconf_zephyr_flash_ctx option \<times> 'd"

definition flash_io :: "('f, 'd) flash_api \<Rightarrow> size_t \<Rightarrow> ('f, 'd) flash_state mconf_io" where
  "flash_io drv area_size =
     \<lparr>storage_size = area_size, slot_size = area_size div 2,
      io_read = Some (\<lambda>(c, d) off buf.
        do { (rc, out, d) \<leftarrow> mconf_zephyr_flash_read drv c off (Some buf) (of_nat (length buf)) d;
             buf \<leftarrow> out;
             Some (rc, buf, c, d) }),
      io_write = Some (\<lambda>(c, d) off bs.
        do { (rc, d) \<leftarrow> mconf_zephyr_flash_write drv c off (Some bs) (of_nat (length bs)) d;
             Some (rc, c, d) }),
      io_erase = Some (\<lambda>(c, d) off n.
        do { (rc, d) \<leftarrow> mconf_zephyr_flash_erase drv c off n d;
             Some (rc, c, d) })\<rparr>"

text \<open>The result is the return code, \<open>*ctx\<close>, \<open>*io\<close> and the state of the hardware.\<close>

definition mconf_zephyr_flash_init ::
  "('f, 'd) flash_api \<Rightarrow> 'f mconf_zephyr_flash_ctx option \<Rightarrow> byte \<Rightarrow> ('f, 'd) flash_state mconf_io option \<Rightarrow>
    'd \<Rightarrow> (int \<times> 'f mconf_zephyr_flash_ctx option \<times> ('f, 'd) flash_state mconf_io option \<times> 'd) option" where
  "mconf_zephyr_flash_init drv ctx area_id io d =
     (case (ctx, io) of
        (Some c, Some _) \<Rightarrow>
          let (rc, fa, d) = flash_area_open drv area_id (flash_fa c) d;
              c = c\<lparr>flash_fa := fa\<rparr>
          in if rc \<noteq> 0 then Some (rc, Some c, io, d)
             else
               do { fa \<leftarrow> flash_fa c;
                    let area_size = flash_area_get_size drv fa;
                    if area_size < 64 \<or> area_size mod 2 \<noteq> 0
                    then Some (- EINVAL, Some (c\<lparr>flash_fa := None\<rparr>), io, flash_area_close drv fa d)
                    else Some (0, Some (c\<lparr>flash_area_id := area_id, flash_base_offset := 0,
                           flash_total_size := area_size\<rparr>), Some (flash_io drv area_size), d) }
      | _ \<Rightarrow> Some (- EINVAL, ctx, io, d))"

definition mconf_zephyr_flash_close ::
  "('f, 'd) flash_api \<Rightarrow> 'f mconf_zephyr_flash_ctx option \<Rightarrow> 'd \<Rightarrow> 'f mconf_zephyr_flash_ctx option \<times> 'd" where
  "mconf_zephyr_flash_close drv ctx d =
     (case ctx of
        None \<Rightarrow> (ctx, d)
      | Some c \<Rightarrow>
          (case flash_fa c of
             None \<Rightarrow> (ctx, d)
           | Some fa \<Rightarrow> (Some (c\<lparr>flash_fa := None\<rparr>), flash_area_close drv fa d)))"

section \<open>The driver\<close>

text \<open>
  What the documentation of the flash map promises of an area that is open, for a range inside it: a read
  that reports success delivers the bytes; a write to erased bytes that reports success stores its
  bytes, and a write to any other bytes may leave anything in its range; an erase that reports success
  sets its range to 0xFF. Any of them may fail. Flash memories whose erased bytes read as 0xFF are like
  this, NOR flash among them.
\<close>

locale flash_driver =
  fixes drv :: "('f, 'd) flash_api"
    and fa :: 'f
    and mem :: "'d \<Rightarrow> byte list"
    and dinv :: "'d \<Rightarrow> bool"
  assumes area_mem: "dinv d \<Longrightarrow> length (mem d) = unat (flash_area_get_size drv fa)"
    and area_off_t: "unat (flash_area_get_size drv fa) < 2 ^ 63"
    and area_read: "dinv d \<Longrightarrow> a + length buf \<le> unat (flash_area_get_size drv fa) \<Longrightarrow>
      \<exists>rc buf' d'. flash_area_read drv fa (int a) buf d = (rc, buf', d') \<and> length buf' = length buf \<and>
        dinv d' \<and> mem d' = mem d \<and> (rc = 0 \<longrightarrow> buf' = chunk (mem d) a (length buf))"
    and area_write: "dinv d \<Longrightarrow> a + length bs \<le> unat (flash_area_get_size drv fa) \<Longrightarrow>
      \<exists>rc d'. flash_area_write drv fa (int a) bs d = (rc, d') \<and> dinv d' \<and>
        same_outside (mem d) (mem d') a (length bs) \<and>
        (rc = 0 \<longrightarrow> erased (mem d) a (length bs) \<longrightarrow> mem d' = patch (mem d) a bs)"
    and area_erase: "dinv d \<Longrightarrow> a + unat n \<le> unat (flash_area_get_size drv fa) \<Longrightarrow>
      \<exists>rc d'. flash_area_erase drv fa (int a) n d = (rc, d') \<and> dinv d' \<and>
        same_outside (mem d) (mem d') a (unat n) \<and>
        (rc = 0 \<longrightarrow> mem d' = patch (mem d) a (replicate (unat n) 0xFF))"

text \<open>
  Memory whose reads succeed, and on which a write to erased bytes or an erase that fails, as when the
  supply ends, has completed a first part of its range.
\<close>

locale steady_flash = flash_driver +
  assumes read_steady: "dinv d \<Longrightarrow> a + length buf \<le> unat (flash_area_get_size drv fa) \<Longrightarrow>
      flash_area_read drv fa (int a) buf d = (rc, buf', d') \<Longrightarrow> rc = 0"
    and write_steady: "dinv d \<Longrightarrow> erased (mem d) a (length bs) \<Longrightarrow>
      flash_area_write drv fa (int a) bs d = (rc, d') \<Longrightarrow> \<exists>k \<le> length bs. mem d' = patch (mem d) a (take k bs)"
    and erase_steady: "dinv d \<Longrightarrow> a + unat n \<le> unat (flash_area_get_size drv fa) \<Longrightarrow>
      flash_area_erase drv fa (int a) n d = (rc, d') \<Longrightarrow>
      \<exists>k \<le> unat n. mem d' = patch (mem d) a (replicate k 0xFF)"

text \<open>
  Memory that is written in place: a write stores its bytes whatever was there. MRAM, FRAM and RRAM
  behind the flash map are like this.
\<close>

locale in_place_flash = steady_flash +
  assumes write_in_place: "dinv d \<Longrightarrow> a + length bs \<le> unat (flash_area_get_size drv fa) \<Longrightarrow>
      flash_area_write drv fa (int a) bs d = (rc, d') \<Longrightarrow>
      \<exists>k \<le> length bs. mem d' = patch (mem d) a (take k bs) \<and> (rc = 0 \<longrightarrow> k = length bs)"

text \<open>NOR flash: a write can only clear bits.\<close>

locale nor_flash = steady_flash +
  assumes write_clears: "dinv d \<Longrightarrow> a + length bs \<le> unat (flash_area_get_size drv fa) \<Longrightarrow>
      flash_area_write drv fa (int a) bs d = (rc, d') \<Longrightarrow> i < length bs \<Longrightarrow>
      mem d' ! (a + i) AND mem d ! (a + i) = mem d' ! (a + i)"

section \<open>The backend meets the contract\<close>

locale flash_region = flash_driver +
  fixes ctx :: "'a mconf_zephyr_flash_ctx"
  assumes ctx_fa: "flash_fa ctx = Some fa"
    and ctx_base: "flash_base_offset ctx = 0"
    and ctx_total: "flash_total_size ctx = flash_area_get_size drv fa"
begin

lemma area_room:
  assumes "unat off + n \<le> unat (flash_total_size ctx)"
  shows "n < 2 ^ 64" "\<not> off + of_nat n > flash_total_size ctx"
    "unat off + n \<le> unat (flash_area_get_size drv fa)"
    "off_t (flash_base_offset ctx + off) = int (unat off)"
  using in_bounds [OF assms] region_target [OF assms, of 0] assms ctx_base ctx_total area_off_t
  by simp_all

text \<open>The callbacks inside the area are the calls of the driver.\<close>

lemma flash_read_runs:
  assumes "dinv d" and "unat off + length buf \<le> unat (flash_total_size ctx)"
  obtains rc buf' d' where "flash_area_read drv fa (int (unat off)) buf d = (rc, buf', d')"
    "mconf_zephyr_flash_read drv (Some ctx) off (Some buf) (of_nat (length buf)) d =
      Some (if rc \<noteq> 0 then - 1 else 0, Some buf', d')"
    "length buf' = length buf" "dinv d'" "mem d' = mem d"
    "rc = 0 \<longrightarrow> buf' = chunk (mem d) (unat off) (length buf)"
proof -
  note room = area_room [OF assms(2)]
  have len: "unat (of_nat (length buf) :: size_t) = length buf" using room(1) by (simp add: unat_of_nat_size)
  obtain rc buf' d' where "flash_area_read drv fa (int (unat off)) buf d = (rc, buf', d')"
    "length buf' = length buf" "dinv d'" "mem d' = mem d"
    "rc = 0 \<longrightarrow> buf' = chunk (mem d) (unat off) (length buf)"
    using area_read [OF assms(1) room(3)] by blast
  with room len ctx_fa show thesis
    by (intro that [of rc buf' d']) (simp_all add: mconf_zephyr_flash_read_def mem_simps patch_def del: of_nat_add)
qed

lemma flash_write_runs:
  assumes "dinv d" and "unat off + length bs \<le> unat (flash_total_size ctx)"
  obtains rc d' where "flash_area_write drv fa (int (unat off)) bs d = (rc, d')"
    "mconf_zephyr_flash_write drv (Some ctx) off (Some bs) (of_nat (length bs)) d = Some (if rc \<noteq> 0 then - 1 else 0, d')"
    "dinv d'" "same_outside (mem d) (mem d') (unat off) (length bs)"
    "rc = 0 \<longrightarrow> erased (mem d) (unat off) (length bs) \<longrightarrow> mem d' = patch (mem d) (unat off) bs"
proof -
  note room = area_room [OF assms(2)]
  have len: "unat (of_nat (length bs) :: size_t) = length bs" using room(1) by (simp add: unat_of_nat_size)
  obtain rc d' where "flash_area_write drv fa (int (unat off)) bs d = (rc, d')"
    "dinv d'" "same_outside (mem d) (mem d') (unat off) (length bs)"
    "rc = 0 \<longrightarrow> erased (mem d) (unat off) (length bs) \<longrightarrow> mem d' = patch (mem d) (unat off) bs"
    using area_write [OF assms(1) room(3)] by blast
  with room len ctx_fa show thesis
    by (intro that [of rc d']) (simp_all add: mconf_zephyr_flash_write_def mem_simps del: of_nat_add)
qed

lemma flash_erase_runs:
  assumes "dinv d" and "unat off + unat n \<le> unat (flash_total_size ctx)"
  obtains rc d' where "flash_area_erase drv fa (int (unat off)) n d = (rc, d')"
    "mconf_zephyr_flash_erase drv (Some ctx) off n d = Some (if rc \<noteq> 0 then - 1 else 0, d')"
    "dinv d'" "same_outside (mem d) (mem d') (unat off) (unat n)"
    "rc = 0 \<longrightarrow> mem d' = patch (mem d) (unat off) (replicate (unat n) 0xFF)"
proof -
  note room = area_room [OF assms(2)]
  obtain rc d' where "flash_area_erase drv fa (int (unat off)) n d = (rc, d')"
    "dinv d'" "same_outside (mem d) (mem d') (unat off) (unat n)"
    "rc = 0 \<longrightarrow> mem d' = patch (mem d) (unat off) (replicate (unat n) 0xFF)"
    using area_erase [OF assms(1) room(3)] by blast
  with room ctx_fa show thesis
    by (intro that [of rc d']) (simp_all add: mconf_zephyr_flash_erase_def)
qed

text \<open>Outside the area the callbacks fail and do nothing.\<close>

lemma flash_outside:
  assumes "unat off + m < 2 ^ 64" and "unat (flash_total_size ctx) < unat off + m"
  shows "mconf_zephyr_flash_read drv (Some ctx) off (Some buf) (of_nat m) d = Some (- 1, Some buf, d)"
    "mconf_zephyr_flash_write drv (Some ctx) off (Some buf) (of_nat m) d = Some (- 1, d)"
    "mconf_zephyr_flash_erase drv (Some ctx) off (of_nat m) d = Some (- 1, d)"
  using bound_check [OF assms(1), of "flash_total_size ctx"] assms(2) ctx_fa
  by (simp_all add: mconf_zephyr_flash_read_def mconf_zephyr_flash_write_def mconf_zephyr_flash_erase_def)

end

sublocale flash_region \<subseteq> erase_first_backend "flash_io drv (flash_total_size ctx)" "\<lambda>s. mem (snd s)"
  "\<lambda>s. fst s = Some ctx \<and> dinv (snd s)"
proof (unfold_locales, goal_cases)
  case (4 s)
  then show ?case using ctx_total area_mem by (simp add: flash_io_def)
next
  case (5 s off buf)
  obtain d where s: "s = (Some ctx, d)" "dinv d" using 5(1) by (cases s) auto
  show ?case
  proof (cases "unat off + length buf \<le> unat (flash_total_size ctx)")
    case True
    show ?thesis
      by (rule flash_read_runs [OF s(2) True])
         (use area_room(3) [OF True] area_mem [OF s(2)] in \<open>auto simp: s(1) flash_io_def\<close>)
  next
    case False
    then show ?thesis using flash_outside(1) [of off "length buf" buf d] 5(2) s by (simp add: flash_io_def)
  qed
next
  case (6 s off bs)
  obtain d where s: "s = (Some ctx, d)" "dinv d" using 6(1) by (cases s) auto
  show ?case
  proof (cases "unat off + length bs \<le> unat (flash_total_size ctx)")
    case True
    show ?thesis
      by (rule flash_write_runs [OF s(2) True])
         (use area_room(3) [OF True] area_mem [OF s(2)] in \<open>auto simp: s(1) flash_io_def\<close>)
  next
    case False
    then show ?thesis using flash_outside(2) [of off "length bs" bs d] 6(2) s by (simp add: flash_io_def)
  qed
next
  case (7 s off n)
  obtain d where s: "s = (Some ctx, d)" "dinv d" using 7(1) by (cases s) auto
  show ?case
  proof (cases "unat off + unat n \<le> unat (flash_total_size ctx)")
    case True
    show ?thesis
      by (rule flash_erase_runs [OF s(2) True])
         (use area_room(3) [OF True] area_mem [OF s(2)] in \<open>auto simp: s(1) flash_io_def\<close>)
  next
    case False
    then show ?thesis using flash_outside(3) [of off "unat n" d] 7(2) s by (simp add: flash_io_def)
  qed
qed (simp_all add: flash_io_def)

context flash_region
begin

lemma in_erase_first:
  "erase_first_backend (flash_io drv (flash_total_size ctx)) (\<lambda>s. mem (snd s)) (\<lambda>s. fst s = Some ctx \<and> dinv (snd s))"
  by unfold_locales

text \<open>A result of a callback is the result of the driver.\<close>

lemma flash_io_write:
  assumes "dinv d" and "unat off + length bs \<le> unat (flash_total_size ctx)"
    and "the (io_write (flash_io drv (flash_total_size ctx))) (Some ctx, d) off bs = Some (rc, s')"
  obtains rc' d' where "flash_area_write drv fa (int (unat off)) bs d = (rc', d')" "s' = (Some ctx, d')"
    "rc = 0 \<longleftrightarrow> rc' = 0" "unat off + length bs \<le> unat (flash_area_get_size drv fa)"
proof (rule flash_write_runs [OF assms(1,2)])
  fix rc' d'
  assume "flash_area_write drv fa (int (unat off)) bs d = (rc', d')"
    "mconf_zephyr_flash_write drv (Some ctx) off (Some bs) (of_nat (length bs)) d = Some (if rc' \<noteq> 0 then - 1 else 0, d')"
  with assms(3) area_room(3) [OF assms(2)] show thesis
    by (intro that [of rc' d']) (auto simp: flash_io_def split: if_splits)
qed

lemma flash_io_erase:
  assumes "dinv d" and "unat off + unat n \<le> unat (flash_total_size ctx)"
    and "the (io_erase (flash_io drv (flash_total_size ctx))) (Some ctx, d) off n = Some (rc, s')"
  obtains rc' d' where "flash_area_erase drv fa (int (unat off)) n d = (rc', d')" "s' = (Some ctx, d')"
    "rc = 0 \<longleftrightarrow> rc' = 0" "unat off + unat n \<le> unat (flash_area_get_size drv fa)"
proof (rule flash_erase_runs [OF assms(1,2)])
  fix rc' d'
  assume "flash_area_erase drv fa (int (unat off)) n d = (rc', d')"
    "mconf_zephyr_flash_erase drv (Some ctx) off n d = Some (if rc' \<noteq> 0 then - 1 else 0, d')"
  with assms(3) area_room(3) [OF assms(2)] show thesis
    by (intro that [of rc' d']) (auto simp: flash_io_def split: if_splits)
qed

lemma flash_io_read:
  assumes "dinv d" and "unat off + length buf \<le> unat (flash_total_size ctx)"
    and "the (io_read (flash_io drv (flash_total_size ctx))) (Some ctx, d) off buf = Some (rc, buf', s')"
  obtains rc' d' where "flash_area_read drv fa (int (unat off)) buf d = (rc', buf', d')" "s' = (Some ctx, d')"
    "rc = 0 \<longleftrightarrow> rc' = 0" "unat off + length buf \<le> unat (flash_area_get_size drv fa)"
proof (rule flash_read_runs [OF assms(1,2)])
  fix rc' buf1 d'
  assume "flash_area_read drv fa (int (unat off)) buf d = (rc', buf1, d')"
    "mconf_zephyr_flash_read drv (Some ctx) off (Some buf) (of_nat (length buf)) d =
      Some (if rc' \<noteq> 0 then - 1 else 0, Some buf1, d')"
  with assms(3) area_room(3) [OF assms(2)] show thesis
    by (intro that [of rc' d']) (auto simp: flash_io_def split: if_splits)
qed

end

locale steady_flash_region = flash_region + steady_flash

sublocale steady_flash_region \<subseteq> torn_erase_first "flash_io drv (flash_total_size ctx)" "\<lambda>s. mem (snd s)"
  "\<lambda>s. fst s = Some ctx \<and> dinv (snd s)"
proof (unfold_locales, goal_cases)
  case (1 s off buf rc buf' s')
  obtain d where s: "s = (Some ctx, d)" "dinv d" using 1(1) by (cases s) auto
  have "unat off + length buf \<le> unat (flash_total_size ctx)" using 1(2) area_mem [OF s(2)] ctx_total s by simp
  from s(2) this 1(3) [unfolded s(1)] show ?case
    by (rule flash_io_read) (use read_steady [OF s(2)] in blast)
next
  case (2 s off bs rc s')
  obtain d where s: "s = (Some ctx, d)" "dinv d" using 2(1) by (cases s) auto
  have "unat off + length bs \<le> unat (flash_total_size ctx)"
    using 2(2) area_mem [OF s(2)] ctx_total s by (simp add: erased_def)
  from s(2) this 2(3) [unfolded s(1)] show ?case
    by (rule flash_io_write) (use write_steady [OF s(2)] 2(2) s(1) in auto)
next
  case (3 s off n rc s')
  obtain d where s: "s = (Some ctx, d)" "dinv d" using 3(1) by (cases s) auto
  show ?case
  proof (cases "unat off + unat n \<le> unat (flash_total_size ctx)")
    case True
    from s(2) this 3(3) [unfolded s(1)] show ?thesis
      by (rule flash_io_erase) (use erase_steady [OF s(2)] s(1) in auto)
  next
    case False
    then have "s' = s" using flash_outside(3) [of off "unat n" d] 3(2,3) s by (simp add: flash_io_def)
    then show ?thesis by (intro exI [of _ 0]) simp
  qed
qed

context steady_flash_region
begin

lemma in_torn_erase_first:
  "torn_erase_first (flash_io drv (flash_total_size ctx)) (\<lambda>s. mem (snd s)) (\<lambda>s. fst s = Some ctx \<and> dinv (snd s))"
  by unfold_locales

end

text \<open>On memory that is written in place the area is a region that tears its writes at worst.\<close>

locale in_place_region = flash_region + in_place_flash +
  fixes original :: "byte list"

sublocale in_place_region \<subseteq> steady_flash_region
  by unfold_locales

sublocale in_place_region \<subseteq> whole: readable_region "flash_io drv (flash_total_size ctx)" "\<lambda>s. mem (snd s)"
  "\<lambda>s. fst s = Some ctx \<and> dinv (snd s)" 0 original
proof (unfold_locales, goal_cases)
  case (4 s)
  then show ?case using ctx_total area_mem by (simp add: flash_io_def)
next
  case (5 s off m buf)
  then show ?case using flash_outside [OF 5(2)] by (cases s) (auto simp: flash_io_def)
next
  case (6 s off buf)
  then have room: "unat off + length buf \<le> unat (flash_total_size ctx)" by (simp add: flash_io_def)
  obtain d where s: "s = (Some ctx, d)" "dinv d" using 6(1) by (cases s) auto
  show ?case by (rule flash_read_runs [OF s(2) room]) (auto simp: s(1) flash_io_def)
next
  case (7 s off bs)
  then have room: "unat off + length bs \<le> unat (flash_total_size ctx)" by (simp add: flash_io_def)
  obtain d where s: "s = (Some ctx, d)" "dinv d" using 7(1) by (cases s) auto
  show ?case
    by (rule flash_write_runs [OF s(2) room])
       (use write_in_place [OF s(2) area_room(3) [OF room]] in \<open>fastforce simp: s(1) flash_io_def\<close>)
next
  case (8 s off n)
  then have room: "unat off + unat n \<le> unat (flash_total_size ctx)" by (simp add: flash_io_def)
  obtain d where s: "s = (Some ctx, d)" "dinv d" using 8(1) by (cases s) auto
  show ?case by (rule flash_erase_runs [OF s(2) room]) (auto simp: s(1) flash_io_def)
next
  case (9 s off buf rc buf' s')
  obtain d where s: "s = (Some ctx, d)" "dinv d" using 9(1) by (cases s) auto
  have "unat off + length buf \<le> unat (flash_total_size ctx)" using 9(2) by (simp add: flash_io_def)
  from s(2) this 9(3) [unfolded s(1)] show ?case
    by (rule flash_io_read) (use read_steady [OF s(2)] in blast)
next
  case (10 s off bs rc s')
  obtain d where s: "s = (Some ctx, d)" "dinv d" using 10(1) by (cases s) auto
  have "unat off + length bs \<le> unat (flash_total_size ctx)" using 10(2) by (simp add: flash_io_def)
  from s(2) this 10(3) [unfolded s(1)] show ?case
    by (rule flash_io_write) (use write_in_place [OF s(2)] s(1) in fastforce)
next
  case (11 s off n rc s')
  obtain d where s: "s = (Some ctx, d)" "dinv d" using 11(1) by (cases s) auto
  have "unat off + unat n \<le> unat (flash_total_size ctx)" using 11(2) by (simp add: flash_io_def)
  from s(2) this 11(3) [unfolded s(1)] show ?case
    by (rule flash_io_erase) (use erase_steady [OF s(2)] s(1) in auto)
qed (simp_all add: flash_io_def)

context in_place_region
begin

lemma in_readable_region:
  "readable_region (flash_io drv (flash_total_size ctx)) (\<lambda>s. mem (snd s))
    (\<lambda>s. fst s = Some ctx \<and> dinv (snd s)) 0"
  by unfold_locales

end

section \<open>On the chip\<close>

text \<open>The chip behind a flash map with one area, of which the erase is a write.\<close>

definition flash_chip :: "(unit, chip) flash_api" where
  "flash_chip = \<lparr>flash_area_open = \<lambda>_ _ d. (0, Some (), d), flash_area_close = \<lambda>_ d. d,
     flash_area_get_size = \<lambda>_. 256,
     flash_area_read = \<lambda>_ a buf d. (0, chunk (chip_mem d) (nat a) (length buf), d),
     flash_area_write = \<lambda>_ a bs d. chip_write a bs d,
     flash_area_erase = \<lambda>_ a n d. chip_write a (replicate (unat n) 0xFF) d\<rparr>"

definition flash_chip_ctx :: "unit mconf_zephyr_flash_ctx" where
  "flash_chip_ctx = \<lparr>flash_fa = Some (), flash_area_id = 1, flash_base_offset = 0, flash_total_size = 256\<rparr>"

lemma chip_write_result:
  assumes "chip_ok d" and "a + length bs \<le> 256" and "chip_write (int a) bs d = (rc, d')"
  shows "chip_ok d'" and "same_outside (chip_mem d) (chip_mem d') a (length bs)"
    and "\<exists>k \<le> length bs. chip_mem d' = patch (chip_mem d) a (take k bs) \<and> (rc = 0 \<longrightarrow> k = length bs)"
proof -
  from chip_write_law [OF assms(1,2)] assms(3) obtain k where k: "chip_ok d'" "k \<le> length bs"
    "chip_mem d' = patch (chip_mem d) a (take k bs)" "rc = (if k = length bs then 0 else - EIO)"
    by auto
  have "same_outside (chip_mem d) (chip_mem d') a (length (take k bs))"
    unfolding k(3) by (rule same_outside_patch) (use assms(1,2) k(2) in \<open>simp add: chip_ok_def\<close>)
  then show "same_outside (chip_mem d) (chip_mem d') a (length bs)"
    by (rule same_outside_mono) simp_all
  show "chip_ok d'" "\<exists>k \<le> length bs. chip_mem d' = patch (chip_mem d) a (take k bs) \<and> (rc = 0 \<longrightarrow> k = length bs)"
    using k by (auto simp: errno_defs intro!: exI [of _ k] split: if_splits)
qed

lemma chip_erase_result:
  assumes "chip_ok d" and "a + n \<le> 256" and "chip_write (int a) (replicate n 0xFF) d = (rc, d')"
  shows "chip_ok d'" and "same_outside (chip_mem d) (chip_mem d') a n"
    and "\<exists>k \<le> n. chip_mem d' = patch (chip_mem d) a (replicate k 0xFF) \<and> (rc = 0 \<longrightarrow> k = n)"
  using chip_write_result [of d a "replicate n 0xFF" rc d'] assms by (auto simp: min_absorb1)

interpretation flash_chip: in_place_flash flash_chip "()" chip_mem chip_ok
proof (unfold_locales, goal_cases)
  case (4 d a bs)
  then show ?case
    using chip_write_result [of d a bs] by (cases "chip_write (int a) bs d") (fastforce simp: flash_chip_def)
next
  case (5 d a n)
  then show ?case
    using chip_erase_result [of d a "unat n"]
    by (cases "chip_write (int a) (replicate (unat n) 0xFF) d") (fastforce simp: flash_chip_def)
next
  case (7 d a bs rc d')
  then show ?case using chip_write_result(3) [of d a bs rc d'] by (auto simp: flash_chip_def chip_ok_def erased_def)
next
  case (8 d a n rc d')
  then show ?case using chip_erase_result(3) [of d a "unat n" rc d'] by (auto simp: flash_chip_def)
next
  case (9 d a bs rc d')
  then show ?case using chip_write_result(3) [of d a bs rc d'] by (auto simp: flash_chip_def)
qed (auto simp: flash_chip_def chip_ok_def)

interpretation flash_chip_area: in_place_region flash_chip "()" chip_mem chip_ok flash_chip_ctx "replicate 256 0xFF"
  by unfold_locales (simp_all add: flash_chip_ctx_def flash_chip_def)

text \<open>
  A NOR flash of the same size: an erase sets bits, a write clears the bits that are clear in its bytes.
\<close>

definition nor_write :: "int \<Rightarrow> byte list \<Rightarrow> chip \<Rightarrow> int \<times> chip" where
  "nor_write a bs d =
     (0, \<lparr>chip_mem = patch (chip_mem d) (nat a) (map2 (AND) (chunk (chip_mem d) (nat a) (length bs)) bs),
           chip_budget = chip_budget d\<rparr>)"

definition nor_erase :: "int \<Rightarrow> size_t \<Rightarrow> chip \<Rightarrow> int \<times> chip" where
  "nor_erase a n d =
     (0, \<lparr>chip_mem = patch (chip_mem d) (nat a) (replicate (unat n) 0xFF), chip_budget = chip_budget d\<rparr>)"

definition nor_chip :: "(unit, chip) flash_api" where
  "nor_chip = flash_chip\<lparr>flash_area_write := \<lambda>_. nor_write, flash_area_erase := \<lambda>_. nor_erase\<rparr>"

lemma and_erased:
  assumes "erased c a (length bs)"
  shows "map2 (AND) (chunk c a (length bs)) bs = bs"
proof (rule nth_equalityI)
  have ff: "0xFF = (- 1 :: byte)" by simp
  fix i assume "i < length (map2 (AND) (chunk c a (length bs)) bs)"
  then show "map2 (AND) (chunk c a (length bs)) bs ! i = bs ! i"
    using assms by (simp add: erased_def chunk_nth ff)
qed (use assms in \<open>simp add: erased_def\<close>)

interpretation nor_chip: nor_flash nor_chip "()" chip_mem chip_ok
proof (unfold_locales, goal_cases)
  case (4 d a bs)
  then have "length (map2 (AND) (chunk (chip_mem d) a (length bs)) bs) = length bs" "a + length bs \<le> length (chip_mem d)"
    by (simp_all add: nor_chip_def flash_chip_def chip_ok_def)
  with same_outside_patch [of a "map2 (AND) (chunk (chip_mem d) a (length bs)) bs" "chip_mem d"] 4(1)
    and_erased [of "chip_mem d" a bs]
  show ?case by (auto simp: nor_chip_def nor_write_def chip_ok_def)
next
  case (5 d a n)
  then have "a + length (replicate (unat n) (0xFF :: byte)) \<le> length (chip_mem d)"
    by (simp add: nor_chip_def flash_chip_def chip_ok_def)
  with same_outside_patch [of a "replicate (unat n) 0xFF" "chip_mem d"] 5(1)
  show ?case by (auto simp: nor_chip_def nor_erase_def chip_ok_def)
next
  case (7 d a bs rc d')
  then show ?case
    using and_erased [of "chip_mem d" a bs]
    by (intro exI [of _ "length bs"]) (auto simp: nor_chip_def nor_write_def)
next
  case (8 d a n rc d')
  then show ?case by (intro exI [of _ "unat n"]) (auto simp: nor_chip_def nor_erase_def)
next
  case (9 d a bs rc d' i)
  then have "a + length bs \<le> length (chip_mem d)" by (simp add: nor_chip_def flash_chip_def chip_ok_def)
  with 9(3,4) show ?case
    by (auto simp: nor_chip_def nor_write_def nth_patch chunk_nth ac_simps)
qed (auto simp: nor_chip_def flash_chip_def chip_ok_def)

interpretation nor_chip_area: steady_flash_region nor_chip "()" chip_mem chip_ok flash_chip_ctx
  by unfold_locales (simp_all add: flash_chip_ctx_def nor_chip_def flash_chip_def)

section \<open>Properties\<close>

text \<open>What \<open>mconf_zephyr_flash_init\<close> leaves behind when it succeeds.\<close>

lemma flash_init_runs:
  assumes "flash_area_open drv area_id (flash_fa c) d = (0, Some fa, d1)"
    and "mconf_zephyr_flash_init drv (Some c) area_id (Some io0) d = Some (0, Some c', Some io, d')"
  shows "flash_fa c' = Some fa" "flash_base_offset c' = 0" "flash_total_size c' = flash_area_get_size drv fa"
    "io = flash_io drv (flash_total_size c')" "64 \<le> unat (flash_area_get_size drv fa)" "d' = d1"
  using assms
  by (auto simp: mconf_zephyr_flash_init_def Let_def word_less_nat_alt errno_defs split: if_splits)

lemma flash_region_intro:
  assumes "flash_fa c = Some fa" and "flash_base_offset c = 0" and "flash_total_size c = flash_area_get_size drv fa"
    and "flash_driver drv fa mem dinv"
  shows "flash_region drv fa mem dinv c"
  using assms by (simp add: flash_region_def flash_region_axioms_def)

lemma flash_init_exact_runs:
  assumes "flash_area_open drv area_id (flash_fa c) d = (rc0, handle, d1)" and "rc0 = 0 \<Longrightarrow> handle = Some fa"
  shows "\<exists>rc c' io' d'. mconf_zephyr_flash_init drv (Some c) area_id (Some io) d = Some (rc, Some c', Some io', d') \<and>
    (rc = 0 \<longleftrightarrow> rc0 = 0 \<and> 64 \<le> unat (flash_area_get_size drv fa) \<and> even (unat (flash_area_get_size drv fa))) \<and>
    (if rc = 0
     then c' = c\<lparr>flash_fa := Some fa, flash_area_id := area_id, flash_base_offset := 0,
         flash_total_size := flash_area_get_size drv fa\<rparr> \<and>
       io' = flash_io drv (flash_area_get_size drv fa) \<and> d' = d1 \<and>
       (\<forall>mem dinv. flash_driver drv fa mem dinv \<longrightarrow>
          erase_first_backend io' (\<lambda>s. mem (snd s)) (\<lambda>s. fst s = Some c' \<and> dinv (snd s)))
     else if rc0 \<noteq> 0 then rc = rc0 \<and> c' = c\<lparr>flash_fa := handle\<rparr> \<and> io' = io \<and> d' = d1
     else rc = - EINVAL \<and> c' = c\<lparr>flash_fa := None\<rparr> \<and> io' = io \<and> d' = flash_area_close drv fa d1)"
proof -
  let ?size = "flash_area_get_size drv fa"
  have parity: "?size mod 2 \<noteq> 0 \<longleftrightarrow> odd (unat ?size)"
    by (simp add: unat_eq_0 [symmetric] unat_mod even_iff_mod_2_eq_zero)
  note init = mconf_zephyr_flash_init_def [of drv "Some c" area_id "Some io"] assms(1) Let_def parity
    word_less_nat_alt
  show ?thesis
  proof (cases "rc0 = 0 \<and> 64 \<le> unat ?size \<and> even (unat ?size)")
    case True
    let ?c = "c\<lparr>flash_fa := Some fa, flash_area_id := area_id, flash_base_offset := 0, flash_total_size := ?size\<rparr>"
    have "erase_first_backend (flash_io drv ?size) (\<lambda>s. mem (snd s)) (\<lambda>s. fst s = Some ?c \<and> dinv (snd s))"
      if "flash_driver drv fa mem dinv" for mem dinv
      using flash_region.in_erase_first [OF flash_region_intro [of ?c, OF _ _ _ that]] by simp
    with True parity assms(2) show ?thesis by (simp add: init)
  next
    case False
    with parity assms(2) show ?thesis by (cases "rc0 = 0") (auto simp: init errno_defs)
  qed
qed

text \<open>
  C28. \<open>mconf_zephyr_flash_init\<close> over any flash map, whatever \<open>flash_area_open\<close> reports, as long as a
  successful open delivers a handle: it succeeds exactly when the area opens, its size is even and there is
  room for two headers. It then fills in context and interface, and over every driver that keeps the
  documented contract the callbacks meet the contract of a backend that is erased before it is written.
  When the area does not open it returns that error; when the size does not do it closes the area again
  and forgets its handle. In both cases it leaves the interface as it was.
\<close>

theorem flash_init_exact:
  assumes "flash_area_open drv area_id (flash_fa c) d = (rc0, handle, d1)" and "rc0 = 0 \<Longrightarrow> handle = Some fa"
  shows "\<exists>rc c' io' d'. mconf_zephyr_flash_init drv (Some c) area_id (Some io) d = Some (rc, Some c', Some io', d') \<and>
    (rc = 0 \<longleftrightarrow> rc0 = 0 \<and> 64 \<le> unat (flash_area_get_size drv fa) \<and> even (unat (flash_area_get_size drv fa))) \<and>
    (if rc = 0
     then c' = c\<lparr>flash_fa := Some fa, flash_area_id := area_id, flash_base_offset := 0,
         flash_total_size := flash_area_get_size drv fa\<rparr> \<and>
       io' = flash_io drv (flash_area_get_size drv fa) \<and> d' = d1 \<and>
       (\<forall>mem dinv. flash_driver drv fa mem dinv \<longrightarrow>
          erase_first_backend io' (\<lambda>s. mem (snd s)) (\<lambda>s. fst s = Some c' \<and> dinv (snd s)))
     else if rc0 \<noteq> 0 then rc = rc0 \<and> c' = c\<lparr>flash_fa := handle\<rparr> \<and> io' = io \<and> d' = d1
     else rc = - EINVAL \<and> c' = c\<lparr>flash_fa := None\<rparr> \<and> io' = io \<and> d' = flash_area_close drv fa d1)"
  by (rule flash_init_exact_runs [OF assms])

theorem flash_init_exact_witness:
  "\<exists>c' io' d'. mconf_zephyr_flash_init nor_chip (Some flash_chip_ctx) 1 (Some (flash_io nor_chip 0)) (erased_chip 9) =
      Some (0, Some c', Some io', d') \<and>
    erase_first_backend io' (\<lambda>s. chip_mem (snd s)) (\<lambda>s. fst s = Some c' \<and> chip_ok (snd s))"
proof -
  have "flash_area_open nor_chip 1 (flash_fa flash_chip_ctx) (erased_chip 9) = (0, Some (), erased_chip 9)"
    "flash_area_get_size nor_chip () = 256"
    by (simp_all add: nor_chip_def flash_chip_def)
  with flash_init_exact [of nor_chip 1 flash_chip_ctx "erased_chip 9" 0 "Some ()" "erased_chip 9" "()" "flash_io nor_chip 0"]
    nor_chip.flash_driver_axioms
  show ?thesis by auto
qed

text \<open>
  C29. No use after close: once \<open>mconf_zephyr_flash_close\<close> has released the area, every callback that is still
  reachable through the interface fails and leaves buffer and hardware alone, and a second close does
  nothing.
\<close>

theorem flash_close_disables:
  assumes "mconf_zephyr_flash_close drv (Some c) d = (p, d')"
  shows "(\<exists>c'. p = Some c' \<and> flash_fa c' = None) \<and>
    mconf_zephyr_flash_close drv p x = (p, x) \<and>
    the (io_read (flash_io drv n)) (p, x) off buf = Some (- 1, buf, p, x) \<and>
    the (io_write (flash_io drv n)) (p, x) off buf = Some (- 1, p, x) \<and>
    the (io_erase (flash_io drv n)) (p, x) off len = Some (- 1, p, x)"
  using assms
  by (auto simp: mconf_zephyr_flash_close_def flash_io_def mconf_zephyr_flash_read_def
      mconf_zephyr_flash_write_def mconf_zephyr_flash_erase_def split: option.splits)

theorem flash_close_disables_witness:
  "(\<exists>c'. Some (flash_chip_ctx\<lparr>flash_fa := None\<rparr>) = Some c' \<and> flash_fa c' = None) \<and>
    mconf_zephyr_flash_close flash_chip (Some (flash_chip_ctx\<lparr>flash_fa := None\<rparr>)) (erased_chip 9) =
      (Some (flash_chip_ctx\<lparr>flash_fa := None\<rparr>), erased_chip 9) \<and>
    the (io_read (flash_io flash_chip 256)) (Some (flash_chip_ctx\<lparr>flash_fa := None\<rparr>), erased_chip 9) 0 [1, 2] =
      Some (- 1, [1, 2], Some (flash_chip_ctx\<lparr>flash_fa := None\<rparr>), erased_chip 9) \<and>
    the (io_write (flash_io flash_chip 256)) (Some (flash_chip_ctx\<lparr>flash_fa := None\<rparr>), erased_chip 9) 0 [1, 2] =
      Some (- 1, Some (flash_chip_ctx\<lparr>flash_fa := None\<rparr>), erased_chip 9) \<and>
    the (io_erase (flash_io flash_chip 256)) (Some (flash_chip_ctx\<lparr>flash_fa := None\<rparr>), erased_chip 9) 0 128 =
      Some (- 1, Some (flash_chip_ctx\<lparr>flash_fa := None\<rparr>), erased_chip 9)"
  by (rule flash_close_disables [of flash_chip flash_chip_ctx "erased_chip 9" _ "erased_chip 9"])
     (simp add: mconf_zephyr_flash_close_def flash_chip_ctx_def flash_chip_def)

end
