(* ===== verification/Mconf_Devices.thy ===== *)
theory Mconf_Devices
  imports Mconf_Commit Mconf_Eeprom Mconf_Flash
begin

text \<open>
  The library on the two Zephyr backends: what a save does through the interfaces that
  \<open>mconf_zephyr_eeprom_init\<close> and \<open>mconf_zephyr_flash_init\<close> set up. On an EEPROM and on flash memory it is
  atomic; on NOR flash, where the commit cannot take effect, it is also lost.
\<close>

section \<open>Saving through a region\<close>

text \<open>
  What a save through a backend that occupies a region of a device guarantees: it returns and changes no
  byte outside the region, and it is atomic where reads succeed and writes tear at worst.
\<close>

lemma region_save_returns:
  assumes "region io medium sinv base" and "ctx_ok cfg ctx" and "io_fits io ctx" and "sinv s"
  obtains err p' s' where "mconf_save cfg (Some ctx) (Some io) s = Some (err, p', s')" "sinv s'"
    "same_outside (medium s) (medium s') base (unat (storage_size io))"
proof -
  have "region_inv io medium sinv base (medium s) s" using assms(4) by (simp add: region_inv_def)
  from region.backend [OF assms(1)] assms(2,3) this show thesis
    by (rule storage_backend.save_total) (use that in \<open>auto simp: region_inv_def\<close>)
qed

lemma region_save_atomic:
  assumes "readable_region io medium sinv base"
    and "ctx_ok cfg ctx" and "io_fits io ctx" and "format_fits ctx io" and "sinv s"
    and "newest_reads cfg ctx io (region_storage io medium base s)"
    and save: "mconf_save cfg (Some ctx) (Some io) s = Some (err, p', s')"
  shows "newest_reads cfg ctx io (region_storage io medium base s') \<and>
    (if err = MCONF_OK
     then p' = Some (ctx\<lparr>ctx_data := Some (saved_image ctx)\<rparr>) \<and>
       stored_config cfg ctx io (region_storage io medium base s') = Some (saved_image ctx)
     else stored_config cfg ctx io (region_storage io medium base s') \<in>
       {stored_config cfg ctx io (region_storage io medium base s), Some (saved_image ctx)})"
proof -
  have "region_inv io medium sinv base (medium s) s" using assms(5) by (simp add: region_inv_def)
  from torn_backend.save_returns_atomic [OF readable_region.torn [OF assms(1)] assms(2-4) this assms(6)] save
  show ?thesis by auto
qed

lemma halves_fit:
  assumes "64 \<le> unat n" and "unat n < 2 ^ 63" and "length (ctx_bytes ctx) < 2 ^ 62"
    and "slot_size io = n div 2" and "storage_size io = n"
  shows "io_fits io ctx"
  using assms by (simp add: io_fits_def unat_div)

section \<open>Properties\<close>

text \<open>
  C12. Saves through the EEPROM backend. \<open>mconf_zephyr_eeprom_init\<close> has succeeded with a region whose end
  does not wrap around, on a driver that keeps its documented contract, so that every read and every write
  of it may fail: then a save returns, and the EEPROM is unchanged outside that region. If besides the
  reads succeed, a failing write has stored a first part of its bytes, and the slot with the newest
  valid header also has a readable payload, then the region holds the old configuration or the new one
  afterwards, the new one after success, and its newest slot again has a readable payload.
\<close>

theorem eeprom_save_atomic:
  assumes "eeprom_driver drv dev capacity mem dinv" and "dinv d"
    and "mconf_zephyr_eeprom_init drv (Some c) (Some dev) base_offset total_size (Some io0) d = (0, Some c', Some io)"
    and "unat base_offset + unat (storage_size io) < 2 ^ 64"
    and "ctx_ok cfg ctx" and "length (ctx_bytes ctx) < 2 ^ 62" and "format_fits ctx io"
  shows "\<exists>err p' d'. mconf_save cfg (Some ctx) (Some io) (Some c', d) = Some (err, p', Some c', d') \<and> dinv d' \<and>
    same_outside (mem d) (mem d') (unat base_offset) (unat (storage_size io)) \<and>
    (steady_eeprom drv dev capacity mem dinv \<and>
     newest_reads cfg ctx io (chunk (mem d) (unat base_offset) (unat (storage_size io))) \<longrightarrow>
     newest_reads cfg ctx io (chunk (mem d') (unat base_offset) (unat (storage_size io))) \<and>
     (if err = MCONF_OK
      then p' = Some (ctx\<lparr>ctx_data := Some (saved_image ctx)\<rparr>) \<and>
        stored_config cfg ctx io (chunk (mem d') (unat base_offset) (unat (storage_size io))) = Some (saved_image ctx)
      else stored_config cfg ctx io (chunk (mem d') (unat base_offset) (unat (storage_size io))) \<in>
        {stored_config cfg ctx io (chunk (mem d) (unat base_offset) (unat (storage_size io))), Some (saved_image ctx)}))"
proof -
  from eeprom_init_runs [OF assms(1,2), of c base_offset total_size io0] assms(3,4)
  have init: "eeprom_region drv dev capacity mem dinv c'" "io = eeprom_io drv (eeprom_total_size c')"
    "eeprom_base_offset c' = base_offset" "64 \<le> unat (eeprom_total_size c')"
    by (auto simp: eeprom_io_def word_le_nat_alt)
  have cap: "unat (eeprom_total_size c') < 2 ^ 63"
    using eeprom_region.ctx_region [OF init(1)] eeprom_driver.capacity_off_t [OF assms(1)] by simp
  have fits: "io_fits io ctx"
    using init(2,4) cap assms(6) by (intro halves_fit [of "eeprom_total_size c'"]) (simp_all add: eeprom_io_def)
  have region: "region io (\<lambda>s. mem (snd s)) (\<lambda>s. fst s = Some c' \<and> dinv (snd s)) (unat base_offset)"
    using eeprom_region.in_region [OF init(1)] init(2,3) by simp
  obtain err p' s' where save: "mconf_save cfg (Some ctx) (Some io) (Some c', d) = Some (err, p', s')"
    "fst s' = Some c' \<and> dinv (snd s')"
    "same_outside (mem (snd (Some c', d))) (mem (snd s')) (unat base_offset) (unat (storage_size io))"
    by (rule region_save_returns [OF region assms(5) fits, of "(Some c', d)"]) (use assms(2) in auto)
  have tears: "readable_region io (\<lambda>s. mem (snd s)) (\<lambda>s. fst s = Some c' \<and> dinv (snd s)) (unat base_offset)"
    if "steady_eeprom drv dev capacity mem dinv"
    using steady_eeprom_region.in_readable_region [OF steady_eeprom_region.intro [OF init(1) that]] init(2,3) by simp
  show ?thesis
    using save assms(2) region_save_atomic [OF tears assms(5) fits assms(7) _ _ save(1)]
    by (cases s') (auto simp: region_storage_def)
qed

theorem eeprom_save_atomic_witness:
  "\<exists>err p' d'. mconf_save default_config (Some demo_ctx) (Some (eeprom_io chip_api 240)) (Some chip_ctx, erased_chip 150) =
      Some (err, p', Some chip_ctx, d') \<and> chip_ok d' \<and>
    same_outside (replicate 256 0xFF) (chip_mem d') 16 240 \<and>
    newest_reads default_config demo_ctx (eeprom_io chip_api 240) (chunk (chip_mem d') 16 240) \<and>
    (if err = MCONF_OK
     then p' = Some (demo_ctx\<lparr>ctx_data := Some (saved_image demo_ctx)\<rparr>) \<and>
       stored_config default_config demo_ctx (eeprom_io chip_api 240) (chunk (chip_mem d') 16 240) = Some (saved_image demo_ctx)
     else stored_config default_config demo_ctx (eeprom_io chip_api 240) (chunk (chip_mem d') 16 240) \<in>
       {stored_config default_config demo_ctx (eeprom_io chip_api 240) (replicate 240 0xFF), Some (saved_image demo_ctx)})"
proof -
  let ?io = "eeprom_io chip_api 240"
  have init: "mconf_zephyr_eeprom_init chip_api (Some chip_ctx) (Some ()) 16 240 (Some ?io) (erased_chip 150) =
      (0, Some chip_ctx, Some ?io)"
    by (simp add: mconf_zephyr_eeprom_init_def chip_api_def chip_ctx_def)
  have size: "unat (storage_size ?io) = 240" "unat (16 :: size_t) = 16" "chip_mem (erased_chip 150) = replicate 256 0xFF"
    "chunk (replicate 256 (0xFF :: byte)) 16 240 = replicate 240 0xFF"
    by (simp_all add: eeprom_io_def erased_chip_def chunk_def)
  have fits: "io_fits ?io demo_ctx" by (simp add: io_fits_def eeprom_io_def)
  have format: "format_fits demo_ctx ?io" using demo_format_fits by (simp add: format_fits_def eeprom_io_def)
  have reads: "newest_reads default_config demo_ctx ?io (replicate 240 0xFF)"
    using erased_newest(1) [OF _ fits, of demo_schema default_config] by (simp add: size) (simp add: demo_ctx_def)
  from eeprom_save_atomic [OF chip.eeprom_driver_axioms erased_chip_ok init _ demo_ctx_ok _ format, unfolded size]
    reads chip.steady_eeprom_axioms
  show ?thesis by fastforce
qed

context flash_region
begin

text \<open>One byte written through the interface.\<close>

lemma flash_write_byte:
  assumes "dinv d" and "unat off < length (mem d)"
    and "mconf_io_write_exact (flash_io drv (flash_total_size ctx)) (Some ctx, d) off [b] = Some (err, s')"
  obtains rc d' where "flash_area_write drv fa (int (unat off)) [b] d = (rc, d')" "s' = (Some ctx, d')"
    "err = MCONF_OK \<longleftrightarrow> rc = 0" "unat off + length [b] \<le> unat (flash_area_get_size drv fa)"
proof -
  have room: "unat off + length [b] \<le> unat (flash_total_size ctx)"
    using assms(2) area_mem [OF assms(1)] ctx_total by simp
  obtain wr where wr: "io_write (flash_io drv (flash_total_size ctx)) = Some wr" by (simp add: flash_io_def)
  from assms(3) obtain rc where w: "wr (Some ctx, d) off [b] = Some (rc, s')" "err = MCONF_OK \<longleftrightarrow> rc = 0"
    by (auto simp: mconf_io_write_exact_def wr bind_Some_iff split: if_splits)
  show thesis
    by (rule flash_io_write [OF assms(1) room, of rc s'])
       (use w wr in simp, rule that, use w(2) in auto)
qed

end

text \<open>The interface of a flash area that has been opened.\<close>

lemma flash_init_interface:
  assumes "flash_area_open drv area_id (flash_fa c) d0 = (0, Some fa, d)"
    and "steady_flash drv fa mem dinv"
    and "mconf_zephyr_flash_init drv (Some c) area_id (Some io0) d0 = Some (0, Some c', Some io, d)"
    and "length (ctx_bytes ctx) < 2 ^ 62"
  shows "steady_flash_region drv fa mem dinv c'" and "io = flash_io drv (flash_total_size c')" and "io_fits io ctx"
proof -
  note init = flash_init_runs [OF assms(1,3)]
  have drv: "flash_driver drv fa mem dinv" using assms(2) by (simp add: steady_flash_def)
  show "steady_flash_region drv fa mem dinv c'"
    by (rule steady_flash_region.intro [OF flash_region_intro [OF init(1-3) drv] assms(2)])
  show "io = flash_io drv (flash_total_size c')" by (rule init(4))
  show "io_fits io ctx"
    using init(3-5) assms(4) flash_driver.area_off_t [OF drv]
    by (intro halves_fit [of "flash_total_size c'"]) (simp_all add: flash_io_def)
qed

text \<open>
  C13. Saves through the flash backend are atomic, on memory that has to be erased before it is written:
  a write to erased bytes stores them, and nothing is assumed of what a write over other bytes, such as
  the commit, leaves in its range. The area has opened; reads of it succeed, and a write to erased bytes
  or an erase that fails has completed a first part of its range; the slot with the newest valid header
  also has a readable payload. Then a save returns, the area holds the old configuration or the new one
  afterwards, and its newest slot again has a readable payload. After success it is the new one on memory
  that is written in place.
\<close>

theorem flash_save_atomic:
  assumes "flash_area_open drv area_id (flash_fa c) d0 = (0, Some fa, d)"
    and "steady_flash drv fa mem dinv" and "dinv d"
    and "mconf_zephyr_flash_init drv (Some c) area_id (Some io0) d0 = Some (0, Some c', Some io, d)"
    and "ctx_ok cfg ctx" and "length (ctx_bytes ctx) < 2 ^ 62" and "format_fits ctx io"
    and "newest_reads cfg ctx io (mem d)"
  shows "\<exists>err p' d'. mconf_save cfg (Some ctx) (Some io) (Some c', d) = Some (err, p', Some c', d') \<and> dinv d' \<and>
    newest_reads cfg ctx io (mem d') \<and>
    stored_config cfg ctx io (mem d') \<in> {stored_config cfg ctx io (mem d), Some (saved_image ctx)} \<and>
    (err = MCONF_OK \<longrightarrow> p' = Some (ctx\<lparr>ctx_data := Some (saved_image ctx)\<rparr>)) \<and>
    (err = MCONF_OK \<and> in_place_flash drv fa mem dinv \<longrightarrow> stored_config cfg ctx io (mem d') = Some (saved_image ctx))"
proof -
  note init = flash_init_interface [OF assms(1,2,4,6)]
  have torn: "torn_erase_first io (\<lambda>s. mem (snd s)) (\<lambda>s. fst s = Some c' \<and> dinv (snd s))"
    using steady_flash_region.in_torn_erase_first [OF init(1)] init(2) by simp
  have region: "flash_region drv fa mem dinv c'" using init(1) by (simp add: steady_flash_region_def)
  have stores: "mem (snd s') ! unat off = b"
    if "in_place_flash drv fa mem dinv" "fst s = Some c' \<and> dinv (snd s)" "unat off < length (mem (snd s))"
      "mconf_io_write_exact io s off [b] = Some (MCONF_OK, s')" for s off b s'
  proof -
    note pre = that
    obtain d where s: "s = (Some c', d)" "dinv d" using pre(2) by (cases s) auto
    from pre(3,4) s have w: "unat off < length (mem d)"
      "mconf_io_write_exact (flash_io drv (flash_total_size c')) (Some c', d) off [b] = Some (MCONF_OK, s')"
      by (simp_all add: init(2))
    from region s(2) w obtain d' where w': "flash_area_write drv fa (int (unat off)) [b] d = (0, d')" "s' = (Some c', d')"
      "unat off + length [b] \<le> unat (flash_area_get_size drv fa)"
      by (rule flash_region.flash_write_byte) simp
    from in_place_flash.write_in_place [OF pre(1) s(2) w'(3,1)] w(1) w'(2) show ?thesis
      by (auto simp: nth_patch)
  qed
  obtain err p' s' where "mconf_save cfg (Some ctx) (Some io) (Some c', d) = Some (err, p', s')"
    "fst s' = Some c' \<and> dinv (snd s')" "newest_reads cfg ctx io (mem (snd s'))"
    "stored_config cfg ctx io (mem (snd s')) \<in> {stored_config cfg ctx io (mem (snd (Some c', d))), Some (saved_image ctx)}"
    "err = MCONF_OK \<Longrightarrow> p' = Some (ctx\<lparr>ctx_data := Some (saved_image ctx)\<rparr>)"
    "err = MCONF_OK \<Longrightarrow> in_place_flash drv fa mem dinv \<Longrightarrow> stored_config cfg ctx io (mem (snd s')) = Some (saved_image ctx)"
    by (rule torn_erase_first.save_old_or_new [OF torn assms(5) init(3) assms(7), of "(Some c', d)"])
       (use assms(3,8) stores in auto)
  then show ?thesis by (cases s') auto
qed

lemma demo_on_chip:
  assumes "storage_size io = 256" and "slot_size io = 128"
  shows "io_fits io demo_ctx" "format_fits demo_ctx io" "save_accepts default_config demo_ctx io"
    "newest_reads default_config demo_ctx io (chip_mem (erased_chip n))"
    "stored_config default_config demo_ctx io (chip_mem (erased_chip n)) = None"
proof -
  show fits: "io_fits io demo_ctx" using assms by (simp add: io_fits_def)
  show "format_fits demo_ctx io" using demo_format_fits assms by (simp add: format_fits_def)
  show "save_accepts default_config demo_ctx io"
    using demo_accepts assms by (simp add: save_accepts_def) (simp add: fake_io_def)
  have sch: "ctx_schema demo_ctx = Some demo_schema" by (simp add: demo_ctx_def)
  have "chip_mem (erased_chip n) = replicate (unat (storage_size io)) 0xFF" by (simp add: erased_chip_def assms(1))
  then show "newest_reads default_config demo_ctx io (chip_mem (erased_chip n))"
    "stored_config default_config demo_ctx io (chip_mem (erased_chip n)) = None"
    using erased_newest [OF sch fits, of default_config] by simp_all
qed

theorem flash_save_atomic_witness:
  "\<exists>err p' d'. mconf_save default_config (Some demo_ctx) (Some (flash_io flash_chip 256))
      (Some flash_chip_ctx, erased_chip 170) = Some (err, p', Some flash_chip_ctx, d') \<and> chip_ok d' \<and>
    newest_reads default_config demo_ctx (flash_io flash_chip 256) (chip_mem d') \<and>
    stored_config default_config demo_ctx (flash_io flash_chip 256) (chip_mem d') \<in> {None, Some (saved_image demo_ctx)}"
proof -
  let ?io = "flash_io flash_chip 256"
  have init: "mconf_zephyr_flash_init flash_chip (Some flash_chip_ctx) 1 (Some ?io) (erased_chip 170) =
      Some (0, Some flash_chip_ctx, Some ?io, erased_chip 170)"
    by (simp add: mconf_zephyr_flash_init_def flash_chip_def flash_chip_ctx_def)
  have sizes: "storage_size ?io = 256" "slot_size ?io = 128" by (simp_all add: flash_io_def)
  note demo = demo_on_chip(1-3) [OF sizes] demo_on_chip(4,5) [OF sizes, of 170]
  have opened: "flash_area_open flash_chip 1 (flash_fa flash_chip_ctx) (erased_chip 170) = (0, Some (), erased_chip 170)"
    by (simp add: flash_chip_def)
  from flash_save_atomic [OF opened flash_chip.steady_flash_axioms erased_chip_ok init demo_ctx_ok _ demo(2,4)] demo(5)
  show ?thesis by fastforce
qed

section \<open>NOR flash\<close>

text \<open>A flash area of which no write and no erase inside it fails.\<close>

definition flash_never_fails :: "('f, 'd) flash_api \<Rightarrow> 'f \<Rightarrow> ('d \<Rightarrow> bool) \<Rightarrow> bool" where
  "flash_never_fails drv fa dinv \<longleftrightarrow>
     (\<forall>d a bs. dinv d \<longrightarrow> a + length bs \<le> unat (flash_area_get_size drv fa) \<longrightarrow>
        fst (flash_area_write drv fa (int a) bs d) = 0) \<and>
     (\<forall>d a n. dinv d \<longrightarrow> a + unat n \<le> unat (flash_area_get_size drv fa) \<longrightarrow>
        fst (flash_area_erase drv fa (int a) n d) = 0)"

context flash_region
begin

lemma never_fails_no_fault:
  assumes "flash_never_fails drv fa dinv"
  shows "\<not> write_fault (flash_io drv (flash_total_size ctx)) (\<lambda>s. mem (snd s)) (\<lambda>s. fst s = Some ctx \<and> dinv (snd s))"
    and "\<not> erase_fault (flash_io drv (flash_total_size ctx)) (\<lambda>s. mem (snd s)) (\<lambda>s. fst s = Some ctx \<and> dinv (snd s))"
proof -
  let ?io = "flash_io drv (flash_total_size ctx)"
  have "rc = 0" if "the (io_write ?io) (Some ctx, d) off bs = Some (rc, s')" "dinv d" "unat off + length bs \<le> length (mem d)"
    for d off bs rc s'
  proof -
    have "unat off + length bs \<le> unat (flash_total_size ctx)" using that area_mem ctx_total by simp
    from that(2) this that(1) show ?thesis
      by (rule flash_io_write) (use assms that(2) in \<open>metis flash_never_fails_def fst_conv\<close>)
  qed
  then show "\<not> write_fault ?io (\<lambda>s. mem (snd s)) (\<lambda>s. fst s = Some ctx \<and> dinv (snd s))"
    unfolding write_fault_def by (metis prod.collapse)
  have "rc = 0" if "the (io_erase ?io) (Some ctx, d) off n = Some (rc, s')" "dinv d" "unat off + unat n \<le> length (mem d)"
    for d off n rc s'
  proof -
    have "unat off + unat n \<le> unat (flash_total_size ctx)" using that area_mem ctx_total by simp
    from that(2) this that(1) show ?thesis
      by (rule flash_io_erase) (use assms that(2) in \<open>metis flash_never_fails_def fst_conv\<close>)
  qed
  then show "\<not> erase_fault ?io (\<lambda>s. mem (snd s)) (\<lambda>s. fst s = Some ctx \<and> dinv (snd s))"
    unfolding erase_fault_def by (metis prod.collapse)
qed

end

text \<open>
  C30. On NOR flash saves are lost, on every area of every driver whose writes can only clear bits: whatever
  a save reports, the area stores the configuration that it stored before, because the commit, which
  overwrites the state byte 0x3C by 0xA5, cannot set the bits that are clear. Where nothing fails a save
  of any context that the library can write still reports success; the load that follows then replaces
  the saved configuration by the old one, or by the defaults when the area held none.
\<close>

theorem nor_flash_loses_save:
  assumes "flash_area_open drv area_id (flash_fa c) d0 = (0, Some fa, d)"
    and "nor_flash drv fa mem dinv" and "dinv d"
    and "mconf_zephyr_flash_init drv (Some c) area_id (Some io0) d0 = Some (0, Some c', Some io, d)"
    and "ctx_ok cfg ctx" and "length (ctx_bytes ctx) < 2 ^ 62" and "format_fits ctx io"
    and "newest_reads cfg ctx io (mem d)"
  shows "\<exists>err p' d'. mconf_save cfg (Some ctx) (Some io) (Some c', d) = Some (err, p', Some c', d') \<and> dinv d' \<and>
    newest_reads cfg ctx io (mem d') \<and>
    stored_config cfg ctx io (mem d') = stored_config cfg ctx io (mem d) \<and>
    (save_accepts cfg ctx io \<and> flash_never_fails drv fa dinv \<longrightarrow> err = MCONF_OK) \<and>
    (err = MCONF_OK \<longrightarrow> (\<exists>e d''. mconf_load cfg p' (Some io) (Some c', d') =
       Some (e, Some (ctx\<lparr>ctx_data := Some (case stored_config cfg ctx io (mem d) of
         Some old \<Rightarrow> old | None \<Rightarrow> defaults_image ctx)\<rparr>), Some c', d'')))"
proof -
  have steady: "steady_flash drv fa mem dinv" using assms(2) by (simp add: nor_flash_def)
  note init = flash_init_interface [OF assms(1) steady assms(4,6)]
  have torn: "torn_erase_first io (\<lambda>s. mem (snd s)) (\<lambda>s. fst s = Some c' \<and> dinv (snd s))"
    using steady_flash_region.in_torn_erase_first [OF init(1)] init(2) by simp
  have region: "flash_region drv fa mem dinv c'" using init(1) by (simp add: steady_flash_region_def)
  have clears: "mem (snd s') ! unat off AND mem (snd s) ! unat off = mem (snd s') ! unat off"
    if "fst s = Some c' \<and> dinv (snd s)" "unat off < length (mem (snd s))"
      "mconf_io_write_exact io s off [b] = Some (err, s')" for s off b err s'
  proof -
    note pre = that
    obtain d where s: "s = (Some c', d)" "dinv d" using pre(1) by (cases s) auto
    from pre(2,3) s have w: "unat off < length (mem d)"
      "mconf_io_write_exact (flash_io drv (flash_total_size c')) (Some c', d) off [b] = Some (err, s')"
      by (simp_all add: init(2))
    from region s(2) w obtain rc d' where w': "flash_area_write drv fa (int (unat off)) [b] d = (rc, d')" "s' = (Some c', d')"
      "unat off + length [b] \<le> unat (flash_area_get_size drv fa)"
      by (rule flash_region.flash_write_byte)
    from nor_flash.write_clears [OF assms(2) s(2) w'(3,1), of 0] s(1) w'(2) show ?thesis by simp
  qed
  obtain err p' s' where save: "mconf_save cfg (Some ctx) (Some io) (Some c', d) = Some (err, p', s')"
    "fst s' = Some c' \<and> dinv (snd s')" "newest_reads cfg ctx io (mem (snd s'))"
    "stored_config cfg ctx io (mem (snd s')) = stored_config cfg ctx io (mem (snd (Some c', d)))"
    "err = MCONF_OK \<Longrightarrow> p' = Some (ctx\<lparr>ctx_data := Some (saved_image ctx)\<rparr>)"
    "\<lbrakk>save_accepts cfg ctx io; flash_never_fails drv fa dinv\<rbrakk> \<Longrightarrow> err = MCONF_OK"
    by (rule torn_erase_first.save_lost [OF torn assms(5) init(3) assms(7), of "(Some c', d)"])
       (use assms(3,8) clears flash_region.never_fails_no_fault [OF region] init(2) in auto)
  from torn_erase_first.load_runs [OF torn assms(5) init(3) save(2), of "saved_image ctx"]
  have "\<exists>e s''. mconf_load cfg (Some (ctx\<lparr>ctx_data := Some (saved_image ctx)\<rparr>)) (Some io) s' =
      Some (e, Some (ctx\<lparr>ctx_data := Some (snd (load_result cfg ctx io (mem (snd s'))))\<rparr>), s'') \<and> fst s'' = Some c'"
    by (auto simp: saved_image_fields(1) [OF assms(5)])
  moreover have "snd (load_result cfg ctx io (mem (snd s'))) =
      (case stored_config cfg ctx io (mem d) of Some old \<Rightarrow> old | None \<Rightarrow> defaults_image ctx)"
    using save(4) by (simp add: load_result_def split: option.split)
  ultimately show ?thesis using save by (cases s') auto
qed

lemma nor_chip_never_fails: "flash_never_fails nor_chip () chip_ok"
  by (simp add: flash_never_fails_def nor_chip_def nor_write_def nor_erase_def)

theorem nor_flash_loses_save_witness:
  "\<exists>p' d'. mconf_save default_config (Some demo_ctx) (Some (flash_io nor_chip 256)) (Some flash_chip_ctx, erased_chip 0) =
      Some (MCONF_OK, p', Some flash_chip_ctx, d') \<and>
    stored_config default_config demo_ctx (flash_io nor_chip 256) (chip_mem d') = None \<and>
    (\<exists>e d''. mconf_load default_config p' (Some (flash_io nor_chip 256)) (Some flash_chip_ctx, d') =
       Some (e, Some (demo_ctx\<lparr>ctx_data := Some (defaults_image demo_ctx)\<rparr>), Some flash_chip_ctx, d''))"
proof -
  let ?io = "flash_io nor_chip 256"
  have init: "mconf_zephyr_flash_init nor_chip (Some flash_chip_ctx) 1 (Some ?io) (erased_chip 0) =
      Some (0, Some flash_chip_ctx, Some ?io, erased_chip 0)"
    by (simp add: mconf_zephyr_flash_init_def nor_chip_def flash_chip_def flash_chip_ctx_def)
  have sizes: "storage_size ?io = 256" "slot_size ?io = 128" by (simp_all add: flash_io_def)
  note demo = demo_on_chip(1-3) [OF sizes] demo_on_chip(4,5) [OF sizes, of 0]
  have opened: "flash_area_open nor_chip 1 (flash_fa flash_chip_ctx) (erased_chip 0) = (0, Some (), erased_chip 0)"
    by (simp add: nor_chip_def flash_chip_def)
  have small: "length (ctx_bytes demo_ctx) < 2 ^ 62" by simp
  from nor_flash_loses_save [OF opened nor_chip.nor_flash_axioms erased_chip_ok init demo_ctx_ok small demo(2,4)]
    demo(3,5) nor_chip_never_fails
  show ?thesis by auto
qed

end
