(* ===== verification/Mconf_Libc.thy ===== *)
theory Mconf_Libc
  imports Mconf_Prelude
begin

text \<open>
  What the shell uses of the C library: text of numbers as \<open>printf\<close> writes it, and \<open>strtoul\<close>, \<open>strtol\<close>,
  \<open>strcasecmp\<close> and \<open>strncpy\<close>. A C string is the list of its characters without the final NUL; a
  \<open>char\<close> array keeps its NULs. \<open>long\<close> has 64 bits.
\<close>

section \<open>Formatting\<close>

definition digit :: "int \<Rightarrow> char" where
  "digit n = (if n < 10 then char_of (48 + n) else char_of (87 + n))"

text \<open>\<open>%u\<close> and \<open>%zu\<close>, for a number that is not negative.\<close>

function show_dec :: "int \<Rightarrow> string" where
  "show_dec n = (if n < 10 then [digit n] else show_dec (n div 10) @ [digit (n mod 10)])"
  by pat_completeness auto
termination by (relation "measure nat") auto

declare show_dec.simps [simp del]

text \<open>\<open>%d\<close>\<close>

definition show_int :: "int \<Rightarrow> string" where
  "show_int i = (if i < 0 then ''-'' @ show_dec (- i) else show_dec i)"

text \<open>\<open>%02x\<close>\<close>

definition show_hex2 :: "byte \<Rightarrow> string" where
  "show_hex2 b = [digit (uint b div 16), digit (uint b mod 16)]"

text \<open>\<open>%-ns\<close> and \<open>%nzu\<close>\<close>

definition pad_right :: "nat \<Rightarrow> string \<Rightarrow> string" where
  "pad_right n s = s @ replicate (n - length s) CHR '' ''"

definition pad_left :: "nat \<Rightarrow> string \<Rightarrow> string" where
  "pad_left n s = replicate (n - length s) CHR '' '' @ s"

section \<open>Parsing\<close>

definition isspace :: "char \<Rightarrow> bool" where
  "isspace c \<longleftrightarrow> of_char c = (32 :: int) \<or> 9 \<le> (of_char c :: int) \<and> of_char c \<le> (13 :: int)"

definition digit_val :: "char \<Rightarrow> int option" where
  "digit_val c =
     (let n = of_char c
      in if 48 \<le> n \<and> n \<le> 57 then Some (n - 48)
         else if 97 \<le> n \<and> n \<le> 122 then Some (n - 87)
         else if 65 \<le> n \<and> n \<le> 90 then Some (n - 55)
         else None)"

fun digits_value :: "int \<Rightarrow> int \<Rightarrow> string \<Rightarrow> int" where
  "digits_value base acc [] = acc"
| "digits_value base acc (c # cs) =
     (case digit_val c of
        Some v \<Rightarrow> if v < base then digits_value base (acc * base + v) cs else acc
      | None \<Rightarrow> acc)"

definition is_hex_digit :: "char \<Rightarrow> bool" where
  "is_hex_digit c \<longleftrightarrow> (case digit_val c of Some v \<Rightarrow> v < 16 | None \<Rightarrow> False)"

text \<open>The magnitude of the subject sequence with base 0, which takes the base from the prefix.\<close>

definition auto_base_value :: "string \<Rightarrow> int" where
  "auto_base_value s =
     (case s of
        z # x # h # _ \<Rightarrow>
          if z = CHR ''0'' \<and> (x = CHR ''x'' \<or> x = CHR ''X'') \<and> is_hex_digit h
          then digits_value 16 0 (drop 2 s)
          else if z = CHR ''0'' then digits_value 8 0 s else digits_value 10 0 s
      | z # _ \<Rightarrow> if z = CHR ''0'' then digits_value 8 0 s else digits_value 10 0 s
      | [] \<Rightarrow> 0)"

text \<open>The sign and the magnitude, after the white space.\<close>

definition subject_sequence :: "string \<Rightarrow> bool \<times> int" where
  "subject_sequence s =
     (case dropWhile isspace s of
        [] \<Rightarrow> (False, 0)
      | c # cs \<Rightarrow>
          if c = CHR ''-'' then (True, auto_base_value cs)
          else if c = CHR ''+'' then (False, auto_base_value cs)
          else (False, auto_base_value (c # cs)))"

text \<open>\<open>strtoul(s, NULL, 0)\<close>, which saturates and negates as unsigned, and \<open>strtol(s, NULL, 0)\<close>.\<close>

definition strtoul :: "string \<Rightarrow> 64 word" where
  "strtoul s =
     (let (neg, n) = subject_sequence s
      in if 2 ^ 64 \<le> n then - 1 else if neg then - of_int n else of_int n)"

definition strtol :: "string \<Rightarrow> int" where
  "strtol s =
     (let (neg, n) = subject_sequence s
      in max (- (2 ^ 63)) (min (2 ^ 63 - 1) (if neg then - n else n)))"

section \<open>Strings\<close>

definition to_lower :: "char \<Rightarrow> char" where
  "to_lower c = (if 65 \<le> (of_char c :: int) \<and> of_char c \<le> (90 :: int) then char_of (of_char c + 32 :: int) else c)"

text \<open>\<open>strcasecmp(a, b) == 0\<close>\<close>

definition strcaseeq :: "string \<Rightarrow> string \<Rightarrow> bool" where
  "strcaseeq a b \<longleftrightarrow> map to_lower a = map to_lower b"

text \<open>The C string in a \<open>char\<close> array, and \<open>strncpy(dst, src, n)\<close>.\<close>

definition c_str :: "string \<Rightarrow> string" where
  "c_str a = takeWhile (\<lambda>c. c \<noteq> CHR 0x00) a"

definition strncpy :: "string \<Rightarrow> string \<Rightarrow> nat \<Rightarrow> string" where
  "strncpy dst src n = take n src @ replicate (n - length src) CHR 0x00 @ drop n dst"

section \<open>What is printed is what is parsed\<close>

lemma of_char_digit: "0 \<le> n \<Longrightarrow> n < 10 \<Longrightarrow> of_char (digit n) = 48 + n"
  by (simp add: digit_def of_char_of)

lemma digit_val_digit: "0 \<le> n \<Longrightarrow> n < 10 \<Longrightarrow> digit_val (digit n) = Some n"
  by (simp add: digit_val_def of_char_digit)

lemma digit_not_special:
  assumes "0 \<le> n" and "n < 10"
  shows "digit n \<noteq> CHR ''-''" "digit n \<noteq> CHR ''+''" "\<not> isspace (digit n)" "digit n = CHR ''0'' \<longleftrightarrow> n = 0"
    "digit n \<noteq> CHR 0x00"
proof -
  have code: "digit n = c \<longleftrightarrow> 48 + n = of_char c" for c
    using of_char_digit [OF assms] inj_of_char [where ?'a = int] by (metis injD)
  show "digit n \<noteq> CHR ''-''" "digit n \<noteq> CHR ''+''" "digit n = CHR ''0'' \<longleftrightarrow> n = 0" "digit n \<noteq> CHR 0x00"
    using assms by (simp_all add: code)
  show "\<not> isspace (digit n)" using assms by (simp add: isspace_def of_char_digit)
qed

lemma digits_value_append:
  "(\<forall>c \<in> set xs. \<exists>v < base. digit_val c = Some v) \<Longrightarrow>
     digits_value base acc (xs @ ys) = digits_value base (digits_value base acc xs) ys"
  by (induction xs arbitrary: acc) auto

lemma show_dec_digits: "0 \<le> n \<Longrightarrow> c \<in> set (show_dec n) \<Longrightarrow> \<exists>v. 0 \<le> v \<and> v < 10 \<and> c = digit v"
proof (induction n rule: show_dec.induct)
  case (1 n)
  from 1(3) show ?case
    by (subst (asm) show_dec.simps)
       (use 1(1,2) in \<open>auto split: if_splits intro: exI [of _ "n mod 10"] exI [of _ n]\<close>)
qed

lemma digits_value_show_dec: "0 \<le> n \<Longrightarrow> digits_value 10 0 (show_dec n) = n"
proof (induction n rule: show_dec.induct)
  case (1 n)
  show ?case
  proof (cases "n < 10")
    case True
    then show ?thesis using 1(2) by (subst show_dec.simps) (simp add: digit_val_digit)
  next
    case False
    have "\<forall>c \<in> set (show_dec (n div 10)). \<exists>v < 10. digit_val c = Some v"
      using show_dec_digits [of "n div 10"] digit_val_digit 1(2) by fastforce
    from digits_value_append [OF this] False 1 show ?thesis
      by (subst show_dec.simps) (simp add: digit_val_digit)
  qed
qed

lemma show_dec_head:
  "0 \<le> n \<Longrightarrow> \<exists>v cs. show_dec n = digit v # cs \<and> 0 \<le> v \<and> v < 10 \<and> (v = 0 \<longrightarrow> n = 0)"
proof (induction n rule: show_dec.induct)
  case (1 n)
  show ?case
  proof (cases "n < 10")
    case True
    then show ?thesis using 1(2) by (subst show_dec.simps) (auto intro: exI [of _ n])
  next
    case False
    with 1 obtain v cs where "show_dec (n div 10) = digit v # cs" "0 \<le> v" "v < 10" "v = 0 \<longrightarrow> n div 10 = 0"
      by fastforce
    with False show ?thesis by (subst show_dec.simps) auto
  qed
qed

lemma show_dec_0: "show_dec 0 = [digit 0]"
  by (simp add: show_dec.simps)

lemma auto_base_show_dec:
  assumes "0 \<le> n"
  shows "auto_base_value (show_dec n) = n"
proof -
  obtain v cs where head: "show_dec n = digit v # cs" "0 \<le> v" "v < 10" "v = 0 \<longrightarrow> n = 0"
    using show_dec_head [OF assms] by blast
  show ?thesis
  proof (cases "n = 0")
    case True
    then show ?thesis by (simp add: show_dec_0 auto_base_value_def digit_not_special digit_val_digit)
  next
    case False
    then have "digit v \<noteq> CHR ''0''" using head digit_not_special(4) by blast
    then show ?thesis
      using digits_value_show_dec [OF assms] by (auto simp: head(1) auto_base_value_def split: list.splits)
  qed
qed

lemma subject_sequence_show_dec:
  assumes "0 \<le> n"
  shows "subject_sequence (show_dec n) = (False, n)"
proof -
  obtain v cs where "show_dec n = digit v # cs" "0 \<le> v" "v < 10"
    using show_dec_head [OF assms] by blast
  with digit_not_special [OF this(2,3)] auto_base_show_dec [OF assms] show ?thesis
    by (simp add: subject_sequence_def)
qed

lemma subject_sequence_minus: "0 \<le> n \<Longrightarrow> subject_sequence (''-'' @ show_dec n) = (True, n)"
  by (simp add: subject_sequence_def isspace_def auto_base_show_dec)

lemma strtoul_show_dec: "0 \<le> n \<Longrightarrow> n < 2 ^ 64 \<Longrightarrow> strtoul (show_dec n) = of_int n"
  by (simp add: strtoul_def subject_sequence_show_dec)

lemma strtol_show_int:
  assumes "- (2 ^ 63) \<le> i" and "i < 2 ^ 63"
  shows "strtol (show_int i) = i"
proof (cases "i < 0")
  case True
  then show ?thesis using assms subject_sequence_minus [of "- i"] by (simp add: strtol_def show_int_def)
next
  case False
  then show ?thesis using assms by (simp add: strtol_def show_int_def subject_sequence_show_dec)
qed

lemma show_dec_no_nul: "0 \<le> n \<Longrightarrow> CHR 0x00 \<notin> set (show_dec n)"
  using show_dec_digits digit_not_special(5) by metis

end
