(* ===== verification/Mconf_Shell.thy ===== *)
theory Mconf_Shell
  imports Mconf_Persist Mconf_Region Mconf_Libc
begin

text \<open>
  The Zephyr shell commands (zephyr/src/mconf_zephyr_shell.c): a registry of up to four named
  configurations behind a mutex, and the commands \<open>list\<close>, \<open>dump\<close>, \<open>get\<close>, \<open>set\<close>, \<open>save\<close>, \<open>load\<close> and \<open>defaults\<close> on it.
  The registry holds pointers: the contexts and interfaces that they point to are objects of the
  application, which the state keeps in two stores by address. The mutex is a count of the locks that
  are held. The shell's output is the list \<open>console\<close>. Two functions of the C library on floats are
  parameters.
\<close>

section \<open>State\<close>

datatype shell_out = Shell_Print string | Shell_Text string | Shell_Error string

record shell_libc =
  format_f :: "uint32 \<Rightarrow> string"
  strtof :: "string \<Rightarrow> uint32"

record shell_entry =
  shell_ctx :: "nat option"
  shell_io :: "nat option"
  shell_name :: string
  in_use :: bool

record 's shell_state =
  s_entries :: "shell_entry list"
  s_mutex_initialized :: bool
  s_shell_mutex :: nat
  ctx_at :: "nat \<Rightarrow> mconf_ctx option"
  io_at :: "nat \<Rightarrow> 's mconf_io option"
  backend :: 's
  console :: "shell_out list"

abbreviation MCONF_SHELL_MAX_INSTANCES :: nat where "MCONF_SHELL_MAX_INSTANCES \<equiv> 4"

definition say :: "shell_out \<Rightarrow> 's shell_state \<Rightarrow> 's shell_state" where
  "say x st = st\<lparr>console := console st @ [x]\<rparr>"

section \<open>The registry\<close>

definition shell_mutex_lock :: "'s shell_state \<Rightarrow> 's shell_state" where
  "shell_mutex_lock st =
     (let st = (if \<not> s_mutex_initialized st then st\<lparr>s_shell_mutex := 0, s_mutex_initialized := True\<rparr> else st)
      in st\<lparr>s_shell_mutex := s_shell_mutex st + 1\<rparr>)"

definition shell_mutex_unlock :: "'s shell_state \<Rightarrow> 's shell_state" where
  "shell_mutex_unlock st =
     (if s_mutex_initialized st then st\<lparr>s_shell_mutex := s_shell_mutex st - 1\<rparr> else st)"

text \<open>The index of the first used entry with the name, out of \<open>n\<close> entries from \<open>i\<close> on.\<close>

fun find_entry_loop :: "shell_entry list \<Rightarrow> string \<Rightarrow> nat \<Rightarrow> nat \<Rightarrow> nat option option" where
  "find_entry_loop es name i 0 = Some None"
| "find_entry_loop es name i (Suc n) =
     do { e \<leftarrow> arr_get es i;
          if in_use e \<and> c_str (shell_name e) = name then Some (Some i)
          else find_entry_loop es name (Suc i) n }"

fun free_entry_loop :: "shell_entry list \<Rightarrow> nat \<Rightarrow> nat \<Rightarrow> nat option option" where
  "free_entry_loop es i 0 = Some None"
| "free_entry_loop es i (Suc n) =
     do { e \<leftarrow> arr_get es i;
          if \<not> in_use e then Some (Some i) else free_entry_loop es (Suc i) n }"

definition find_shell_entry :: "'s shell_state \<Rightarrow> string \<Rightarrow> nat option option" where
  "find_shell_entry st name = find_entry_loop (s_entries st) name 0 MCONF_SHELL_MAX_INSTANCES"

definition find_shell_entry_locked :: "'s shell_state \<Rightarrow> string \<Rightarrow> nat option option" where
  "find_shell_entry_locked st name = find_entry_loop (s_entries st) name 0 MCONF_SHELL_MAX_INSTANCES"

text \<open>\<open>ctx\<close> and \<open>io\<close> are addresses, \<open>None\<close> is a null pointer.\<close>

definition mconf_zephyr_shell_register ::
  "nat option \<Rightarrow> nat option \<Rightarrow> string option \<Rightarrow> 's shell_state \<Rightarrow> (int \<times> 's shell_state) option" where
  "mconf_zephyr_shell_register ctx io pname st =
     (case pname of
        None \<Rightarrow> Some (- EINVAL, st)
      | Some name \<Rightarrow>
          if ctx = None \<or> name = [] then Some (- EINVAL, st)
          else
            do { let st = shell_mutex_lock st;
                 found \<leftarrow> find_entry_loop (s_entries st) name 0 MCONF_SHELL_MAX_INSTANCES;
                 (case found of
                    Some i \<Rightarrow>
                      let e = (s_entries st ! i)\<lparr>shell_ctx := ctx, shell_io := io\<rparr>
                      in Some (0, shell_mutex_unlock (st\<lparr>s_entries := (s_entries st)[i := e]\<rparr>))
                  | None \<Rightarrow>
                      do { free \<leftarrow> free_entry_loop (s_entries st) 0 MCONF_SHELL_MAX_INSTANCES;
                           (case free of
                              Some i \<Rightarrow>
                                let e = s_entries st ! i;
                                    copied = strncpy (shell_name e) name 23;
                                    e = \<lparr>shell_ctx = ctx, shell_io = io, shell_name = copied[23 := CHR 0x00],
                                         in_use = True\<rparr>
                                in Some (0, shell_mutex_unlock (st\<lparr>s_entries := (s_entries st)[i := e]\<rparr>))
                            | None \<Rightarrow> Some (- ENOMEM, shell_mutex_unlock st)) }) })"

section \<open>Printing a field\<close>

text \<open>The C string at an offset of an object.\<close>

definition read_c_string :: "byte list \<Rightarrow> nat \<Rightarrow> string option" where
  "read_c_string m off =
     (if 0 \<in> set (drop off m) then Some (map (\<lambda>b. char_of (unat b)) (takeWhile (\<lambda>b. b \<noteq> 0) (drop off m))) else None)"

text \<open>The loop over the bytes of a blob of \<open>sz\<close> bytes.\<close>

fun hex_loop :: "byte list \<Rightarrow> nat \<Rightarrow> size_t \<Rightarrow> nat \<Rightarrow> nat \<Rightarrow> 's shell_state \<Rightarrow> 's shell_state option" where
  "hex_loop d data sz b 0 st = Some st"
| "hex_loop d data sz b (Suc n) st =
     do { x \<leftarrow> arr_get d (data + b);
          hex_loop d data sz (Suc b) n
            (say (Shell_Text (show_hex2 x @ (if of_nat b + 1 < sz then '' '' else ''''))) st) }"

definition print_field_value ::
  "mconf_config \<Rightarrow> shell_libc \<Rightarrow> mconf_ctx \<Rightarrow> nat \<Rightarrow> 's shell_state \<Rightarrow> 's shell_state option" where
  "print_field_value cfg libc ctx index st =
     do { e \<leftarrow> mconf_entry_at ctx index;
          d \<leftarrow> ctx_data ctx;
          let data = unat (offset e);
          let ty = entry_type e;
          if ty = MCONF_TYPE_BOOL then
            do { bs \<leftarrow> mem_read d data 1;
                 Some (say (Shell_Print (if bs \<noteq> [0] then ''true'' else ''false'')) st) }
          else if ty = MCONF_TYPE_U8 then
            do { b \<leftarrow> arr_get d data; Some (say (Shell_Print (show_dec (uint b))) st) }
          else if ty = MCONF_TYPE_I8 then
            do { b \<leftarrow> arr_get d data; Some (say (Shell_Print (show_int (sint b))) st) }
          else if ty = MCONF_TYPE_U16 then
            do { bs \<leftarrow> mem_read d data 2; Some (say (Shell_Print (show_dec (uint (host_load16 cfg bs)))) st) }
          else if ty = MCONF_TYPE_I16 then
            do { bs \<leftarrow> mem_read d data 2; Some (say (Shell_Print (show_int (sint (host_load16 cfg bs)))) st) }
          else if ty = MCONF_TYPE_U32 then
            do { bs \<leftarrow> mem_read d data 4; Some (say (Shell_Print (show_dec (uint (host_load32 cfg bs)))) st) }
          else if ty = MCONF_TYPE_I32 then
            do { bs \<leftarrow> mem_read d data 4; Some (say (Shell_Print (show_int (sint (host_load32 cfg bs)))) st) }
          else if ty = MCONF_TYPE_FLOAT32 \<and> ENABLE_FLOAT cfg then
            do { bs \<leftarrow> mem_read d data 4; Some (say (Shell_Print (format_f libc (host_load32 cfg bs))) st) }
          else if ty = MCONF_TYPE_STRING then
            do { s \<leftarrow> read_c_string d data; Some (say (Shell_Print ([CHR 0x22] @ s @ [CHR 0x22])) st) }
          else if ty = MCONF_TYPE_BLOB then
            do { st \<leftarrow> hex_loop d data (entry_size e) 0 (unat (entry_size e)) (say (Shell_Text ''[hex: '') st);
                 Some (say (Shell_Print '']'') st) }
          else Some (say (Shell_Print ''(unsupported type)'') st) }"

section \<open>The commands\<close>

text \<open>
  What an entry points to, and the effect of a library call on the context that it points to. A null or
  dangling pointer is undefined behaviour where the code dereferences it.
\<close>

definition entry_ctx :: "'s shell_state \<Rightarrow> shell_entry \<Rightarrow> mconf_ctx option" where
  "entry_ctx st e = do { a \<leftarrow> shell_ctx e; ctx_at st a }"

definition entry_io :: "'s shell_state \<Rightarrow> shell_entry \<Rightarrow> 's mconf_io option" where
  "entry_io st e = do { a \<leftarrow> shell_io e; io_at st a }"

definition put_entry_ctx :: "shell_entry \<Rightarrow> mconf_ctx option \<Rightarrow> 's shell_state \<Rightarrow> 's shell_state" where
  "put_entry_ctx e p st =
     (case shell_ctx e of None \<Rightarrow> st | Some a \<Rightarrow> st\<lparr>ctx_at := (ctx_at st)(a := p)\<rparr>)"

text \<open>The end of a command: release the mutex and print.\<close>

definition unlock_and_say :: "int \<Rightarrow> shell_out \<Rightarrow> 's shell_state \<Rightarrow> (int \<times> 's shell_state) option" where
  "unlock_and_say rc x st = Some (rc, say x (shell_mutex_unlock st))"

definition quoted :: "string \<Rightarrow> string" where
  "quoted s = [CHR 0x27] @ s @ [CHR 0x27]"

definition not_found_msg :: "string \<Rightarrow> shell_out" where
  "not_found_msg name = Shell_Error (''Configuration '' @ quoted name @ '' not found'')"

definition no_backend_msg :: "string \<Rightarrow> shell_out" where
  "no_backend_msg name = Shell_Error (''Configuration '' @ quoted name @ '' has no persistent IO backend attached'')"

fun list_loop :: "'s shell_state \<Rightarrow> nat \<Rightarrow> nat \<Rightarrow> nat \<Rightarrow> (nat \<times> 's shell_state) option" where
  "list_loop st i 0 cnt = Some (cnt, st)"
| "list_loop st i (Suc n) cnt =
     do { e \<leftarrow> arr_get (s_entries st) i;
          if in_use e then
            do { ctx \<leftarrow> entry_ctx st e;
                 sch \<leftarrow> ctx_schema ctx;
                 let line = ''  ['' @ c_str (shell_name e) @ ''] - '' @ show_dec (uint (entry_count sch)) @
                   '' schema entries, '' @ show_dec (uint (ctx_data_size ctx)) @ '' bytes data, persistence: '' @
                   (if shell_io e \<noteq> None then ''yes'' else ''none'');
                 list_loop (say (Shell_Print line) st) (Suc i) n (cnt + 1) }
          else list_loop st (Suc i) n cnt }"

definition cmd_mconf_list :: "string list \<Rightarrow> 's shell_state \<Rightarrow> (int \<times> 's shell_state) option" where
  "cmd_mconf_list argv st =
     do { let st = say (Shell_Print ''Registered microconf configurations:'') (shell_mutex_lock st);
          (cnt, st) \<leftarrow> list_loop st 0 MCONF_SHELL_MAX_INSTANCES 0;
          let st = shell_mutex_unlock st;
          Some (0, if cnt = 0 then say (Shell_Print ''  (none)'') st else st) }"

fun dump_loop ::
  "mconf_config \<Rightarrow> shell_libc \<Rightarrow> mconf_ctx \<Rightarrow> nat \<Rightarrow> nat \<Rightarrow> 's shell_state \<Rightarrow> 's shell_state option" where
  "dump_loop cfg libc ctx i 0 st = Some st"
| "dump_loop cfg libc ctx i (Suc n) st =
     do { e \<leftarrow> mconf_entry_at ctx i;
          let key_text = (case key e of Some k \<Rightarrow> k | None \<Rightarrow> ''(unnamed)'');
          let line = ''  ['' @ pad_left 2 (show_dec (int i)) @ ''] '' @ pad_right 24 key_text @ '' ('' @
            pad_right 7 (mconf_type_name (entry_type e)) @ '', '' @ pad_left 2 (show_dec (uint (entry_size e))) @ ''B): '';
          st \<leftarrow> print_field_value cfg libc ctx i (say (Shell_Text line) st);
          dump_loop cfg libc ctx (Suc i) n st }"

definition cmd_mconf_dump ::
  "mconf_config \<Rightarrow> shell_libc \<Rightarrow> string list \<Rightarrow> 's shell_state \<Rightarrow> (int \<times> 's shell_state) option" where
  "cmd_mconf_dump cfg libc argv st =
     (if length argv < 2 then Some (- EINVAL, say (Shell_Error ''Usage: mconf dump <name>'') st)
      else
        do { let st = shell_mutex_lock st;
             found \<leftarrow> find_shell_entry_locked st (argv ! 1);
             (case found of
                None \<Rightarrow> unlock_and_say (- ENOENT) (not_found_msg (argv ! 1)) st
              | Some i \<Rightarrow>
                  do { let e = s_entries st ! i;
                       ctx \<leftarrow> entry_ctx st e;
                       sch \<leftarrow> ctx_schema ctx;
                       let line = ''=== Schema dump: '' @ c_str (shell_name e) @ '' (v'' @
                         show_dec (uint (schema_version sch)) @ '', '' @ show_dec (uint (entry_count sch)) @ '' entries) ==='';
                       st \<leftarrow> dump_loop cfg libc ctx 0 (unat (entry_count sch)) (say (Shell_Print line) st);
                       Some (0, shell_mutex_unlock st) }) })"

definition cmd_mconf_get ::
  "mconf_config \<Rightarrow> shell_libc \<Rightarrow> string list \<Rightarrow> 's shell_state \<Rightarrow> (int \<times> 's shell_state) option" where
  "cmd_mconf_get cfg libc argv st =
     (if length argv < 3 then Some (- EINVAL, say (Shell_Error ''Usage: mconf get <name> <key>'') st)
      else
        do { let st = shell_mutex_lock st;
             found \<leftarrow> find_shell_entry_locked st (argv ! 1);
             (case found of
                None \<Rightarrow> unlock_and_say (- ENOENT) (not_found_msg (argv ! 1)) st
              | Some i \<Rightarrow>
                  do { let e = s_entries st ! i;
                       (err, index_out) \<leftarrow> mconf_find cfg (entry_ctx st e) (Some (argv ! 2)) (Some 0);
                       if err \<noteq> MCONF_OK
                       then unlock_and_say (- ENOENT) (Shell_Error (''Key '' @ quoted (argv ! 2) @ '' not found in '' @
                              quoted (argv ! 1))) st
                       else
                         do { index \<leftarrow> index_out;
                              ctx \<leftarrow> entry_ctx st e;
                              st \<leftarrow> print_field_value cfg libc ctx (unat index) st;
                              Some (0, shell_mutex_unlock st) } }) })"

text \<open>The setter that \<open>set\<close> calls for an entry of type \<open>ty\<close>; \<open>None\<close> is the default case of the switch.\<close>

definition set_from_text ::
  "mconf_config \<Rightarrow> shell_libc \<Rightarrow> mconf_ctx option \<Rightarrow> size_t \<Rightarrow> mconf_type \<Rightarrow> string \<Rightarrow>
    (mconf_err \<times> mconf_ctx option) option option" where
  "set_from_text cfg libc p index ty v =
     (if ty = MCONF_TYPE_BOOL then Some (mconf_set_bool cfg p index (v = ''1'' \<or> strcaseeq v ''true''))
      else if ty = MCONF_TYPE_U8 then Some (mconf_set_u8 cfg p index (ucast (strtoul v)))
      else if ty = MCONF_TYPE_U16 then Some (mconf_set_u16 cfg p index (ucast (strtoul v)))
      else if ty = MCONF_TYPE_U32 then Some (mconf_set_u32 cfg p index (ucast (strtoul v)))
      else if ty = MCONF_TYPE_I32 then Some (mconf_set_i32 cfg p index (of_int (strtol v)))
      else if ty = MCONF_TYPE_FLOAT32 \<and> ENABLE_FLOAT cfg then Some (mconf_set_float cfg p index (strtof libc v))
      else if ty = MCONF_TYPE_STRING then
        Some (do { (err, p, required) \<leftarrow>
                     mconf_set_string p index (ExtPtr (c_bytes v @ [0])) (of_nat (length v)) (Some 0);
                   Some (err, p) })
      else None)"

definition cmd_mconf_set ::
  "mconf_config \<Rightarrow> shell_libc \<Rightarrow> string list \<Rightarrow> 's shell_state \<Rightarrow> (int \<times> 's shell_state) option" where
  "cmd_mconf_set cfg libc argv st =
     (if length argv < 4 then Some (- EINVAL, say (Shell_Error ''Usage: mconf set <name> <key> <value>'') st)
      else
        do { let st = shell_mutex_lock st;
             found \<leftarrow> find_shell_entry_locked st (argv ! 1);
             (case found of
                None \<Rightarrow> unlock_and_say (- ENOENT) (not_found_msg (argv ! 1)) st
              | Some i \<Rightarrow>
                  do { let entry = s_entries st ! i;
                       (err, index_out) \<leftarrow> mconf_find cfg (entry_ctx st entry) (Some (argv ! 2)) (Some 0);
                       if err \<noteq> MCONF_OK
                       then unlock_and_say (- ENOENT) (Shell_Error (''Key '' @ quoted (argv ! 2) @ '' not found'')) st
                       else
                         do { index \<leftarrow> index_out;
                              ctx \<leftarrow> entry_ctx st entry;
                              e \<leftarrow> mconf_entry_at ctx (unat index);
                              (case set_from_text cfg libc (Some ctx) index (entry_type e) (argv ! 3) of
                                 None \<Rightarrow> unlock_and_say (- ENOTSUP) (Shell_Error (''Type '' @
                                   quoted (mconf_type_name (entry_type e)) @ '' not editable via simple shell string'')) st
                               | Some result \<Rightarrow>
                                   do { (err, p) \<leftarrow> result;
                                        let st = put_entry_ctx entry p st;
                                        if err \<noteq> MCONF_OK
                                        then unlock_and_say (- EINVAL)
                                               (Shell_Error (''Failed to set field: '' @ mconf_err_str (mconf_err_code err))) st
                                        else unlock_and_say 0 (Shell_Print (''Key '' @ quoted (argv ! 2) @
                                               '' updated successfully.'')) st }) } }) })"

definition cmd_mconf_save ::
  "mconf_config \<Rightarrow> string list \<Rightarrow> 's shell_state \<Rightarrow> (int \<times> 's shell_state) option" where
  "cmd_mconf_save cfg argv st =
     (if length argv < 2 then Some (- EINVAL, say (Shell_Error ''Usage: mconf save <name>'') st)
      else
        do { let st = shell_mutex_lock st;
             found \<leftarrow> find_shell_entry_locked st (argv ! 1);
             (case found of
                None \<Rightarrow> unlock_and_say (- ENOENT) (not_found_msg (argv ! 1)) st
              | Some i \<Rightarrow>
                  let entry = s_entries st ! i in
                  if shell_io entry = None then unlock_and_say (- ENODEV) (no_backend_msg (argv ! 1)) st
                  else
                    do { (err, p, s) \<leftarrow> mconf_save cfg (entry_ctx st entry) (entry_io st entry) (backend st);
                         let st = put_entry_ctx entry p (st\<lparr>backend := s\<rparr>);
                         if err \<noteq> MCONF_OK
                         then unlock_and_say (- EIO) (Shell_Error (''Failed to save: '' @ mconf_err_str (mconf_err_code err) @
                                '' ('' @ show_int (mconf_err_code err) @ '')'')) st
                         else unlock_and_say 0 (Shell_Print (''Configuration '' @ quoted (argv ! 1) @
                                '' saved to persistent storage.'')) st }) })"

definition cmd_mconf_load ::
  "mconf_config \<Rightarrow> string list \<Rightarrow> 's shell_state \<Rightarrow> (int \<times> 's shell_state) option" where
  "cmd_mconf_load cfg argv st =
     (if length argv < 2 then Some (- EINVAL, say (Shell_Error ''Usage: mconf load <name>'') st)
      else
        do { let st = shell_mutex_lock st;
             found \<leftarrow> find_shell_entry_locked st (argv ! 1);
             (case found of
                None \<Rightarrow> unlock_and_say (- ENOENT) (not_found_msg (argv ! 1)) st
              | Some i \<Rightarrow>
                  let entry = s_entries st ! i in
                  if shell_io entry = None then unlock_and_say (- ENODEV) (no_backend_msg (argv ! 1)) st
                  else
                    do { (err, p, s) \<leftarrow> mconf_load cfg (entry_ctx st entry) (entry_io st entry) (backend st);
                         let st = put_entry_ctx entry p (st\<lparr>backend := s\<rparr>);
                         if err \<noteq> MCONF_OK
                         then unlock_and_say (- EIO) (Shell_Error (''Failed to load: '' @ mconf_err_str (mconf_err_code err) @
                                '' ('' @ show_int (mconf_err_code err) @ '')'')) st
                         else unlock_and_say 0 (Shell_Print (''Configuration '' @ quoted (argv ! 1) @
                                '' loaded from persistent storage.'')) st }) })"

definition cmd_mconf_defaults ::
  "string list \<Rightarrow> 's shell_state \<Rightarrow> (int \<times> 's shell_state) option" where
  "cmd_mconf_defaults argv st =
     (if length argv < 2 then Some (- EINVAL, say (Shell_Error ''Usage: mconf defaults <name>'') st)
      else
        do { let st = shell_mutex_lock st;
             found \<leftarrow> find_shell_entry_locked st (argv ! 1);
             (case found of
                None \<Rightarrow> unlock_and_say (- ENOENT) (not_found_msg (argv ! 1)) st
              | Some i \<Rightarrow>
                  do { let entry = s_entries st ! i;
                       (err, p) \<leftarrow> mconf_load_defaults (entry_ctx st entry);
                       let st = put_entry_ctx entry p st;
                       if err \<noteq> MCONF_OK
                       then unlock_and_say (- EINVAL) (Shell_Error (''Failed to load defaults: '' @ mconf_err_str (mconf_err_code err))) st
                       else unlock_and_say 0 (Shell_Print (''Configuration '' @ quoted (argv ! 1) @
                              '' reset to schema defaults.'')) st }) })"

text \<open>The command table; \<open>argv[0]\<close> is the name of the command.\<close>

definition sub_mconf ::
  "mconf_config \<Rightarrow> shell_libc \<Rightarrow> (string \<times> (string list \<Rightarrow> 's shell_state \<Rightarrow> (int \<times> 's shell_state) option)) list" where
  "sub_mconf cfg libc =
     [(''list'', cmd_mconf_list), (''dump'', cmd_mconf_dump cfg libc), (''get'', cmd_mconf_get cfg libc),
      (''set'', cmd_mconf_set cfg libc), (''save'', cmd_mconf_save cfg), (''load'', cmd_mconf_load cfg),
      (''defaults'', cmd_mconf_defaults)]"

end
