(* ===== verification/Mconf_Registry.thy ===== *)
theory Mconf_Registry
  imports Mconf_Shell
begin

text \<open>
  The registry of the shell as a map from names to pairs of pointers: registration is the update of the
  map as long as the name fits its 24 bytes and an entry is free, and lookup is its application. The
  mutex is released on every path of every command.
\<close>

section \<open>The registry as a map\<close>

definition entry_named :: "string \<Rightarrow> shell_entry \<Rightarrow> bool" where
  "entry_named name e \<longleftrightarrow> in_use e \<and> c_str (shell_name e) = name"

definition entry_index :: "shell_entry list \<Rightarrow> string \<Rightarrow> nat option" where
  "entry_index es name = List.find (\<lambda>i. entry_named name (es ! i)) [0..<length es]"

definition registry :: "'s shell_state \<Rightarrow> string \<Rightarrow> (nat option \<times> nat option) option" where
  "registry st name =
     map_option (\<lambda>i. (shell_ctx (s_entries st ! i), shell_io (s_entries st ! i)))
       (entry_index (s_entries st) name)"

definition registry_ok :: "'s shell_state \<Rightarrow> bool" where
  "registry_ok st \<longleftrightarrow> length (s_entries st) = MCONF_SHELL_MAX_INSTANCES \<and>
     (\<forall>e \<in> set (s_entries st). length (shell_name e) = 24 \<and> shell_name e ! 23 = CHR 0x00)"

text \<open>How often the mutex is locked; before its initialisation its count means nothing.\<close>

definition locks_held :: "'s shell_state \<Rightarrow> nat" where
  "locks_held st = (if s_mutex_initialized st then s_shell_mutex st else 0)"

lemma lock_simps [simp]:
  "s_entries (shell_mutex_lock st) = s_entries st" "ctx_at (shell_mutex_lock st) = ctx_at st"
  "io_at (shell_mutex_lock st) = io_at st" "backend (shell_mutex_lock st) = backend st"
  "s_mutex_initialized (shell_mutex_lock st)" "locks_held (shell_mutex_lock st) = Suc (locks_held st)"
  "console (shell_mutex_lock st) = console st"
  by (simp_all add: shell_mutex_lock_def locks_held_def Let_def)

lemma unlock_simps [simp]:
  "s_entries (shell_mutex_unlock st) = s_entries st" "ctx_at (shell_mutex_unlock st) = ctx_at st"
  "io_at (shell_mutex_unlock st) = io_at st" "backend (shell_mutex_unlock st) = backend st"
  "s_mutex_initialized (shell_mutex_unlock st) = s_mutex_initialized st"
  "locks_held (shell_mutex_unlock st) = locks_held st - 1" "console (shell_mutex_unlock st) = console st"
  by (simp_all add: shell_mutex_unlock_def locks_held_def)

lemma say_simps [simp]:
  "s_entries (say x st) = s_entries st" "ctx_at (say x st) = ctx_at st" "io_at (say x st) = io_at st"
  "backend (say x st) = backend st" "s_mutex_initialized (say x st) = s_mutex_initialized st"
  "locks_held (say x st) = locks_held st"
  by (simp_all add: say_def locks_held_def)

lemma held_update [simp]:
  "locks_held (st\<lparr>s_entries := es\<rparr>) = locks_held st" "locks_held (st\<lparr>ctx_at := m\<rparr>) = locks_held st"
  "locks_held (st\<lparr>backend := s\<rparr>) = locks_held st"
  by (simp_all add: locks_held_def)

lemma registry_cong: "s_entries st' = s_entries st \<Longrightarrow> registry st' = registry st"
  by (simp add: registry_def fun_eq_iff)

lemma registry_ok_cong: "s_entries st' = s_entries st \<Longrightarrow> registry_ok st' = registry_ok st"
  by (simp add: registry_ok_def)

text \<open>The two loops.\<close>

lemma find_entry_loop_eq:
  "i + n = length es \<Longrightarrow>
     find_entry_loop es name i n = Some (List.find (\<lambda>j. entry_named name (es ! j)) [i..<length es])"
  by (induction n arbitrary: i) (auto simp: arr_get_Some upt_conv_Cons entry_named_def)

lemma free_entry_loop_eq:
  "i + n = length es \<Longrightarrow>
     free_entry_loop es i n = Some (List.find (\<lambda>j. \<not> in_use (es ! j)) [i..<length es])"
  by (induction n arbitrary: i) (auto simp: arr_get_Some upt_conv_Cons)

lemma find_locked_eq:
  "length (s_entries st) = MCONF_SHELL_MAX_INSTANCES \<Longrightarrow>
     find_shell_entry_locked st name =
       Some (entry_index (s_entries st) name)"
  by (simp add: find_shell_entry_locked_def find_entry_loop_eq entry_index_def)

lemma entry_index_Some:
  "entry_index es name = Some i \<Longrightarrow> i < length es \<and> in_use (es ! i) \<and> c_str (shell_name (es ! i)) = name"
  by (auto simp: entry_index_def find_Some_iff entry_named_def)

lemma entry_index_cong:
  "length es' = length es \<Longrightarrow> (\<And>j. j < length es \<Longrightarrow> entry_named name (es' ! j) = entry_named name (es ! j)) \<Longrightarrow>
     entry_index es' name = entry_index es name"
  by (auto simp: entry_index_def intro: find_cong)

text \<open>A name in its array.\<close>

lemma stored_name:
  assumes "length old = 24"
  shows "(strncpy old name 23)[23 := CHR 0x00] = take 23 name @ replicate (24 - length (take 23 name)) CHR 0x00"
proof (rule nth_equalityI)
  show "length ((strncpy old name 23)[23 := CHR 0x00]) =
      length (take 23 name @ replicate (24 - length (take 23 name)) CHR 0x00)"
    using assms by (simp add: strncpy_def)
  fix i assume "i < length ((strncpy old name 23)[23 := CHR 0x00])"
  then have "i < 24" using assms by (simp add: strncpy_def min_def split: if_splits)
  then show "(strncpy old name 23)[23 := CHR 0x00] ! i =
      (take 23 name @ replicate (24 - length (take 23 name)) CHR 0x00) ! i"
    using assms by (auto simp: strncpy_def nth_append nth_list_update)
qed

lemma c_str_padded: "CHR 0x00 \<notin> set name \<Longrightarrow> c_str (name @ replicate n CHR 0x00) = name"
  by (induction n) (auto simp: c_str_def takeWhile_append2 takeWhile_eq_all_conv takeWhile_append)

lemma c_str_stored:
  assumes "length old = 24" and "CHR 0x00 \<notin> set name"
  shows "c_str ((strncpy old name 23)[23 := CHR 0x00]) = take 23 name"
proof -
  have "CHR 0x00 \<notin> set (take 23 name)" using assms(2) by (auto dest: in_set_takeD)
  from c_str_padded [OF this] show ?thesis by (simp add: stored_name [OF assms(1)])
qed

lemma c_str_short:
  assumes "length a = 24" and "a ! 23 = CHR 0x00"
  shows "length (c_str a) \<le> 23"
proof (rule ccontr)
  assume "\<not> length (c_str a) \<le> 23"
  then have "23 < length (takeWhile (\<lambda>c. c \<noteq> CHR 0x00) a)" by (simp add: c_str_def)
  from takeWhile_nth [OF this] nth_mem [OF this] assms(2) show False by (auto dest: set_takeWhileD)
qed

lemma count_update:
  assumes "i < length xs" and "\<not> P (xs ! i)" and "P x"
  shows "length (filter P (xs[i := x])) = Suc (length (filter P xs))"
  using assms by (subst (2) id_take_nth_drop [of i xs]) (simp_all add: upd_conv_take_nth_drop)

text \<open>The two updates of the table.\<close>

lemma registry_replace:
  assumes "entry_index (s_entries st) name = Some i"
    and "s_entries st' = (s_entries st)[i := (s_entries st ! i)\<lparr>shell_ctx := c, shell_io := io\<rparr>]"
  shows "registry st' = (registry st)(name \<mapsto> (c, io))"
proof
  fix n
  note i = entry_index_Some [OF assms(1)]
  have same: "entry_index (s_entries st') n = entry_index (s_entries st) n"
    using i by (intro entry_index_cong) (auto simp: assms(2) nth_list_update entry_named_def)
  show "registry st' n = ((registry st)(name \<mapsto> (c, io))) n"
  proof (cases "n = name")
    case True
    then show ?thesis unfolding registry_def same using assms(1) i by (simp add: assms(2))
  next
    case False
    have "j \<noteq> i" if "entry_index (s_entries st) n = Some j" for j
      using entry_index_Some [OF that] i False by auto
    with False show ?thesis
      unfolding registry_def same fun_upd_apply
      by (cases "entry_index (s_entries st) n") (auto simp: assms(2))
  qed
qed

lemma registry_insert:
  assumes "entry_index (s_entries st) name = None"
    and "List.find (\<lambda>i. \<not> in_use (s_entries st ! i)) [0..<length (s_entries st)] = Some i"
    and "s_entries st' = (s_entries st)[i := e]" and "in_use e" and "c_str (shell_name e) = name"
  shows "registry st' = (registry st)(name \<mapsto> (shell_ctx e, shell_io e))"
proof
  fix n
  have i: "i < length (s_entries st)" "\<not> in_use (s_entries st ! i)" using assms(2) by (auto simp: find_Some_iff)
  show "registry st' n = ((registry st)(name \<mapsto> (shell_ctx e, shell_io e))) n"
  proof (cases "n = name")
    case True
    have "entry_index (s_entries st') n = Some i"
      unfolding entry_index_def find_Some_iff
    proof (intro exI [of _ i] conjI allI impI)
      fix j assume "j < i"
      then show "\<not> entry_named n (s_entries st' ! ([0..<length (s_entries st')] ! j))"
        using assms(1,3) i True by (auto simp: find_None_iff entry_index_def)
    qed (use i assms(3-5) True in \<open>simp_all add: entry_named_def\<close>)
    then show ?thesis using True i by (simp add: registry_def assms(3))
  next
    case False
    have same: "entry_index (s_entries st') n = entry_index (s_entries st) n"
      using i assms(4,5) False by (intro entry_index_cong) (auto simp: assms(3) nth_list_update entry_named_def)
    have "j \<noteq> i" if "entry_index (s_entries st) n = Some j" for j
      using entry_index_Some [OF that] i(2) by auto
    with False show ?thesis
      unfolding registry_def same fun_upd_apply
      by (cases "entry_index (s_entries st) n") (auto simp: assms(3))
  qed
qed

text \<open>Registration.\<close>

lemma register_runs:
  assumes "registry_ok st" and "name \<noteq> []" and "CHR 0x00 \<notin> set name" and "length name \<le> 23"
  shows "\<exists>rc st'. mconf_zephyr_shell_register (Some a) io (Some name) st = Some (rc, st') \<and>
    registry_ok st' \<and> locks_held st' = locks_held st \<and>
    (rc = 0 \<longleftrightarrow> registry st name \<noteq> None \<or> (\<exists>e \<in> set (s_entries st). \<not> in_use e)) \<and>
    (if rc = 0 then registry st' = (registry st)(name \<mapsto> (Some a, io))
     else rc = - ENOMEM \<and> registry st' = registry st)"
proof -
  let ?st = "shell_mutex_lock st" and ?es = "s_entries st"
  have len: "length ?es = MCONF_SHELL_MAX_INSTANCES" using assms(1) by (simp add: registry_ok_def)
  have find: "find_entry_loop ?es name 0 MCONF_SHELL_MAX_INSTANCES = Some (entry_index ?es name)"
    using len by (simp add: find_entry_loop_eq entry_index_def)
  have free: "free_entry_loop ?es 0 MCONF_SHELL_MAX_INSTANCES =
      Some (List.find (\<lambda>i. \<not> in_use (?es ! i)) [0..<length ?es])"
    using len by (simp add: free_entry_loop_eq)
  note reg = mconf_zephyr_shell_register_def [of "Some a" io "Some name" st] find free assms(2)
  show ?thesis
  proof (cases "entry_index ?es name")
    case (Some i)
    let ?st' = "shell_mutex_unlock (?st\<lparr>s_entries := ?es[i := (?es ! i)\<lparr>shell_ctx := Some a, shell_io := io\<rparr>]\<rparr>)"
    have run: "mconf_zephyr_shell_register (Some a) io (Some name) st = Some (0, ?st')"
      using Some by (simp add: reg Let_def)
    have "registry_ok ?st'"
      using assms(1) entry_index_Some [OF Some] by (auto simp: registry_ok_def dest!: set_update_subset_insert [THEN subsetD])
    with run registry_replace [OF Some, of ?st' io "Some a"] Some show ?thesis
      by (simp add: registry_def)
  next
    case None
    show ?thesis
    proof (cases "List.find (\<lambda>i. \<not> in_use (?es ! i)) [0..<length ?es]")
      case no: None
      then have "\<forall>e \<in> set ?es. in_use e" by (auto simp: find_None_iff in_set_conv_nth)
      moreover have "mconf_zephyr_shell_register (Some a) io (Some name) st = Some (- ENOMEM, shell_mutex_unlock ?st)"
        using None no by (simp add: reg Let_def)
      ultimately show ?thesis
        using None assms(1) registry_cong [of "shell_mutex_unlock ?st" st]
        by (simp add: registry_ok_def errno_defs) (simp add: registry_def)
    next
      case (Some i)
      let ?e = "\<lparr>shell_ctx = Some a, shell_io = io, shell_name = (strncpy (shell_name (?es ! i)) name 23)[23 := CHR 0x00],
        in_use = True\<rparr>"
      let ?st' = "shell_mutex_unlock (?st\<lparr>s_entries := ?es[i := ?e]\<rparr>)"
      have i: "i < length ?es" "\<not> in_use (?es ! i)" using Some by (auto simp: find_Some_iff)
      then have old: "length (shell_name (?es ! i)) = 24" using assms(1) by (simp add: registry_ok_def)
      have run: "mconf_zephyr_shell_register (Some a) io (Some name) st = Some (0, ?st')"
        using None Some by (simp add: reg Let_def)
      have "length (shell_name ?e) = 24" "shell_name ?e ! 23 = CHR 0x00"
        using old by (simp_all add: strncpy_def)
      then have "registry_ok ?st'"
        using assms(1) by (auto simp: registry_ok_def dest!: set_update_subset_insert [THEN subsetD])
      with run registry_insert [OF None Some, of ?st' ?e] c_str_stored [OF old assms(3)] assms(4) i show ?thesis
        by (auto simp: registry_def None)
    qed
  qed
qed

section \<open>A table\<close>

text \<open>The table at boot, and a table with one configuration at address 1 and its backend at address 2.\<close>

definition empty_entry :: shell_entry where
  "empty_entry = \<lparr>shell_ctx = None, shell_io = None, shell_name = replicate 24 CHR 0x00, in_use = False\<rparr>"

definition boot_shell :: "(nat \<Rightarrow> mconf_ctx option) \<Rightarrow> (nat \<Rightarrow> 's mconf_io option) \<Rightarrow> 's \<Rightarrow> 's shell_state" where
  "boot_shell ctxs ios s =
     \<lparr>s_entries = replicate 4 empty_entry, s_mutex_initialized = False, s_shell_mutex = 0, ctx_at = ctxs, io_at = ios,
      backend = s, console = []\<rparr>"

lemma boot_shell_ok [simp]: "registry_ok (boot_shell ctxs ios s)"
  by (simp add: registry_ok_def boot_shell_def empty_entry_def)

lemma boot_shell_empty: "registry (boot_shell ctxs ios s) name = None"
  by (auto simp: registry_def boot_shell_def entry_index_def find_None_iff entry_named_def empty_entry_def)

section \<open>Properties\<close>

text \<open>
  C34. Registration updates the map from names to configurations: for a name of at most 23 characters it
  succeeds when the name is known or an entry is free, after which the name stands for the given
  pointers and every other name for what it stood for. When the table is full it reports \<open>-ENOMEM\<close> and
  changes nothing. The mutex is released on every path.
\<close>

theorem register_refines_map:
  assumes "registry_ok st" and "name \<noteq> []" and "CHR 0x00 \<notin> set name" and "length name \<le> 23"
  shows "\<exists>rc st'. mconf_zephyr_shell_register (Some a) io (Some name) st = Some (rc, st') \<and>
    registry_ok st' \<and> locks_held st' = locks_held st \<and>
    (rc = 0 \<longleftrightarrow> registry st name \<noteq> None \<or> (\<exists>e \<in> set (s_entries st). \<not> in_use e)) \<and>
    (if rc = 0 then registry st' = (registry st)(name \<mapsto> (Some a, io))
     else rc = - ENOMEM \<and> registry st' = registry st)"
  by (rule register_runs [OF assms])

theorem register_refines_map_witness:
  "\<exists>rc st'. mconf_zephyr_shell_register (Some 1) (Some 2) (Some ''app'') (boot_shell (\<lambda>_. None) (\<lambda>_. None) ()) = Some (rc, st') \<and>
    registry_ok st' \<and> locks_held st' = locks_held (boot_shell (\<lambda>_. None) (\<lambda>_. None) ()) \<and>
    (rc = 0 \<longleftrightarrow> registry (boot_shell (\<lambda>_. None) (\<lambda>_. None) ()) ''app'' \<noteq> None \<or>
       (\<exists>e \<in> set (s_entries (boot_shell (\<lambda>_. None) (\<lambda>_. None) ())). \<not> in_use e)) \<and>
    (if rc = 0 then registry st' = (registry (boot_shell (\<lambda>_. None) (\<lambda>_. None) ()))(''app'' \<mapsto> (Some 1, Some 2))
     else rc = - ENOMEM \<and> registry st' = registry (boot_shell (\<lambda>_. None) (\<lambda>_. None) ()))"
  by (rule register_refines_map) simp_all

text \<open>
  C37. A longer name is cut to 23 characters when it is stored but not when it is compared: registering it
  succeeds, after which it is not found, and registering it again takes another entry.
\<close>

theorem register_long_name:
  assumes "registry_ok st" and "CHR 0x00 \<notin> set name" and "23 < length name"
    and "\<exists>e \<in> set (s_entries st). \<not> in_use e"
  shows "\<exists>st'. mconf_zephyr_shell_register (Some a) io (Some name) st = Some (0, st') \<and>
    find_shell_entry_locked st' name = Some None \<and>
    length (filter in_use (s_entries st')) = Suc (length (filter in_use (s_entries st)))"
proof -
  let ?st = "shell_mutex_lock st" and ?es = "s_entries st"
  have len: "length ?es = MCONF_SHELL_MAX_INSTANCES" using assms(1) by (simp add: registry_ok_def)
  have absent: "entry_index es name = None" if "\<forall>e \<in> set es. length (c_str (shell_name e)) \<le> 23" for es
    using that assms(3) by (auto simp: entry_index_def find_None_iff entry_named_def dest!: bspec [OF _ nth_mem])
  have short: "\<forall>e \<in> set ?es. length (c_str (shell_name e)) \<le> 23"
    using assms(1) by (auto simp: registry_ok_def intro: c_str_short)
  have find: "find_entry_loop ?es name 0 MCONF_SHELL_MAX_INSTANCES = Some None"
    using len absent [OF short] by (simp add: find_entry_loop_eq entry_index_def)
  obtain i where i: "List.find (\<lambda>i. \<not> in_use (?es ! i)) [0..<length ?es] = Some i"
    using assms(4) by (cases "List.find (\<lambda>i. \<not> in_use (?es ! i)) [0..<length ?es]")
      (auto simp: find_None_iff in_set_conv_nth)
  then have at: "i < length ?es" "\<not> in_use (?es ! i)" by (auto simp: find_Some_iff)
  let ?e = "\<lparr>shell_ctx = Some a, shell_io = io, shell_name = (strncpy (shell_name (?es ! i)) name 23)[23 := CHR 0x00],
    in_use = True\<rparr>"
  let ?st' = "shell_mutex_unlock (?st\<lparr>s_entries := ?es[i := ?e]\<rparr>)"
  have old: "length (shell_name (?es ! i)) = 24" using at assms(1) by (simp add: registry_ok_def)
  have run: "mconf_zephyr_shell_register (Some a) io (Some name) st = Some (0, ?st')"
    using i assms(3) len find by (auto simp: mconf_zephyr_shell_register_def Let_def free_entry_loop_eq)
  have "\<forall>e \<in> set (s_entries ?st'). length (c_str (shell_name e)) \<le> 23"
    using short c_str_stored [OF old assms(2)] by (auto dest!: set_update_subset_insert [THEN subsetD])
  from absent [OF this] len have "find_shell_entry_locked ?st' name = Some None"
    by (subst find_locked_eq) simp_all
  with run at show ?thesis by (simp add: count_update)
qed

theorem register_long_name_witness:
  "\<exists>st'. mconf_zephyr_shell_register (Some 1) None (Some (replicate 30 CHR ''n'')) (boot_shell (\<lambda>_. None) (\<lambda>_. None) ()) =
      Some (0, st') \<and>
    find_shell_entry_locked st' (replicate 30 CHR ''n'') = Some None \<and>
    length (filter in_use (s_entries st')) =
      Suc (length (filter in_use (s_entries (boot_shell (\<lambda>_. None) (\<lambda>_. None) ()))))"
  by (rule register_long_name [OF boot_shell_ok]) (simp_all add: boot_shell_def empty_entry_def)

end
