(* ===== verification/Mconf_Commands.thy ===== *)
theory Mconf_Commands
  imports Mconf_Registry Mconf_Commit
begin

text \<open>
  The commands of the shell on registered configurations: each of them returns, on whatever the user
  types, keeps every configuration and backend well-formed and releases the mutex. \<open>dump\<close> and \<open>get\<close>
  need strings that end inside their fields. A number that is set as text is printed as that text.
\<close>

section \<open>The invariant of the shell\<close>

text \<open>
  An entry points to a well-formed context, and its backend, if it has one, meets the contract; \<open>ok\<close>
  is what is true of all hardware between calls.
\<close>

definition attached :: "mconf_config \<Rightarrow> ('s \<Rightarrow> bool) \<Rightarrow> 's shell_state \<Rightarrow> shell_entry \<Rightarrow> bool" where
  "attached cfg ok st e \<longleftrightarrow>
     (\<exists>a ctx. shell_ctx e = Some a \<and> ctx_at st a = Some ctx \<and> ctx_ok cfg ctx \<and>
        (\<forall>b. shell_io e = Some b \<longrightarrow>
           (\<exists>io contents. io_at st b = Some io \<and> storage_backend io contents ok \<and> io_fits io ctx)))"

definition shell_ok :: "mconf_config \<Rightarrow> ('s \<Rightarrow> bool) \<Rightarrow> 's shell_state \<Rightarrow> bool" where
  "shell_ok cfg ok st \<longleftrightarrow>
     registry_ok st \<and> ok (backend st) \<and> (\<forall>e \<in> set (s_entries st). in_use e \<longrightarrow> attached cfg ok st e)"

lemma shell_ok_simps [simp]:
  "shell_ok cfg ok (say x st) = shell_ok cfg ok st"
  "shell_ok cfg ok (shell_mutex_lock st) = shell_ok cfg ok st"
  "shell_ok cfg ok (shell_mutex_unlock st) = shell_ok cfg ok st"
  by (simp_all add: shell_ok_def attached_def registry_ok_def)

lemma put_entry_simps [simp]:
  "s_entries (put_entry_ctx e p st) = s_entries st" "io_at (put_entry_ctx e p st) = io_at st"
  "backend (put_entry_ctx e p st) = backend st" "locks_held (put_entry_ctx e p st) = locks_held st"
  by (simp_all add: put_entry_ctx_def split: option.split)

lemma shell_ok_backend:
  "shell_ok cfg ok st \<Longrightarrow> ok s \<Longrightarrow> shell_ok cfg ok (st\<lparr>backend := s\<rparr>)"
  by (simp add: shell_ok_def attached_def registry_ok_def)

text \<open>The context of an entry may be replaced by another of the same width.\<close>

lemma shell_ok_put:
  assumes "shell_ok cfg ok st" and "entry_ctx st e = Some ctx"
    and "ctx_ok cfg ctx'" and "length (ctx_bytes ctx') = length (ctx_bytes ctx)"
  shows "shell_ok cfg ok (put_entry_ctx e (Some ctx') st)"
proof -
  obtain a where a: "shell_ctx e = Some a" "ctx_at st a = Some ctx"
    using assms(2) by (auto simp: entry_ctx_def bind_Some_iff)
  have "attached cfg ok (put_entry_ctx e (Some ctx') st) e'" if "attached cfg ok st e'" for e'
    using that a assms(3,4) by (fastforce simp: attached_def put_entry_ctx_def io_fits_def)
  with assms(1) show ?thesis by (simp add: shell_ok_def registry_ok_def)
qed

lemma shell_ok_set_data:
  "shell_ok cfg ok st \<Longrightarrow> entry_ctx st e = Some ctx \<Longrightarrow> ctx_ok cfg ctx \<Longrightarrow> length d = length (ctx_bytes ctx) \<Longrightarrow>
     shell_ok cfg ok (put_entry_ctx e (Some (ctx\<lparr>ctx_data := Some d\<rparr>)) st)"
  by (erule shell_ok_put) simp_all

text \<open>The entry that a command finds.\<close>

lemma found_context:
  assumes "shell_ok cfg ok st" and "entry_index (s_entries st) name = Some i"
  obtains ctx where "entry_ctx st (s_entries st ! i) = Some ctx" "ctx_ok cfg ctx"
proof -
  have "attached cfg ok st (s_entries st ! i)"
    using assms(1) entry_index_Some [OF assms(2)] by (simp add: shell_ok_def)
  then show thesis using that by (auto simp: attached_def entry_ctx_def)
qed

lemma found_backend:
  assumes "shell_ok cfg ok st" and "entry_index (s_entries st) name = Some i" and "shell_io (s_entries st ! i) \<noteq> None"
  obtains ctx io contents where "entry_ctx st (s_entries st ! i) = Some ctx" "ctx_ok cfg ctx"
    "entry_io st (s_entries st ! i) = Some io" "storage_backend io contents ok" "io_fits io ctx" "ok (backend st)"
proof -
  have "attached cfg ok st (s_entries st ! i)"
    using assms(1) entry_index_Some [OF assms(2)] by (simp add: shell_ok_def)
  then show thesis using that assms(1,3) by (auto simp: attached_def entry_ctx_def entry_io_def shell_ok_def)
qed

lemma entry_ctx_simps [simp]:
  "entry_ctx (shell_mutex_lock st) e = entry_ctx st e" "entry_io (shell_mutex_lock st) e = entry_io st e"
  by (simp_all add: entry_ctx_def entry_io_def)

section \<open>Commands that change or save a configuration\<close>

text \<open>What every command promises.\<close>

definition command_safe ::
  "mconf_config \<Rightarrow> ('s \<Rightarrow> bool) \<Rightarrow> 's shell_state \<Rightarrow> (int \<times> 's shell_state) option \<Rightarrow> bool" where
  "command_safe cfg ok st r \<longleftrightarrow>
     (\<exists>rc st'. r = Some (rc, st') \<and> shell_ok cfg ok st' \<and> s_entries st' = s_entries st \<and>
        locks_held st' = locks_held st \<and> rc \<le> 0)"

lemma command_safe_usage:
  "shell_ok cfg ok st \<Longrightarrow> rc \<le> 0 \<Longrightarrow> command_safe cfg ok st (Some (rc, say x st))"
  by (simp add: command_safe_def)

lemma command_safe_end:
  "shell_ok cfg ok st' \<Longrightarrow> s_entries st' = s_entries st \<Longrightarrow> locks_held st' = Suc (locks_held st) \<Longrightarrow> rc \<le> 0 \<Longrightarrow>
     command_safe cfg ok st (unlock_and_say rc x st')"
  by (simp add: command_safe_def unlock_and_say_def)

lemma entries_length: "shell_ok cfg ok st \<Longrightarrow> length (s_entries st) = MCONF_SHELL_MAX_INSTANCES"
  by (simp add: shell_ok_def registry_ok_def)

lemma find_after_lock:
  "shell_ok cfg ok st \<Longrightarrow> find_shell_entry_locked (shell_mutex_lock st) name = Some (entry_index (s_entries st) name)"
  by (simp add: find_locked_eq entries_length)

lemma command_safe_put:
  assumes "shell_ok cfg ok st" and "entry_ctx st e = Some ctx" and "ctx_ok cfg ctx"
    and "length d = length (ctx_bytes ctx)" and "ok s" and "rc \<le> 0"
  shows "command_safe cfg ok st
    (unlock_and_say rc x (put_entry_ctx e (Some (ctx\<lparr>ctx_data := Some d\<rparr>)) ((shell_mutex_lock st)\<lparr>backend := s\<rparr>)))"
proof (rule command_safe_end)
  let ?st = "(shell_mutex_lock st)\<lparr>backend := s\<rparr>"
  have "shell_ok cfg ok ?st" "entry_ctx ?st e = Some ctx"
    using assms shell_ok_backend [of cfg ok "shell_mutex_lock st" s] by (simp_all add: entry_ctx_def)
  then show "shell_ok cfg ok (put_entry_ctx e (Some (ctx\<lparr>ctx_data := Some d\<rparr>)) ?st)"
    using assms by (intro shell_ok_set_data) simp_all
qed (use assms in simp_all)

lemma command_safe_set:
  assumes "shell_ok cfg ok st" and "entry_ctx st e = Some ctx" and "ctx_ok cfg ctx"
    and "length d = length (ctx_bytes ctx)" and "rc \<le> 0"
  shows "command_safe cfg ok st
    (unlock_and_say rc x (put_entry_ctx e (Some (ctx\<lparr>ctx_data := Some d\<rparr>)) (shell_mutex_lock st)))"
proof -
  have "(shell_mutex_lock st)\<lparr>backend := backend st\<rparr> = shell_mutex_lock st" "ok (backend st)"
    using assms(1) by (simp_all add: shell_mutex_lock_def Let_def shell_ok_def)
  with command_safe_put [OF assms(1-4) this(2) assms(5)] show ?thesis by simp
qed

lemma defaults_safe:
  assumes "shell_ok cfg ok st"
  shows "command_safe cfg ok st (cmd_mconf_defaults argv st)"
proof (cases "length argv < 2")
  case True
  then show ?thesis using assms by (simp add: cmd_mconf_defaults_def command_safe_usage errno_defs)
next
  case False
  note cmd = cmd_mconf_defaults_def [of argv st] find_after_lock [OF assms] Let_def
  show ?thesis
  proof (cases "entry_index (s_entries st) (argv ! 1)")
    case None
    with False assms show ?thesis by (simp add: cmd command_safe_end errno_defs)
  next
    case (Some i)
    obtain ctx where ctx: "entry_ctx st (s_entries st ! i) = Some ctx" "ctx_ok cfg ctx"
      by (rule found_context [OF assms Some])
    from command_safe_set [OF assms ctx, of "defaults_image ctx" 0] False Some ctx show ?thesis
      by (simp add: cmd load_defaults_eq [OF ctx(2)] defaults_image_fields(1) [OF ctx(2)])
  qed
qed

lemma save_command_safe:
  assumes "shell_ok cfg ok st"
  shows "command_safe cfg ok st (cmd_mconf_save cfg argv st)"
proof (cases "length argv < 2")
  case True
  then show ?thesis using assms by (simp add: cmd_mconf_save_def command_safe_usage errno_defs)
next
  case False
  note cmd = cmd_mconf_save_def [of cfg argv st] find_after_lock [OF assms] Let_def
  show ?thesis
  proof (cases "entry_index (s_entries st) (argv ! 1)")
    case None
    with False assms show ?thesis by (simp add: cmd command_safe_end errno_defs)
  next
    case (Some i)
    let ?e = "s_entries st ! i"
    show ?thesis
    proof (cases "shell_io ?e = None")
      case True
      with False Some assms show ?thesis by (simp add: cmd command_safe_end errno_defs)
    next
      case attached: False
      obtain ctx io contents where ctx: "entry_ctx st ?e = Some ctx" "ctx_ok cfg ctx" "entry_io st ?e = Some io"
          "storage_backend io contents ok" "io_fits io ctx" "ok (backend st)"
        by (rule found_backend [OF assms Some attached])
      obtain err d slot s' where run: "mconf_save cfg (Some ctx) (Some io) (backend st) =
          Some (err, Some (ctx\<lparr>ctx_data := Some d\<rparr>), s')" "length d = length (ctx_bytes ctx)" "ok s'"
        by (rule storage_backend.save_total [OF ctx(4,2,5,6)])
      note put = command_safe_put [OF assms ctx(1,2) run(2,3)]
      from attached False Some ctx(1,3) run(1) show ?thesis by (auto simp: cmd errno_defs put)
    qed
  qed
qed

lemma load_command_safe:
  assumes "shell_ok cfg ok st"
  shows "command_safe cfg ok st (cmd_mconf_load cfg argv st)"
proof (cases "length argv < 2")
  case True
  then show ?thesis using assms by (simp add: cmd_mconf_load_def command_safe_usage errno_defs)
next
  case False
  note cmd = cmd_mconf_load_def [of cfg argv st] find_after_lock [OF assms] Let_def
  show ?thesis
  proof (cases "entry_index (s_entries st) (argv ! 1)")
    case None
    with False assms show ?thesis by (simp add: cmd command_safe_end errno_defs)
  next
    case (Some i)
    let ?e = "s_entries st ! i"
    show ?thesis
    proof (cases "shell_io ?e = None")
      case True
      with False Some assms show ?thesis by (simp add: cmd command_safe_end errno_defs)
    next
      case attached: False
      obtain ctx io contents where ctx: "entry_ctx st ?e = Some ctx" "ctx_ok cfg ctx" "entry_io st ?e = Some io"
          "storage_backend io contents ok" "io_fits io ctx" "ok (backend st)"
        by (rule found_backend [OF assms Some attached])
      obtain err d s' where run: "mconf_load cfg (Some ctx) (Some io) (backend st) =
          Some (err, Some (ctx\<lparr>ctx_data := Some d\<rparr>), s')" "length d = length (ctx_bytes ctx)" "ok s'"
        by (rule storage_backend.load_eq [OF ctx(4,2,5,6)])
      note put = command_safe_put [OF assms ctx(1,2) run(2,3)]
      from attached False Some ctx(1,3) run(1) show ?thesis by (auto simp: cmd errno_defs put)
    qed
  qed
qed

text \<open>\<open>list\<close>\<close>

lemma list_loop_runs:
  "shell_ok cfg ok st \<Longrightarrow> i + n = length (s_entries st) \<Longrightarrow>
     \<exists>cnt' st'. list_loop st i n cnt = Some (cnt', st') \<and> shell_ok cfg ok st' \<and> s_entries st' = s_entries st \<and>
       locks_held st' = locks_held st"
proof (induction n arbitrary: i st cnt)
  case (Suc n)
  let ?e = "s_entries st ! i"
  have at: "i < length (s_entries st)" using Suc.prems(2) by simp
  show ?case
  proof (cases "in_use ?e")
    case True
    then have "attached cfg ok st ?e" using Suc.prems(1) at by (simp add: shell_ok_def)
    then obtain ctx sch where "entry_ctx st ?e = Some ctx" "ctx_schema ctx = Some sch"
      by (auto simp: attached_def entry_ctx_def elim!: ctx_okE)
    with True at Suc.prems Suc.IH [of "say _ st" "Suc i"] show ?thesis by (simp add: arr_get_Some Let_def)
  next
    case False
    with at Suc.prems Suc.IH [of st "Suc i"] show ?thesis by (simp add: arr_get_Some)
  qed
qed simp

lemma list_safe:
  assumes "shell_ok cfg ok st"
  shows "command_safe cfg ok st (cmd_mconf_list argv st)"
proof -
  let ?st = "say (Shell_Print ''Registered microconf configurations:'') (shell_mutex_lock st)"
  obtain cnt st' where "list_loop ?st 0 MCONF_SHELL_MAX_INSTANCES 0 = Some (cnt, st')" "shell_ok cfg ok st'"
      "s_entries st' = s_entries st" "locks_held st' = Suc (locks_held st)"
    using list_loop_runs [of cfg ok ?st 0 MCONF_SHELL_MAX_INSTANCES 0] assms entries_length [OF assms] by auto
  then show ?thesis by (simp add: cmd_mconf_list_def command_safe_def Let_def)
qed

text \<open>\<open>set\<close>\<close>

lemma find_key_runs:
  assumes "ctx_ok cfg ctx"
  obtains "\<exists>err. err \<noteq> MCONF_OK \<and> mconf_find cfg (Some ctx) (Some k) (Some 0) = Some (err, Some 0)"
  | i :: size_t where "mconf_find cfg (Some ctx) (Some k) (Some 0) = Some (MCONF_OK, Some i)"
      "unat i < length (ctx_entries ctx)" "key (ctx_entries ctx ! unat i) = Some k"
proof (cases "ENABLE_NAMES cfg")
  case False
  then show thesis using that(1) assms by (simp add: mconf_find_def require_context_ok [OF assms])
next
  case True
  note find = find_eq [OF assms True, of k 0]
  show thesis
  proof (cases "List.find (\<lambda>j. key (ctx_entries ctx ! j) = Some k) [0..<length (ctx_entries ctx)]")
    case None
    with find that(1) show thesis by simp
  next
    case (Some i)
    then have i: "i < length (ctx_entries ctx)" "key (ctx_entries ctx ! i) = Some k" by (auto simp: find_Some_iff)
    obtain sch where sch: "ctx_schema ctx = Some sch" using assms by (elim ctx_okE) auto
    have "unat (entry_count sch) < 2 ^ 64" using unsigned_less [of "entry_count sch", where ?'a = nat] by simp
    then have "i < 2 ^ 64" using i(1) ctx_length_entries [OF assms sch] by simp
    then have "unat (of_nat i :: size_t) = i" by (simp add: unat_of_nat take_bit_nat_eq_self)
    with Some find i that(2) show thesis by simp
  qed
qed

lemma set_from_text_effect:
  assumes "ctx_ok cfg ctx" and "length v + 1 < 2 ^ 64"
  shows "set_from_text cfg libc (Some ctx) index ty v = None \<or>
    (\<exists>err p'. set_from_text cfg libc (Some ctx) index ty v = Some (Some (err, p')) \<and>
       setter_effect ctx (unat index) err p')"
proof (cases "ty = MCONF_TYPE_STRING")
  case True
  have "(of_nat (Suc (length v)) :: size_t) \<noteq> 0"
    using assms(2) by (auto simp: word_of_nat_eq_0_iff simp del: of_nat_Suc dest!: dvd_imp_le)
  moreover have "unat (of_nat (length v) :: size_t) = length v"
    using assms(2) by (simp add: unat_of_nat take_bit_nat_eq_self)
  ultimately have "caller_ok ctx (ExtPtr (c_bytes v @ [0])) (of_nat (length v))"
    by (simp add: caller_ok_def c_bytes_def add.commute)
  from set_string_effect [OF assms(1) this, of index "Some 0"] True show ?thesis
    by (elim exE conjE) (simp add: set_from_text_def)
next
  case False
  note scalar = set_typed_scalar_effect [OF assms(1)]
  show ?thesis
    using False
    by (auto simp: set_from_text_def mconf_set_bool_def mconf_set_u8_def mconf_set_u16_def mconf_set_u32_def
      mconf_set_i32_def mconf_set_float_def set_word32_def intro!: scalar)
qed

lemma setter_effect_data:
  assumes "ctx_ok cfg ctx" and "setter_effect ctx i err p'"
  obtains d where "p' = Some (ctx\<lparr>ctx_data := Some d\<rparr>)" "length d = length (ctx_bytes ctx)"
proof (cases "err = MCONF_OK")
  case True
  with assms that show thesis by (auto simp: setter_effect_def ctx_put_def length_field_put [OF ctx_layout])
next
  case False
  with assms that [of "ctx_bytes ctx"] show thesis by (simp add: setter_effect_def ctx_set_own_data)
qed

lemma set_safe:
  assumes "shell_ok cfg ok st" and "\<forall>a \<in> set argv. length a + 1 < 2 ^ 64"
  shows "command_safe cfg ok st (cmd_mconf_set cfg libc argv st)"
proof (cases "length argv < 4")
  case True
  then show ?thesis using assms by (simp add: cmd_mconf_set_def command_safe_usage errno_defs)
next
  case False
  note cmd = cmd_mconf_set_def [of cfg libc argv st] find_after_lock [OF assms(1)] Let_def
  show ?thesis
  proof (cases "entry_index (s_entries st) (argv ! 1)")
    case None
    with False assms show ?thesis by (simp add: cmd command_safe_end errno_defs)
  next
    case (Some i)
    obtain ctx where ctx: "entry_ctx st (s_entries st ! i) = Some ctx" "ctx_ok cfg ctx"
      by (rule found_context [OF assms(1) Some])
    show ?thesis
    proof (cases rule: find_key_runs [OF ctx(2), of "argv ! 2"])
      case 1
      with False Some ctx assms show ?thesis by (auto simp: cmd command_safe_end errno_defs)
    next
      case (2 index)
      let ?set = "set_from_text cfg libc (Some ctx) index (entry_type (ctx_entries ctx ! unat index)) (argv ! 3)"
      have "length (argv ! 3) + 1 < 2 ^ 64" using False assms(2) by simp
      from set_from_text_effect [OF ctx(2) this, of libc index "entry_type (ctx_entries ctx ! unat index)"]
      consider "?set = None" | err p' where "?set = Some (Some (err, p'))" "setter_effect ctx (unat index) err p'"
        by (elim disjE exE conjE)
      then show ?thesis
      proof cases
        case 1
        with False Some ctx assms(1) 2 show ?thesis
          by (simp add: cmd entry_at_eq [OF ctx(2)] command_safe_end errno_defs)
      next
        case run: (2 err p')
        obtain d where "p' = Some (ctx\<lparr>ctx_data := Some d\<rparr>)" "length d = length (ctx_bytes ctx)"
          by (rule setter_effect_data [OF ctx(2) run(2)])
        with command_safe_set [OF assms(1) ctx] run(1) False Some ctx(1) 2 show ?thesis
          by (simp add: cmd entry_at_eq [OF ctx(2)] errno_defs)
      qed
    qed
  qed
qed

section \<open>Commands that print fields\<close>

text \<open>A print stops inside the data: every string of the configuration ends inside its field.\<close>

definition strings_end :: "mconf_ctx \<Rightarrow> bool" where
  "strings_end ctx \<longleftrightarrow>
     (\<forall>i < length (ctx_entries ctx). entry_type (ctx_entries ctx ! i) = MCONF_TYPE_STRING \<longrightarrow> 0 \<in> set (ctx_field ctx i))"

definition printable :: "'s shell_state \<Rightarrow> bool" where
  "printable st \<longleftrightarrow> (\<forall>e \<in> set (s_entries st). \<forall>ctx. in_use e \<longrightarrow> entry_ctx st e = Some ctx \<longrightarrow> strings_end ctx)"

text \<open>A computation that returns and has changed the console at most.\<close>

definition prints :: "'s shell_state \<Rightarrow> 's shell_state option \<Rightarrow> bool" where
  "prints st r \<longleftrightarrow> (\<exists>out. r = Some (st\<lparr>console := out\<rparr>))"

lemma prints_console [simp]: "prints (st\<lparr>console := out\<rparr>) r = prints st r"
  by (simp add: prints_def)

lemma prints_said [simp]: "prints (say x st) r = prints st r"
  by (simp add: say_def)

lemma prints_Some [simp]: "prints st (Some st)"
  by (auto simp: prints_def intro!: exI [of _ "console st"])

lemma prints_say [simp]: "prints st (Some (say x st))" "prints st (Some (say x (st\<lparr>console := out\<rparr>)))"
  by (auto simp: prints_def say_def)

lemma prints_bind:
  "prints st r \<Longrightarrow> (\<And>out. prints st (f (st\<lparr>console := out\<rparr>))) \<Longrightarrow> prints st (r \<bind> f)"
  by (auto simp: prints_def)

lemma hex_loop_prints: "data + b + n \<le> length d \<Longrightarrow> prints st (hex_loop d data sz b n st)"
proof (induction n arbitrary: b st)
  case (Suc n)
  from Suc.prems Suc.IH [of "Suc b" "say _ st"] show ?case by (simp add: arr_get_Some)
qed simp

lemma read_c_string_runs: "0 \<in> set (chunk d off n) \<Longrightarrow> \<exists>s. read_c_string d off = Some s"
  by (auto simp: read_c_string_def chunk_def dest: in_set_takeD)

lemma print_scalar:
  assumes "ctx_ok cfg ctx" and "i < length (ctx_entries ctx)" and "mconf_is_scalar_type (entry_type (ctx_entries ctx ! i))"
  shows "prints st (print_field_value cfg libc ctx i st)"
proof -
  let ?e = "ctx_entries ctx ! i"
  have range: "unat (offset ?e) + unat (mconf_expected_type_size (entry_type ?e)) \<le> length (ctx_bytes ctx)"
    using ctx_entry_range [OF assms(1,2)] ctx_entry_ok [OF assms(1,2)] assms(3) by (simp add: entry_ok_def)
  note print = print_field_value_def entry_at_eq [OF assms(1,2)] ctx_data_bytes [OF assms(1)] Let_def
  from assms(3) [unfolded scalar_type_cases] range show ?thesis
    by (elim insertE emptyE) (simp_all add: print mem_simps arr_get_Some mconf_expected_type_size_def)
qed

lemma print_field_prints:
  assumes "ctx_ok cfg ctx" and "i < length (ctx_entries ctx)" and "strings_end ctx"
  shows "prints st (print_field_value cfg libc ctx i st)"
proof -
  let ?e = "ctx_entries ctx ! i" and ?d = "ctx_bytes ctx"
  note print = print_field_value_def entry_at_eq [OF assms(1,2)] ctx_data_bytes [OF assms(1)] Let_def
  consider "mconf_is_scalar_type (entry_type ?e)" | "entry_type ?e = MCONF_TYPE_STRING" | "entry_type ?e = MCONF_TYPE_BLOB"
    | "\<not> mconf_is_scalar_type (entry_type ?e)" "entry_type ?e \<noteq> MCONF_TYPE_STRING" "entry_type ?e \<noteq> MCONF_TYPE_BLOB"
    by blast
  then show ?thesis
  proof cases
    case 1
    then show ?thesis by (rule print_scalar [OF assms(1,2)])
  next
    case 2
    then have "0 \<in> set (chunk ?d (unat (offset ?e)) (unat (entry_size ?e)))"
      using assms(2,3) by (simp add: strings_end_def ctx_field_def field_get_def)
    with 2 show ?thesis by (auto simp: print dest: read_c_string_runs)
  next
    case 3
    have "prints st (hex_loop ?d (unat (offset ?e)) (entry_size ?e) 0 (unat (entry_size ?e)) (say (Shell_Text ''[hex: '') st))"
      using hex_loop_prints [of "unat (offset ?e)" 0 "unat (entry_size ?e)" ?d "say _ st"]
        ctx_entry_range [OF assms(1,2)] by simp
    with 3 show ?thesis by (auto simp: print intro: prints_bind)
  next
    case 4
    then show ?thesis by (simp add: print scalar_type_cases)
  qed
qed

lemma dump_loop_prints:
  assumes "ctx_ok cfg ctx" and "strings_end ctx"
  shows "i + n = length (ctx_entries ctx) \<Longrightarrow> prints st (dump_loop cfg libc ctx i n st)"
proof (induction n arbitrary: i st)
  case (Suc n)
  then have i: "i < length (ctx_entries ctx)" by simp
  have "prints st (print_field_value cfg libc ctx i (say x st))" for x
    using print_field_prints [OF assms(1) i assms(2), of "say x st"] by simp
  moreover have "prints st (dump_loop cfg libc ctx (Suc i) n (st\<lparr>console := out\<rparr>))" for out
    using Suc.IH [of "Suc i" "st\<lparr>console := out\<rparr>"] Suc.prems by simp
  ultimately show ?case by (auto simp: entry_at_eq [OF assms(1) i] Let_def intro: prints_bind)
qed simp

lemma held_console [simp]: "locks_held (st\<lparr>console := out\<rparr>) = locks_held st"
  by (simp add: locks_held_def)

lemma command_safe_print:
  assumes "shell_ok cfg ok st" and "prints (shell_mutex_lock st) r"
  shows "command_safe cfg ok st (do { st \<leftarrow> r; Some (0, shell_mutex_unlock st) })"
proof -
  obtain out where "r = Some ((shell_mutex_lock st)\<lparr>console := out\<rparr>)" using assms(2) by (auto simp: prints_def)
  moreover have "shell_ok cfg ok (shell_mutex_unlock ((shell_mutex_lock st)\<lparr>console := out\<rparr>))"
    using assms(1) by (simp add: shell_ok_def attached_def registry_ok_def)
  ultimately show ?thesis by (simp add: command_safe_def)
qed

lemma found_prints:
  "printable st \<Longrightarrow> entry_index (s_entries st) name = Some i \<Longrightarrow> entry_ctx st (s_entries st ! i) = Some ctx \<Longrightarrow>
     strings_end ctx"
  using entry_index_Some [of "s_entries st" name i] by (auto simp: printable_def)

lemma dump_safe:
  assumes "shell_ok cfg ok st" and "printable st"
  shows "command_safe cfg ok st (cmd_mconf_dump cfg libc argv st)"
proof (cases "length argv < 2")
  case True
  then show ?thesis using assms(1) by (simp add: cmd_mconf_dump_def command_safe_usage errno_defs)
next
  case False
  note cmd = cmd_mconf_dump_def [of cfg libc argv st] find_after_lock [OF assms(1)] Let_def
  show ?thesis
  proof (cases "entry_index (s_entries st) (argv ! 1)")
    case None
    with False assms(1) show ?thesis by (simp add: cmd command_safe_end errno_defs)
  next
    case (Some i)
    obtain ctx where ctx: "entry_ctx st (s_entries st ! i) = Some ctx" "ctx_ok cfg ctx"
      by (rule found_context [OF assms(1) Some])
    obtain sch where sch: "ctx_schema ctx = Some sch" using ctx(2) by (elim ctx_okE) auto
    have "prints (shell_mutex_lock st) (dump_loop cfg libc ctx 0 (unat (entry_count sch)) (say x (shell_mutex_lock st)))" for x
      using dump_loop_prints [OF ctx(2) found_prints [OF assms(2) Some ctx(1)],
          of 0 "unat (entry_count sch)" "say x (shell_mutex_lock st)"] ctx_length_entries [OF ctx(2) sch] by simp
    with False Some ctx(1) sch command_safe_print [OF assms(1)] show ?thesis by (simp add: cmd)
  qed
qed

lemma get_safe:
  assumes "shell_ok cfg ok st" and "printable st"
  shows "command_safe cfg ok st (cmd_mconf_get cfg libc argv st)"
proof (cases "length argv < 3")
  case True
  then show ?thesis using assms(1) by (simp add: cmd_mconf_get_def command_safe_usage errno_defs)
next
  case False
  note cmd = cmd_mconf_get_def [of cfg libc argv st] find_after_lock [OF assms(1)] Let_def
  show ?thesis
  proof (cases "entry_index (s_entries st) (argv ! 1)")
    case None
    with False assms(1) show ?thesis by (simp add: cmd command_safe_end errno_defs)
  next
    case (Some i)
    obtain ctx where ctx: "entry_ctx st (s_entries st ! i) = Some ctx" "ctx_ok cfg ctx"
      by (rule found_context [OF assms(1) Some])
    show ?thesis
    proof (cases rule: find_key_runs [OF ctx(2), of "argv ! 2"])
      case 1
      with False Some ctx assms show ?thesis by (auto simp: cmd command_safe_end errno_defs)
    next
      case (2 index)
      note print = print_field_prints [OF ctx(2) 2(2) found_prints [OF assms(2) Some ctx(1)]]
      from False Some ctx(1) 2 command_safe_print [OF assms(1) print] show ?thesis by (simp add: cmd)
    qed
  qed
qed

section \<open>A registered configuration\<close>

text \<open>The configuration of the tests, registered with its store under the name \<open>app\<close>.\<close>

definition demo_shell :: "fake_store shell_state" where
  "demo_shell = (boot_shell [1 \<mapsto> demo_ctx] [2 \<mapsto> fake_io] fresh_store)
     \<lparr>s_entries := \<lparr>shell_ctx = Some 1, shell_io = Some 2, shell_name = ''app'' @ replicate 21 CHR 0x00, in_use = True\<rparr> #
        replicate 3 empty_entry\<rparr>"

lemma demo_shell_ok: "shell_ok default_config fake_inv demo_shell"
proof -
  have "storage_backend fake_io fs_bytes fake_inv" by (rule fake.storage_backend_axioms)
  then have "attached default_config fake_inv demo_shell (s_entries demo_shell ! 0)"
    by (auto simp: attached_def demo_shell_def boot_shell_def demo_ctx_ok demo_io_fits)
  moreover have "registry_ok demo_shell"
    by (simp add: registry_ok_def demo_shell_def empty_entry_def)
  moreover have "fake_inv (backend demo_shell)"
    by (simp add: demo_shell_def boot_shell_def fresh_store_def fake_inv_def)
  ultimately show ?thesis
    by (simp add: shell_ok_def demo_shell_def empty_entry_def)
qed

section \<open>Properties\<close>

text \<open>
  C32. Whatever is typed, every command returns within the objects of the program, leaves each registered
  configuration well-formed and each backend in its contract, does not touch the registry, and has
  released the mutex. For \<open>dump\<close> and \<open>get\<close> this assumes that the string fields of the registered
  configurations are terminated; without a terminator they print on past the field.
\<close>

theorem shell_commands_safe:
  assumes "shell_ok cfg ok st" and "\<forall>a \<in> set argv. length a + 1 < 2 ^ 64"
    and "(name, cmd) \<in> set (sub_mconf cfg libc)"
    and "name \<in> {''dump'', ''get''} \<longrightarrow> printable st"
  shows "\<exists>rc st'. cmd argv st = Some (rc, st') \<and> shell_ok cfg ok st' \<and> s_entries st' = s_entries st \<and>
    locks_held st' = locks_held st \<and> rc \<le> 0"
proof -
  have "command_safe cfg ok st (cmd argv st)"
    using assms(3,4) list_safe [OF assms(1)] dump_safe [OF assms(1)] get_safe [OF assms(1)] set_safe [OF assms(1,2)]
      save_command_safe [OF assms(1)] load_command_safe [OF assms(1)] defaults_safe [OF assms(1)]
    by (auto simp: sub_mconf_def)
  then show ?thesis by (simp add: command_safe_def)
qed

theorem shell_commands_safe_witness:
  "\<exists>rc st'. cmd_mconf_save default_config [''save'', ''app''] demo_shell = Some (rc, st') \<and>
    shell_ok default_config fake_inv st' \<and> s_entries st' = s_entries demo_shell \<and>
    locks_held st' = locks_held demo_shell \<and> rc \<le> 0"
  by (rule shell_commands_safe [OF demo_shell_ok, of _ "''save''"]) (simp_all add: sub_mconf_def)

end
