(* ===== verification/Mconf_Editing.thy ===== *)
theory Mconf_Editing
  imports Mconf_Commands
begin

text \<open>
  Editing a field from the shell: what \<open>get\<close> prints for a scalar is what \<open>set\<close> reads back, and a string
  that lost its terminator is read past its field.
\<close>

section \<open>What is shown\<close>

text \<open>The text of a scalar field with the bytes \<open>bs\<close>.\<close>

definition shown_value :: "mconf_config \<Rightarrow> mconf_type \<Rightarrow> byte list \<Rightarrow> string" where
  "shown_value cfg ty bs =
     (if ty = MCONF_TYPE_BOOL then if bs \<noteq> [0] then ''true'' else ''false''
      else if ty = MCONF_TYPE_U8 then show_dec (uint (hd bs))
      else if ty = MCONF_TYPE_U16 then show_dec (uint (host_load16 cfg bs))
      else if ty = MCONF_TYPE_U32 then show_dec (uint (host_load32 cfg bs))
      else show_int (sint (host_load32 cfg bs)))"

text \<open>The types that \<open>set\<close> reads from a number or a truth value.\<close>

definition editable :: "mconf_type \<Rightarrow> bool" where
  "editable ty \<longleftrightarrow>
     ty \<in> {MCONF_TYPE_BOOL, MCONF_TYPE_U8, MCONF_TYPE_U16, MCONF_TYPE_U32, MCONF_TYPE_I32}"

lemma editable_scalar:
  "editable ty \<Longrightarrow> scalar_ok cfg ty"
  by (auto simp: editable_def scalar_ok_def scalar_type_cases)

lemma chunk_1: "off < length d \<Longrightarrow> chunk d off 1 = [d ! off]"
  by (simp add: chunk_single)

lemma print_shown:
  assumes "ctx_ok cfg ctx" and "i < length (ctx_entries ctx)" and "editable (entry_type (ctx_entries ctx ! i))"
  shows "print_field_value cfg libc ctx i st =
    Some (say (Shell_Print (shown_value cfg (entry_type (ctx_entries ctx ! i)) (ctx_field ctx i))) st)"
proof -
  let ?e = "ctx_entries ctx ! i"
  have size: "entry_size ?e = mconf_expected_type_size (entry_type ?e)"
    using ctx_entry_ok [OF assms(1,2)] editable_scalar [OF assms(3), of cfg] by (simp add: entry_ok_def scalar_ok_def)
  note print = print_field_value_def entry_at_eq [OF assms(1,2)] ctx_data_bytes [OF assms(1)] Let_def
  from ctx_entry_range [OF assms(1,2)] assms(2,3) show ?thesis
    unfolding editable_def
    by (elim insertE emptyE)
       (simp_all add: print size mconf_expected_type_size_def mem_simps arr_get_Some ctx_field_def field_get_def
          shown_value_def chunk_single)
qed

section \<open>What is read\<close>

lemma uint_lt_64:
  fixes w :: "'a :: len word"
  assumes "LENGTH('a) \<le> 64"
  shows "uint w < 2 ^ 64"
  by (rule order.strict_trans2 [OF unsigned_less power_increasing [OF assms]]) simp

lemma strtoul_uint:
  fixes w :: "'a :: len word"
  assumes "LENGTH('a) \<le> 64"
  shows "ucast (strtoul (show_dec (uint w))) = w"
proof -
  have "ucast (ucast w :: 64 word) = w"
    using assms by (intro bit_word_eqI) (simp add: bit_simps)
  then show ?thesis using strtoul_show_dec [of "uint w"] uint_lt_64 [OF assms, of w] by simp
qed

lemma strtol_sint: "of_int (strtol (show_int (sint (w :: uint32)))) = w"
proof -
  have "- (2 ^ 63) \<le> sint w" "sint w < 2 ^ 63"
    using sint_ge [of w] sint_lt [of w] by simp_all
  then show ?thesis by (simp add: strtol_show_int)
qed

lemma set_shown:
  assumes "ctx_ok cfg ctx" and "unat index < length (ctx_entries ctx)"
    and "editable (entry_type (ctx_entries ctx ! unat index))"
    and "length bs = unat (entry_size (ctx_entries ctx ! unat index))" and "value_ok (ctx_entries ctx ! unat index) bs"
  shows "set_from_text cfg libc (Some ctx) index (entry_type (ctx_entries ctx ! unat index))
      (shown_value cfg (entry_type (ctx_entries ctx ! unat index)) bs) =
    Some (Some (MCONF_OK, Some (ctx_put ctx (unat index) bs)))"
proof -
  let ?e = "ctx_entries ctx ! unat index"
  have size: "entry_size ?e = mconf_expected_type_size (entry_type ?e)"
    using ctx_entry_ok [OF assms(1,2)] editable_scalar [OF assms(3), of cfg] by (simp add: entry_ok_def scalar_ok_def)
  have store: "mconf_set_typed_scalar cfg (Some ctx) index (entry_type ?e) (ExtPtr bs)
      (mconf_expected_type_size (entry_type ?e)) = Some (MCONF_OK, Some (ctx_put ctx (unat index) bs))"
    using assms(4) size by (intro set_typed_scalar_eq [OF assms(1,2) editable_scalar [OF assms(3)] _ refl assms(5)]) simp
  note setters = set_from_text_def shown_value_def mconf_set_bool_def mconf_set_u8_def mconf_set_u16_def mconf_set_u32_def
    mconf_set_i32_def set_word32_def
  consider "entry_type ?e = MCONF_TYPE_BOOL" "bs = [0] \<or> bs = [1]" | "entry_type ?e = MCONF_TYPE_U8" "bs = [hd bs]"
    | "entry_type ?e = MCONF_TYPE_U16" "length bs = 2" | "entry_type ?e = MCONF_TYPE_U32" "length bs = 4"
    | "entry_type ?e = MCONF_TYPE_I32" "length bs = 4"
    using assms(3-5) size unfolding editable_def
    by (cases bs) (auto simp: value_ok_def mconf_expected_type_size_def)
  then show ?thesis
  proof cases
    case 1
    with store show ?thesis by (auto simp: setters strcaseeq_def mconf_expected_type_size_def)
  next
    case 2
    have "[ucast (strtoul (show_dec (uint (hd bs))))] = bs" using 2(2) by (simp add: strtoul_uint)
    with store 2(1) show ?thesis by (simp add: setters mconf_expected_type_size_def)
  next
    case 3
    with store show ?thesis
      by (simp add: setters strtoul_uint host_store_load16 mconf_expected_type_size_def)
  next
    case 4
    with store show ?thesis
      by (simp add: setters strtoul_uint host_store_load32 mconf_expected_type_size_def)
  next
    case 5
    with store show ?thesis
      by (simp add: setters strtol_sint host_store_load32 mconf_expected_type_size_def)
  qed
qed

section \<open>One field of a registered configuration\<close>

lemma find_key_present:
  assumes "ctx_ok cfg ctx" and "ENABLE_NAMES cfg" and "j < length (ctx_entries ctx)" and "key (ctx_entries ctx ! j) = Some k"
  obtains index where "mconf_find cfg (Some ctx) (Some k) (Some 0) = Some (MCONF_OK, Some index)" "unat index = j"
proof (cases rule: find_key_runs [OF assms(1), of k])
  case 1
  with assms find_eq [OF assms(1,2), of k 0] show thesis
    by (auto simp: find_None_iff split: option.splits)
next
  case (2 index)
  have "unat index = j"
    using ctx_keys_distinct [OF assms(1) 2(2) assms(3) 2(3)] assms(4) by auto
  with that 2(1) show thesis by blast
qed

lemma registry_entry:
  assumes "registry st name = Some (Some a, io)"
  obtains i where "entry_index (s_entries st) name = Some i" "shell_ctx (s_entries st ! i) = Some a"
  using assms by (auto simp: registry_def)

lemma set_get_runs:
  assumes "shell_ok cfg ok st" and "ENABLE_NAMES cfg" and "registry st name = Some (Some a, io)"
    and "ctx_at st a = Some ctx" and "j < length (ctx_entries ctx)" and "key (ctx_entries ctx ! j) = Some k"
    and "editable (entry_type (ctx_entries ctx ! j))"
    and "length bs = unat (entry_size (ctx_entries ctx ! j))" and "value_ok (ctx_entries ctx ! j) bs"
  obtains st' where
    "cmd_mconf_set cfg libc [''set'', name, k, shown_value cfg (entry_type (ctx_entries ctx ! j)) bs] st = Some (0, st')"
    "s_entries st' = s_entries st" "ctx_at st' = (ctx_at st)(a \<mapsto> ctx_put ctx j bs)"
    "cmd_mconf_get cfg libc [''get'', name, k] st' = Some (0, shell_mutex_unlock
      (say (Shell_Print (shown_value cfg (entry_type (ctx_entries ctx ! j)) bs)) (shell_mutex_lock st')))"
proof -
  obtain i where i: "entry_index (s_entries st) name = Some i" "shell_ctx (s_entries st ! i) = Some a"
    by (rule registry_entry [OF assms(3)])
  have ctx: "entry_ctx st (s_entries st ! i) = Some ctx" using i(2) assms(4) by (simp add: entry_ctx_def)
  have ok: "ctx_ok cfg ctx" by (rule found_context [OF assms(1) i(1)]) (use ctx in simp)
  obtain index where find: "mconf_find cfg (Some ctx) (Some k) (Some 0) = Some (MCONF_OK, Some index)" "unat index = j"
    by (rule find_key_present [OF ok assms(2,5,6)])
  let ?ctx = "ctx_put ctx j bs" and ?ty = "entry_type (ctx_entries ctx ! j)"
  let ?st = "say (Shell_Print (''Key '' @ quoted k @ '' updated successfully.''))
    (shell_mutex_unlock (put_entry_ctx (s_entries st ! i) (Some ?ctx) (shell_mutex_lock st)))"
  have set: "cmd_mconf_set cfg libc [''set'', name, k, shown_value cfg ?ty bs] st = Some (0, ?st)"
    using set_shown [OF ok, of index bs libc] assms(5,7-9) i find ctx
    by (simp add: cmd_mconf_set_def find_after_lock [OF assms(1)] Let_def entry_at_eq [OF ok] unlock_and_say_def)
  have at: "ctx_at ?st = (ctx_at st)(a \<mapsto> ?ctx)" using i(2) by (simp add: put_entry_ctx_def)
  have ok': "ctx_ok cfg ?ctx" using ctx_fields.wr_inv [OF ok] assms(5,8) by simp
  have field: "ctx_field ?ctx j = bs" using ctx_fields.rd_wr [OF ok] assms(5,8) by simp
  obtain index' where find': "mconf_find cfg (Some ?ctx) (Some k) (Some 0) = Some (MCONF_OK, Some index')" "unat index' = j"
    by (rule find_key_present [OF ok' assms(2), of j]) (use assms(5,6) in simp_all)
  have "entry_ctx ?st (s_entries st ! i) = Some ?ctx" using i(2) at by (simp add: entry_ctx_def)
  moreover have "find_shell_entry_locked (shell_mutex_lock ?st) name = Some (Some i)"
    using i(1) entries_length [OF assms(1)] by (simp add: find_locked_eq)
  ultimately have "cmd_mconf_get cfg libc [''get'', name, k] ?st = Some (0, shell_mutex_unlock
      (say (Shell_Print (shown_value cfg ?ty bs)) (shell_mutex_lock ?st)))"
    using print_shown [OF ok', of j libc "shell_mutex_lock ?st"] assms(5,7) find' field
    by (simp add: cmd_mconf_get_def Let_def)
  with set at show thesis by (intro that [of ?st]) simp_all
qed

definition demo_libc :: shell_libc where
  "demo_libc = \<lparr>format_f = \<lambda>_. ''0.000000'', strtof = \<lambda>_. 0\<rparr>"

section \<open>Properties\<close>

text \<open>
  C33. Text round trip of the shell: for a bool, an unsigned 8-, 16- or 32-bit number or a signed 32-bit
  number of a registered configuration, \<open>set\<close> with the text of a value succeeds and stores exactly that
  value in that field, and \<open>get\<close> then prints the same text.
\<close>

theorem shell_text_roundtrip:
  assumes "shell_ok cfg ok st" and "ENABLE_NAMES cfg" and "registry st name = Some (Some a, io)"
    and "ctx_at st a = Some ctx" and "j < length (ctx_entries ctx)" and "key (ctx_entries ctx ! j) = Some k"
    and "editable (entry_type (ctx_entries ctx ! j))"
    and "length bs = unat (entry_size (ctx_entries ctx ! j))" and "value_ok (ctx_entries ctx ! j) bs"
  shows "\<exists>st'. cmd_mconf_set cfg libc [''set'', name, k, shown_value cfg (entry_type (ctx_entries ctx ! j)) bs] st = Some (0, st') \<and>
    s_entries st' = s_entries st \<and> ctx_at st' = (ctx_at st)(a \<mapsto> ctx_put ctx j bs) \<and>
    cmd_mconf_get cfg libc [''get'', name, k] st' = Some (0, shell_mutex_unlock
      (say (Shell_Print (shown_value cfg (entry_type (ctx_entries ctx ! j)) bs)) (shell_mutex_lock st')))"
  by (rule set_get_runs [OF assms]) blast

theorem shell_text_roundtrip_witness:
  "\<exists>st'. cmd_mconf_set default_config demo_libc [''set'', ''app'', ''interval_ms'', ''1234''] demo_shell = Some (0, st') \<and>
    s_entries st' = s_entries demo_shell \<and> ctx_at st' = (ctx_at demo_shell)(1 \<mapsto> ctx_put demo_ctx 1 [0xD2, 4]) \<and>
    cmd_mconf_get default_config demo_libc [''get'', ''app'', ''interval_ms''] st' = Some (0, shell_mutex_unlock
      (say (Shell_Print ''1234'') (shell_mutex_lock st')))"
proof -
  have shown: "shown_value default_config MCONF_TYPE_U16 [0xD2, 4] = ''1234''" by code_simp
  have named: "registry demo_shell ''app'' = Some (Some 1, Some 2)" by code_simp
  have entry: "entry_type (ctx_entries demo_ctx ! 1) = MCONF_TYPE_U16" "key (ctx_entries demo_ctx ! 1) = Some ''interval_ms''"
    "entry_size (ctx_entries demo_ctx ! 1) = 2" "1 < length (ctx_entries demo_ctx)"
    by (simp_all add: demo_entries_def)
  have at: "ctx_at demo_shell 1 = Some demo_ctx" "ENABLE_NAMES default_config"
    by (simp_all add: demo_shell_def boot_shell_def default_config_def)
  from shell_text_roundtrip [OF demo_shell_ok at(2) named at(1) entry(4,2), of "[0xD2, 4]" demo_libc,
      unfolded entry shown]
  show ?thesis by (simp add: demo_entries_def value_ok_def editable_def)
qed

text \<open>
  A number that does not fit its field is cut to the width of the field, and the command reports success.
\<close>

lemma set_wraps_number:
  assumes "ctx_ok cfg ctx" and "unat index < length (ctx_entries ctx)"
    and "entry_type (ctx_entries ctx ! unat index) = MCONF_TYPE_U16" and "0 \<le> n" and "n < 2 ^ 64"
  shows "set_from_text cfg libc (Some ctx) index MCONF_TYPE_U16 (show_dec n) =
    Some (Some (MCONF_OK, Some (ctx_put ctx (unat index) (host_store16 cfg (of_int n)))))"
proof -
  have "(ucast (of_int n :: 64 word) :: uint16) = of_int n"
    by (intro bit_word_eqI) (simp add: bit_simps)
  moreover have "mconf_set_typed_scalar cfg (Some ctx) index (entry_type (ctx_entries ctx ! unat index))
      (ExtPtr (host_store16 cfg (of_int n))) 2 = Some (MCONF_OK, Some (ctx_put ctx (unat index) (host_store16 cfg (of_int n))))"
    using assms(3)
    by (intro set_typed_scalar_eq [OF assms(1,2) editable_scalar])
       (simp_all add: editable_def mconf_expected_type_size_def value_ok_def)
  ultimately show ?thesis
    using strtoul_show_dec [OF assms(4,5)] assms(3) by (simp add: set_from_text_def mconf_set_u16_def)
qed

text \<open>
  \<open>get\<close> trusts the terminator of a string: where the rest of the data holds no NUL, it reads past the data,
  while \<open>mconf_get_string\<close> reports an error.
\<close>

lemma get_reads_past_string:
  assumes "shell_ok cfg ok st" and "ENABLE_NAMES cfg" and "registry st name = Some (Some a, io)"
    and "ctx_at st a = Some ctx" and "j < length (ctx_entries ctx)" and "key (ctx_entries ctx ! j) = Some k"
    and "entry_type (ctx_entries ctx ! j) = MCONF_TYPE_STRING" and "0 \<notin> set (drop (unat (offset (ctx_entries ctx ! j))) (ctx_bytes ctx))"
  shows "cmd_mconf_get cfg libc [''get'', name, k] st = None"
proof -
  obtain i where i: "entry_index (s_entries st) name = Some i" "shell_ctx (s_entries st ! i) = Some a"
    by (rule registry_entry [OF assms(3)])
  have ctx: "entry_ctx st (s_entries st ! i) = Some ctx" using i(2) assms(4) by (simp add: entry_ctx_def)
  have ok: "ctx_ok cfg ctx" by (rule found_context [OF assms(1) i(1)]) (use ctx in simp)
  obtain index where find: "mconf_find cfg (Some ctx) (Some k) (Some 0) = Some (MCONF_OK, Some index)" "unat index = j"
    by (rule find_key_present [OF ok assms(2,5,6)])
  with i ctx assms(7,8) show ?thesis
    by (simp add: cmd_mconf_get_def find_after_lock [OF assms(1)] Let_def print_field_value_def entry_at_eq [OF ok assms(5)]
      ctx_data_bytes [OF ok] read_c_string_def)
qed

end
