(* ===== verification/Mconf_Samples.thy ===== *)
theory Mconf_Samples
  imports Mconf_Machine Mconf_Devices Mconf_Editing
begin

text \<open>
  The two sample applications (samples/eeprom/src/main.c and samples/flash/src/main.c) and the macros
  with which a client writes its schema (include/mconf.h, lines 112 to 135): the whole path from the
  schema over the driver and the library to the shell.
\<close>

section \<open>Schema entries\<close>

definition MCONF_KEY_LITERAL :: "mconf_config \<Rightarrow> string \<Rightarrow> string option" where
  "MCONF_KEY_LITERAL cfg field_name = (if ENABLE_NAMES cfg then Some field_name else None)"

text \<open>
  \<open>off\<close> and \<open>sz\<close> are \<open>offsetof\<close> and \<open>sizeof\<close> of the field; a default is the object that its pointer
  points to.
\<close>

definition MCONF_ENTRY_ZERO :: "mconf_config \<Rightarrow> string \<Rightarrow> size_t \<Rightarrow> size_t \<Rightarrow> mconf_type \<Rightarrow> mconf_entry" where
  "MCONF_ENTRY_ZERO cfg field_name off sz field_type =
     \<lparr>key = MCONF_KEY_LITERAL cfg field_name, offset = off, entry_size = sz, entry_type = field_type,
      default_value = None, default_size = 0\<rparr>"

definition MCONF_ENTRY_SCALAR ::
  "mconf_config \<Rightarrow> string \<Rightarrow> size_t \<Rightarrow> size_t \<Rightarrow> mconf_type \<Rightarrow> byte list \<Rightarrow> mconf_entry" where
  "MCONF_ENTRY_SCALAR cfg field_name off sz field_type dflt =
     \<lparr>key = MCONF_KEY_LITERAL cfg field_name, offset = off, entry_size = sz, entry_type = field_type,
      default_value = Some dflt, default_size = of_nat (length dflt)\<rparr>"

definition MCONF_ENTRY_STRING :: "mconf_config \<Rightarrow> string \<Rightarrow> size_t \<Rightarrow> size_t \<Rightarrow> string \<Rightarrow> mconf_entry" where
  "MCONF_ENTRY_STRING cfg field_name off sz literal_value =
     \<lparr>key = MCONF_KEY_LITERAL cfg field_name, offset = off, entry_size = sz, entry_type = MCONF_TYPE_STRING,
      default_value = Some (c_bytes literal_value @ [0]), default_size = of_nat (length literal_value + 1) - 1\<rparr>"

definition MCONF_ENTRY_BLOB ::
  "mconf_config \<Rightarrow> string \<Rightarrow> size_t \<Rightarrow> size_t \<Rightarrow> byte list \<Rightarrow> size_t \<Rightarrow> mconf_entry" where
  "MCONF_ENTRY_BLOB cfg field_name off sz dflt default_len =
     \<lparr>key = MCONF_KEY_LITERAL cfg field_name, offset = off, entry_size = sz, entry_type = MCONF_TYPE_BLOB,
      default_value = Some dflt, default_size = default_len\<rparr>"

text \<open>\<open>struct app_config\<close> and \<open>struct device_config\<close> as a compiler lays them out: four fields at 0, 2, 4 and 8.\<close>

definition app_entries :: "mconf_config \<Rightarrow> mconf_entry list" where
  "app_entries cfg =
     [MCONF_ENTRY_SCALAR cfg ''dhcp_enabled'' 0 1 MCONF_TYPE_BOOL [1],
      MCONF_ENTRY_SCALAR cfg ''port'' 2 2 MCONF_TYPE_U16 (host_store16 cfg 8080),
      MCONF_ENTRY_SCALAR cfg ''baudrate'' 4 4 MCONF_TYPE_U32 (host_store32 cfg 115200),
      MCONF_ENTRY_STRING cfg ''node_name'' 8 16 ''zephyr-node-01'']"

definition app_schema :: "mconf_config \<Rightarrow> mconf_schema" where
  "app_schema cfg =
     \<lparr>entries = Some (app_entries cfg), entry_count = 4, schema_version = 1, schema_data_size = 24\<rparr>"

definition device_entries :: "mconf_config \<Rightarrow> mconf_entry list" where
  "device_entries cfg =
     [MCONF_ENTRY_SCALAR cfg ''alert_enabled'' 0 1 MCONF_TYPE_BOOL [0],
      MCONF_ENTRY_SCALAR cfg ''sample_rate_hz'' 2 2 MCONF_TYPE_U16 (host_store16 cfg 100),
      MCONF_ENTRY_SCALAR cfg ''device_id'' 4 4 MCONF_TYPE_U32 (host_store32 cfg 0x12345678),
      MCONF_ENTRY_STRING cfg ''ssid'' 8 20 ''Zephyr-IoT-AP'']"

definition device_schema :: "mconf_config \<Rightarrow> mconf_schema" where
  "device_schema cfg =
     \<lparr>entries = Some (device_entries cfg), entry_count = 4, schema_version = 1, schema_data_size = 28\<rparr>"

text \<open>The schema of the tests is written with the macros too.\<close>

lemma demo_entries_macros:
  "demo_entries =
     [MCONF_ENTRY_SCALAR default_config ''enabled'' 0 1 MCONF_TYPE_BOOL [1],
      MCONF_ENTRY_SCALAR default_config ''interval_ms'' 2 2 MCONF_TYPE_U16 (host_store16 default_config 250),
      MCONF_ENTRY_STRING default_config ''name'' 4 12 ''node-a'',
      MCONF_ENTRY_BLOB default_config ''key'' 16 4 [1, 2, 3, 4] 4]"
  by code_simp

section \<open>The applications\<close>

text \<open>
  The log is a list of lines. The application's static objects are the context at address 1 and the
  interface at address 2, zeroed when \<open>main\<close> starts; the result is the log and the state that the
  shell then works on.
\<close>

datatype log_line = Log_Inf string | Log_Wrn string | Log_Err string

definition show_err :: "mconf_err \<Rightarrow> string" where
  "show_err err = mconf_err_str (mconf_err_code err)"

definition failed_msg :: "string \<Rightarrow> mconf_err \<Rightarrow> log_line" where
  "failed_msg what err = Log_Err (what @ '' failed: '' @ show_err err @ '' ('' @ show_int (mconf_err_code err) @ '')'')"

definition zero_io :: "'s mconf_io" where
  "zero_io = \<lparr>storage_size = 0, slot_size = 0, io_read = None, io_write = None, io_erase = None\<rparr>"

text \<open>The part that both applications share.\<close>

definition load_or_defaults ::
  "mconf_config \<Rightarrow> string \<Rightarrow> string \<Rightarrow> mconf_ctx option \<Rightarrow> 's mconf_io option \<Rightarrow> 's \<Rightarrow>
    (log_line list \<times> mconf_ctx option \<times> 's) option" where
  "load_or_defaults cfg loaded_from medium p io s =
     do { (err, p, s) \<leftarrow> mconf_load cfg p io s;
          if err = MCONF_OK
          then Some ([Log_Inf (''Successfully loaded config from '' @ loaded_from @ ''!'')], p, s)
          else
            do { let warning = Log_Wrn (''No valid configuration found in '' @ medium @ '' ('' @ show_err err @
                   ''). Loading defaults and saving...'');
                 (_, p) \<leftarrow> mconf_load_defaults p;
                 (err, p, s) \<leftarrow> mconf_save cfg p io s;
                 let outcome = (if err = MCONF_OK then Log_Inf (''Defaults saved to '' @ medium @ '' slot.'')
                   else Log_Err (''Failed to save defaults to '' @ medium @ '': '' @ show_err err));
                 Some ([warning, outcome], p, s) } }"

definition register_with_shell ::
  "string \<Rightarrow> string \<Rightarrow> log_line list \<Rightarrow> 's shell_state \<Rightarrow> (log_line list \<times> 's shell_state) option" where
  "register_with_shell name hint log st =
     do { (rc, st) \<leftarrow> mconf_zephyr_shell_register (Some 1) (Some 2) (Some name) st;
          Some (if rc = 0 then log @ [Log_Inf hint] else log, st) }"

definition print_app_config :: "mconf_config \<Rightarrow> byte list \<Rightarrow> log_line list option" where
  "print_app_config cfg m =
     do { node_name \<leftarrow> read_c_string m 8;
          port \<leftarrow> mem_read m 2 2;
          baudrate \<leftarrow> mem_read m 4 4;
          dhcp \<leftarrow> mem_read m 0 1;
          Some [Log_Inf ''Current Configuration:'', Log_Inf (''  node_name   : '' @ node_name),
                Log_Inf (''  port        : '' @ show_dec (uint (host_load16 cfg port))),
                Log_Inf (''  baudrate    : '' @ show_dec (uint (host_load32 cfg baudrate))),
                Log_Inf (''  dhcp_enabled: '' @ (if dhcp \<noteq> [0] then ''true'' else ''false''))] }"

definition eeprom_main ::
  "mconf_config \<Rightarrow> bool \<Rightarrow> ('v, 'd) eeprom_api \<Rightarrow> 'v \<Rightarrow> 'd \<Rightarrow>
    (log_line list \<times> ('v, 'd) eeprom_state shell_state) option" where
  "eeprom_main cfg with_shell drv dev d =
     (let zero = \<lparr>eeprom_dev = None, eeprom_base_offset = 0, eeprom_total_size = 0\<rparr>;
          st = boot_shell [1 \<mapsto> blank_ctx] [2 \<mapsto> zero_io] (Some zero, d);
          log = [Log_Inf ''=== microconf Zephyr EEPROM Sample ==='']
      in if \<not> device_is_ready drv dev d
         then Some (log @ [Log_Err ''No ready EEPROM device found. Ensure devicetree has an enabled EEPROM node.''], st)
         else
           do { (err, p) \<leftarrow> mconf_init cfg (Some blank_ctx) sizeof_mconf_t (Some (app_schema cfg)) (Some (replicate 24 0)) 24;
                let st = st\<lparr>ctx_at := (ctx_at st)(1 := p)\<rparr>;
                if err \<noteq> MCONF_OK then Some (log @ [failed_msg ''mconf_init'' err], st)
                else
                  do { let (rc, c, io) = mconf_zephyr_eeprom_init drv (Some zero) (Some dev) 0 0 (Some zero_io) d;
                       let st = st\<lparr>io_at := (io_at st)(2 := io), backend := (c, d)\<rparr>;
                       if rc \<noteq> 0
                       then Some (log @ [Log_Err (''mconf_zephyr_eeprom_init failed: '' @ show_int rc)], st)
                       else
                         do { (lines, p, s) \<leftarrow> load_or_defaults cfg ''EEPROM'' ''EEPROM'' p io (c, d);
                              ctx \<leftarrow> p;
                              m \<leftarrow> ctx_data ctx;
                              config \<leftarrow> print_app_config cfg m;
                              let st = st\<lparr>ctx_at := (ctx_at st)(1 := p), backend := s\<rparr>;
                              if with_shell
                              then register_with_shell ''app''
                                ''Registered with shell as 'app'. Try 'mconf dump app' or 'mconf --help' in console.''
                                (log @ lines @ config) st
                              else Some (log @ lines @ config, st) } } })"

definition show_hex8 :: "uint32 \<Rightarrow> string" where
  "show_hex8 w = concat (map show_hex2 (rev (mconf_write_u32_le w)))"

definition print_device_config :: "mconf_config \<Rightarrow> byte list \<Rightarrow> log_line list option" where
  "print_device_config cfg m =
     do { ssid \<leftarrow> read_c_string m 8;
          rate \<leftarrow> mem_read m 2 2;
          id \<leftarrow> mem_read m 4 4;
          alert \<leftarrow> mem_read m 0 1;
          Some [Log_Inf ''Current Configuration:'', Log_Inf (''  ssid          : '' @ ssid),
                Log_Inf (''  sample_rate_hz: '' @ show_dec (uint (host_load16 cfg rate)) @ '' Hz''),
                Log_Inf (''  device_id     : 0x'' @ show_hex8 (host_load32 cfg id)),
                Log_Inf (''  alert_enabled : '' @ (if alert \<noteq> [0] then ''true'' else ''false''))] }"

text \<open>\<open>storage_partition\<close> is the identifier of the partition, if the device tree has one.\<close>

definition flash_main ::
  "mconf_config \<Rightarrow> bool \<Rightarrow> ('f, 'd) flash_api \<Rightarrow> byte option \<Rightarrow> 'd \<Rightarrow>
    (log_line list \<times> ('f, 'd) flash_state shell_state) option" where
  "flash_main cfg with_shell drv storage_partition d =
     (let zero = \<lparr>flash_fa = None, flash_area_id = 0, flash_base_offset = 0, flash_total_size = 0\<rparr>;
          st = boot_shell [1 \<mapsto> blank_ctx] [2 \<mapsto> zero_io] (Some zero, d);
          log = [Log_Inf ''=== microconf Zephyr Flash Partition Sample ==='']
      in do { (err, p) \<leftarrow> mconf_init cfg (Some blank_ctx) sizeof_mconf_t (Some (device_schema cfg)) (Some (replicate 28 0)) 28;
              let st = st\<lparr>ctx_at := (ctx_at st)(1 := p)\<rparr>;
              if err \<noteq> MCONF_OK then Some (log @ [failed_msg ''mconf_init'' err], st)
              else
                (case storage_partition of
                   None \<Rightarrow> Some (log @ [Log_Err ''storage_partition does not exist in devicetree''], st)
                 | Some area_id \<Rightarrow>
                     do { (rc, c, io, d) \<leftarrow> mconf_zephyr_flash_init drv (Some zero) area_id (Some zero_io) d;
                          let st = st\<lparr>io_at := (io_at st)(2 := io), backend := (c, d)\<rparr>;
                          if rc \<noteq> 0
                          then Some (log @ [Log_Err (''mconf_zephyr_flash_init failed: '' @ show_int rc)], st)
                          else
                            do { (lines, p, s) \<leftarrow> load_or_defaults cfg ''Flash partition'' ''Flash'' p io (c, d);
                                 ctx \<leftarrow> p;
                                 m \<leftarrow> ctx_data ctx;
                                 config \<leftarrow> print_device_config cfg m;
                                 let st = st\<lparr>ctx_at := (ctx_at st)(1 := p), backend := s\<rparr>;
                                 if with_shell
                                 then register_with_shell ''dev''
                                   ''Registered with shell as 'dev'. Try 'mconf dump dev' or 'mconf --help' in console.''
                                   (log @ lines @ config) st
                                 else Some (log @ lines @ config, st) } }) })"

section \<open>The schemas are valid\<close>

text \<open>The build options that the samples need, and a backend that their records fit.\<close>

definition sample_build :: "mconf_config \<Rightarrow> bool" where
  "sample_build cfg \<longleftrightarrow> 4 \<le> MAX_ENTRIES cfg \<and> 14 \<le> MAX_KEY_LEN cfg"

definition sample_io :: "'s mconf_io \<Rightarrow> bool" where
  "sample_io io \<longleftrightarrow> 64 \<le> unat (storage_size io) \<and> even (unat (storage_size io)) \<and>
     unat (storage_size io) < 2 ^ 32 \<and> slot_size io = storage_size io div 2"

lemmas macro_defs = MCONF_ENTRY_SCALAR_def MCONF_ENTRY_STRING_def MCONF_KEY_LITERAL_def

lemma sample_schemas_live [simp]:
  "live_entries (app_schema cfg) = app_entries cfg" "live_entries (device_schema cfg) = device_entries cfg"
  by (simp_all add: live_entries_def app_schema_def device_schema_def app_entries_def device_entries_def)

lemma sample_sizes [simp]: "config_size (app_schema cfg) = 24" "config_size (device_schema cfg) = 28"
  by (simp_all add: config_size_def app_schema_def device_schema_def)

lemma sample_schemas_ok:
  assumes "sample_build cfg"
  shows "schema_ok cfg (app_schema cfg)" "schema_ok cfg (device_schema cfg)"
proof -
  have key: "n \<le> unat (MAX_KEY_LEN cfg)" if "n \<le> 14" for n
    using assms that by (simp add: sample_build_def word_le_nat_alt)
  show "schema_ok cfg (app_schema cfg)" "schema_ok cfg (device_schema cfg)"
    using assms unfolding schema_ok_def sample_schemas_live
    by (simp_all add: sample_build_def app_schema_def device_schema_def)
       (simp_all add: app_entries_def device_entries_def macro_defs entry_ok_def entry_end_def
          mconf_is_scalar_type_def mconf_expected_type_size_def default_ok_def known_type_def
          entries_compatible_def same_key_def key)
qed

lemma sample_clients_ok: "client_ok (app_schema cfg)" "client_ok (device_schema cfg)"
  by (simp_all add: client_ok_def)
     (simp_all add: schema_array_ok_def app_schema_def device_schema_def app_entries_def device_entries_def
        macro_defs c_bytes_def)

lemma small_device_ok:
  assumes "schema_ok cfg sch" and "client_ok sch" and "sample_io io" and "unat (schema_data_size sch) < 2 ^ 32"
    and "\<forall>e \<in> set (live_entries sch). unat (entry_size e) < 65536"
  shows "device_ok cfg sch io"
proof -
  obtain h where h: "unat (storage_size io) = 2 * h" using assms(3) by (auto simp: sample_io_def)
  then have "unat (slot_size io) = h" using assms(3) by (simp add: sample_io_def unat_div)
  with h assms show ?thesis by (simp add: device_ok_def sample_io_def)
qed

lemma sample_devices_ok:
  assumes "sample_build cfg" and "sample_io io"
  shows "device_ok cfg (app_schema cfg) io" "device_ok cfg (device_schema cfg) io"
proof -
  have "unat (schema_data_size (app_schema cfg)) < 2 ^ 32" "unat (schema_data_size (device_schema cfg)) < 2 ^ 32"
    by (simp_all add: app_schema_def device_schema_def)
  moreover have "\<forall>e \<in> set (app_entries cfg). unat (entry_size e) < 65536"
    "\<forall>e \<in> set (device_entries cfg). unat (entry_size e) < 65536"
    by (simp_all add: app_entries_def device_entries_def macro_defs)
  ultimately show "device_ok cfg (app_schema cfg) io" "device_ok cfg (device_schema cfg) io"
    using sample_schemas_ok [OF assms(1)] sample_clients_ok assms(2) by (simp_all add: small_device_ok)
qed

lemma sample_defaults_valid:
  assumes "sample_build cfg" and "sample_io io"
  shows "data_valid cfg (app_entries cfg) (defaults_of (app_schema cfg))"
    and "data_valid cfg (device_entries cfg) (defaults_of (device_schema cfg))"
proof -
  have fields: "data_valid cfg (live_entries sch) (defaults_of sch)"
    if "device_ok cfg sch io" "\<forall>e \<in> set (live_entries sch). field_error cfg e (default_bytes e) = MCONF_OK" for sch
    using defaults_image_fields(2) [OF device_ctx_ok [OF that(1)], of "replicate (config_size sch) 0"] that(2)
    by (simp add: data_valid_def defaults_of_def)
  show "data_valid cfg (app_entries cfg) (defaults_of (app_schema cfg))"
    "data_valid cfg (device_entries cfg) (defaults_of (device_schema cfg))"
    using fields [OF sample_devices_ok(1) [OF assms]] fields [OF sample_devices_ok(2) [OF assms]]
    by (simp_all add: app_entries_def device_entries_def macro_defs field_error_OK_iff value_ok_def default_bytes_def c_bytes_def)
qed

section \<open>Loading or installing the defaults\<close>

context torn_backend
begin

text \<open>A load without a stored configuration, followed by a save of the defaults.\<close>

lemma load_or_defaults_runs:
  assumes dev: "device_ok cfg sch io" and d: "length d = config_size sch" and s: "inv s"
    and valid: "data_valid cfg (live_entries sch) (defaults_of sch)"
  obtains log d' s' where "load_or_defaults cfg from medium (Some (config_ctx sch d)) (Some io) s =
      Some (log, Some (config_ctx sch d'), s')"
    "length d' = config_size sch" "inv s'" "data_valid cfg (live_entries sch) d'"
    "case durable cfg sch io (contents s) of Some stored \<Rightarrow> d' = stored \<and> contents s' = contents s
     | None \<Rightarrow> d' = defaults_of sch \<or> d' = normal sch (defaults_of sch)"
proof (rule load_eq [OF device_ctx_ok [OF dev d] device_io_fits [OF dev d] s])
  fix err d1 s1
  let ?ctx = "config_ctx sch d" and ?def = "config_ctx sch (defaults_of sch)"
  assume load: "mconf_load cfg (Some ?ctx) (Some io) s = Some (err, Some (?ctx\<lparr>ctx_data := Some d1\<rparr>), s1)"
    "length d1 = length (ctx_bytes ?ctx)" "inv s1" "contents s1 = contents s"
    and OK: "err = MCONF_OK \<Longrightarrow>
      \<exists>slot info. slot \<in> {0, 1} \<and> slot_record cfg ?ctx io (contents s) slot True = Some (info, d1)"
    and exact: "\<not> read_fault io contents inv \<Longrightarrow> (err, d1) = load_result cfg ?ctx io (contents s)"
  have result: "(err, d1) = load_result cfg ?ctx io (contents s)" by (rule exact [OF no_read_fault])
  show thesis
  proof (cases "err = MCONF_OK")
    case True
    have "durable cfg sch io (contents s) = Some d1"
      using result True by (auto simp: load_result_durable [OF d] load_error_def split: option.splits if_splits)
    moreover have "data_valid cfg (live_entries sch) d1"
      using OK [OF True] slot_record_valid(2) [OF device_ctx_ok [OF dev d]] by auto
    ultimately show thesis
      using load True d by (intro that [of _ d1 s1]) (simp_all add: load_or_defaults_def)
  next
    case False
    have none: "durable cfg sch io (contents s) = None"
      using result False by (auto simp: load_result_durable [OF d] split: option.splits)
    have d1: "length d1 = config_size sch" using load(2) d by simp
    have len: "length (defaults_of sch) = config_size sch" by (rule defaults_of_length [OF dev])
    note pre = device_ctx_ok [OF dev len] device_io_fits [OF dev len] device_format_fits [OF dev len]
    obtain err2 d2 slot s2 where save: "mconf_save cfg (Some ?def) (Some io) s1 =
        Some (err2, Some (?def\<lparr>ctx_data := Some d2\<rparr>), s2)" "length d2 = length (ctx_bytes ?def)" "inv s2"
      by (rule save_total [OF pre(1,2) load(3)])
    have "d2 = defaults_of sch \<or> d2 = normal sch (defaults_of sch)"
      using save_keeps_data [OF pre load(3) no_read_fault, of err2 "config_ctx sch d2" s2] save(1)
      by (auto simp: config_ctx_def normal_def)
    moreover from this have "data_valid cfg (live_entries sch) d2"
      using valid saved_image_valid [OF pre(1)] by (auto simp: normal_def)
    ultimately show thesis
      using load False save none len
      by (intro that [of _ d2 s2])
         (simp_all add: load_or_defaults_def load_defaults_eq [OF device_ctx_ok [OF dev d1]] defaults_of_eq [OF d1] Let_def)
  qed
qed

end

section \<open>Printing and registering\<close>

lemma valid_strings_end:
  "data_valid cfg (ctx_entries ctx) (ctx_bytes ctx) \<Longrightarrow> strings_end ctx"
  by (auto simp: strings_end_def data_valid_def field_error_OK_iff value_ok_def ctx_field_def)

lemma print_configs:
  "length m = 24 \<Longrightarrow> data_valid cfg (app_entries cfg) m \<Longrightarrow> \<exists>ls. print_app_config cfg m = Some ls"
  "length m = 28 \<Longrightarrow> data_valid cfg (device_entries cfg) m \<Longrightarrow> \<exists>ls. print_device_config cfg m = Some ls"
proof -
  have name: "\<exists>t. read_c_string m 8 = Some t"
    if "data_valid cfg es m" "3 < length es" "entry_type (es ! 3) = MCONF_TYPE_STRING" "offset (es ! 3) = 8" for es
  proof (rule read_c_string_runs)
    have "field_error cfg (es ! 3) (field_get es m 3) = MCONF_OK" using that(1,2) by (simp add: data_valid_def)
    then show "0 \<in> set (chunk m 8 (unat (entry_size (es ! 3))))"
      using that(3,4) by (simp add: field_error_OK_iff value_ok_def field_get_def)
  qed
  show "length m = 24 \<Longrightarrow> data_valid cfg (app_entries cfg) m \<Longrightarrow> \<exists>ls. print_app_config cfg m = Some ls"
    "length m = 28 \<Longrightarrow> data_valid cfg (device_entries cfg) m \<Longrightarrow> \<exists>ls. print_device_config cfg m = Some ls"
    using name [of "app_entries cfg"] name [of "device_entries cfg"]
    by (auto simp: print_app_config_def print_device_config_def mem_simps app_entries_def device_entries_def macro_defs)
qed

text \<open>Registering the only configuration of a device in the empty table.\<close>

definition sample_entry :: "string \<Rightarrow> shell_entry" where
  "sample_entry name = \<lparr>shell_ctx = Some 1, shell_io = Some 2,
     shell_name = name @ replicate (24 - length name) CHR 0x00, in_use = True\<rparr>"

definition sample_shell :: "string \<Rightarrow> mconf_ctx \<Rightarrow> 's mconf_io \<Rightarrow> 's \<Rightarrow> 's shell_state \<Rightarrow> bool" where
  "sample_shell name ctx io s st \<longleftrightarrow>
     s_entries st = sample_entry name # replicate 3 empty_entry \<and> locks_held st = 0 \<and>
     ctx_at st 1 = Some ctx \<and> io_at st 2 = Some io \<and> backend st = s"

lemma register_sample:
  assumes "s_entries st = replicate 4 empty_entry" and "locks_held st = 0" and "ctx_at st 1 = Some ctx"
    and "io_at st 2 = Some io" and "name \<noteq> []" and "CHR 0x00 \<notin> set name" and "length name \<le> 23"
  obtains log' st' where "register_with_shell name hint log st = Some (log', st')" "sample_shell name ctx io (backend st) st'"
proof -
  have stored: "(strncpy (replicate 24 CHR 0x00) name 23)[23 := CHR 0x00] = name @ replicate (24 - length name) CHR 0x00"
    using stored_name [of "replicate 24 CHR 0x00" name] assms(7) by simp
  have four: "s_entries st = [empty_entry, empty_entry, empty_entry, empty_entry]"
    using assms(1) by (simp add: numeral_eq_Suc)
  let ?st = "shell_mutex_lock st"
  have "find_entry_loop (s_entries ?st) name 0 4 = Some None" "free_entry_loop (s_entries ?st) 0 4 = Some (Some 0)"
    unfolding lock_simps(1) four by (simp_all add: numeral_eq_Suc arr_get_Some empty_entry_def)
  then have "mconf_zephyr_shell_register (Some 1) (Some 2) (Some name) st =
      Some (0, shell_mutex_unlock (?st\<lparr>s_entries := sample_entry name # replicate 3 empty_entry\<rparr>))"
    using assms(5) stored unfolding mconf_zephyr_shell_register_def Let_def
    by (simp add: four) (simp add: numeral_eq_Suc empty_entry_def sample_entry_def)
  with assms show thesis
    by (intro that) (auto simp: register_with_shell_def sample_shell_def)
qed

text \<open>The commands of the shell are safe on the result.\<close>

lemma sample_shell_safe:
  assumes "sample_shell name ctx io s st" and "ctx_ok cfg ctx" and "storage_backend io contents ok" and "io_fits io ctx"
    and "ok s" and "data_valid cfg (ctx_entries ctx) (ctx_bytes ctx)" and "length name \<le> 23"
  shows "shell_ok cfg ok st" and "printable st"
proof -
  have entries: "s_entries st = sample_entry name # replicate 3 empty_entry" and at: "ctx_at st 1 = Some ctx" "io_at st 2 = Some io"
    and s: "backend st = s" using assms(1) by (auto simp: sample_shell_def)
  have "attached cfg ok st (sample_entry name)"
    using at assms(2-4) by (auto simp: attached_def sample_entry_def)
  moreover have "registry_ok st"
    using assms(7) by (simp add: registry_ok_def entries sample_entry_def empty_entry_def nth_append)
  ultimately show "shell_ok cfg ok st"
    using assms(5) s by (simp add: shell_ok_def entries empty_entry_def)
  show "printable st"
    using valid_strings_end [OF assms(6)] at
    by (auto simp: printable_def entries empty_entry_def entry_ctx_def sample_entry_def)
qed

lemma sample_registry:
  assumes "sample_shell name ctx io s st" and "CHR 0x00 \<notin> set name"
  shows "registry st name = Some (Some 1, Some 2)"
proof -
  have "c_str (name @ replicate (24 - length name) CHR 0x00) = name" by (rule c_str_padded [OF assms(2)])
  then show ?thesis
    using assms(1) by (simp add: sample_shell_def registry_def entry_index_def upt_conv_Cons entry_named_def sample_entry_def)
qed

lemma defaults_same_value:
  assumes dev: "device_ok cfg sch io" and valid: "data_valid cfg (live_entries sch) (defaults_of sch)"
    and d: "d = defaults_of sch \<or> d = normal sch (defaults_of sch)" and k: "k < length (live_entries sch)"
  shows "same_value (live_entries sch ! k) (ctx_field (config_ctx sch d) k) (default_bytes (live_entries sch ! k))"
proof -
  have len: "length (defaults_of sch) = config_size sch" by (rule defaults_of_length [OF dev])
  have own: "ctx_field (config_ctx sch (defaults_of sch)) k = default_bytes (live_entries sch ! k)"
    using defaults_image_fields(2) [OF device_ctx_ok [OF dev], of "replicate (config_size sch) 0" k] k
    by (simp add: ctx_field_def defaults_of_def)
  have "same_value (live_entries sch ! k) (ctx_field (config_ctx sch (normal sch (defaults_of sch))) k)
      (ctx_field (config_ctx sch (defaults_of sch)) k)"
    using saved_field_value [OF device_ctx_ok [OF dev len]] valid k by (simp add: normal_def)
  with d own show ?thesis by (auto simp: same_value_def)
qed

text \<open>What an application has loaded: the stored configuration, or the default of every field.\<close>

definition booted :: "mconf_schema \<Rightarrow> byte list option \<Rightarrow> mconf_ctx \<Rightarrow> bool" where
  "booted sch stored ctx \<longleftrightarrow>
     (case stored of
        Some d \<Rightarrow> ctx_bytes ctx = d
      | None \<Rightarrow> \<forall>k < length (live_entries sch).
          same_value (live_entries sch ! k) (ctx_field ctx k) (default_bytes (live_entries sch ! k)))"

context torn_backend
begin

text \<open>From the initialised context and interface to the state of the shell.\<close>

lemma boot_runs:
  assumes dev: "device_ok cfg sch io" and s: "inv s" and valid: "data_valid cfg (live_entries sch) (defaults_of sch)"
    and d: "length d = config_size sch" and name: "name \<noteq> []" "CHR 0x00 \<notin> set name" "length name \<le> 23"
    and st: "s_entries st = replicate 4 empty_entry" "locks_held st = 0" "io_at st 2 = Some io"
  obtains lines d' s' where
    "load_or_defaults cfg from medium (Some (config_ctx sch d)) (Some io) s = Some (lines, Some (config_ctx sch d'), s')"
    "length d' = config_size sch" "data_valid cfg (live_entries sch) d'"
    "booted sch (durable cfg sch io (contents s)) (config_ctx sch d')"
    "\<And>hint log. \<exists>log' st'. register_with_shell name hint log
        (st\<lparr>ctx_at := (ctx_at st)(1 := Some (config_ctx sch d')), backend := s'\<rparr>) = Some (log', st') \<and>
      shell_ok cfg inv st' \<and> printable st' \<and> registry st' name = Some (Some 1, Some 2) \<and>
      ctx_at st' 1 = Some (config_ctx sch d')"
proof (rule load_or_defaults_runs [OF dev d s valid, of "from" medium])
  fix log d' s'
  assume run: "load_or_defaults cfg from medium (Some (config_ctx sch d)) (Some io) s = Some (log, Some (config_ctx sch d'), s')"
    "length d' = config_size sch" "inv s'" "data_valid cfg (live_entries sch) d'"
    and outcome: "case durable cfg sch io (contents s) of Some stored \<Rightarrow> d' = stored \<and> contents s' = contents s
     | None \<Rightarrow> d' = defaults_of sch \<or> d' = normal sch (defaults_of sch)"
  let ?st = "st\<lparr>ctx_at := (ctx_at st)(1 := Some (config_ctx sch d')), backend := s'\<rparr>"
  have "\<exists>log' st'. register_with_shell name hint log ?st = Some (log', st') \<and> sample_shell name (config_ctx sch d') io s' st'"
    for hint log
    by (rule register_sample [of ?st "config_ctx sch d'" io name hint log]) (use st name in auto)
  moreover have "booted sch (durable cfg sch io (contents s)) (config_ctx sch d')"
    using outcome defaults_same_value [OF dev valid] by (auto simp: booted_def split: option.splits)
  moreover have "storage_backend io contents inv" by unfold_locales
  note safe = sample_shell_safe [OF _ device_ctx_ok [OF dev run(2)] this device_io_fits [OF dev run(2)] run(3)]
  ultimately show thesis
    using run sample_registry [of name "config_ctx sch d'" io s'] safe [of name] name
    by (intro that [of log d' s']) (auto simp: sample_shell_def, blast)
qed

end

lemma config_ctx_data [simp]: "ctx_data (config_ctx sch d) = Some d"
  by (simp add: config_ctx_def)

lemma sample_inits:
  assumes "sample_build cfg" and "sample_io io"
  shows "mconf_init cfg (Some blank_ctx) sizeof_mconf_t (Some (app_schema cfg)) (Some (replicate 24 0)) 24 =
      Some (MCONF_OK, Some (config_ctx (app_schema cfg) (replicate 24 0)))"
    and "mconf_init cfg (Some blank_ctx) sizeof_mconf_t (Some (device_schema cfg)) (Some (replicate 28 0)) 28 =
      Some (MCONF_OK, Some (config_ctx (device_schema cfg) (replicate 28 0)))"
proof -
  have "schema_data_size (app_schema cfg) = 24" "schema_data_size (device_schema cfg) = 28"
    by (simp_all add: app_schema_def device_schema_def)
  then show "mconf_init cfg (Some blank_ctx) sizeof_mconf_t (Some (app_schema cfg)) (Some (replicate 24 0)) 24 =
      Some (MCONF_OK, Some (config_ctx (app_schema cfg) (replicate 24 0)))"
    "mconf_init cfg (Some blank_ctx) sizeof_mconf_t (Some (device_schema cfg)) (Some (replicate 28 0)) 28 =
      Some (MCONF_OK, Some (config_ctx (device_schema cfg) (replicate 28 0)))"
    using device_init [OF sample_devices_ok(1) [OF assms], of blank_ctx "replicate 24 0"]
      device_init [OF sample_devices_ok(2) [OF assms], of blank_ctx "replicate 28 0"] by simp_all
qed

section \<open>The backends of the samples\<close>

text \<open>The storage of a backend on a whole device, for a state that consists of its context and the hardware.\<close>

definition whole_inv :: "('c option \<times> 'd) mconf_io \<Rightarrow> ('d \<Rightarrow> byte list) \<Rightarrow> ('d \<Rightarrow> bool) \<Rightarrow> 'c \<Rightarrow> byte list \<Rightarrow>
    'c option \<times> 'd \<Rightarrow> bool" where
  "whole_inv io mem dinv c = region_inv io (\<lambda>s. mem (snd s)) (\<lambda>s. fst s = Some c \<and> dinv (snd s)) 0"

lemma whole_device:
  assumes "readable_region io (\<lambda>s. mem (snd s)) (\<lambda>s. fst s = Some c \<and> dinv (snd s)) 0"
    and "length (mem d) = unat (storage_size io)" and "dinv d"
  shows "torn_backend io (region_storage io (\<lambda>s. mem (snd s)) 0) (whole_inv io mem dinv c (mem d))"
    and "whole_inv io mem dinv c (mem d) (Some c, d)"
    and "region_storage io (\<lambda>s. mem (snd s)) 0 (Some c, d) = mem d"
  using readable_region.torn [OF assms(1)] assms(2,3)
  by (simp_all add: whole_inv_def region_inv_def same_outside_def region_storage_def chunk_def)

lemma eeprom_setup:
  assumes "steady_eeprom drv dev capacity mem dinv" and "dinv d" and "device_is_ready drv dev d"
    and "64 \<le> unat capacity" and "even (unat capacity)" and "unat capacity < 2 ^ 32"
  obtains c where "mconf_zephyr_eeprom_init drv (Some z) (Some dev) 0 0 (Some zero_io) d = (0, Some c, Some (eeprom_io drv capacity))"
    "torn_backend (eeprom_io drv capacity) (region_storage (eeprom_io drv capacity) (\<lambda>s. mem (snd s)) 0)
       (whole_inv (eeprom_io drv capacity) mem dinv c (mem d))"
    "whole_inv (eeprom_io drv capacity) mem dinv c (mem d) (Some c, d)"
    "region_storage (eeprom_io drv capacity) (\<lambda>s. mem (snd s)) 0 (Some c, d) = mem d" "sample_io (eeprom_io drv capacity)"
proof -
  have driver: "eeprom_driver drv dev capacity mem dinv" using assms(1) by (simp add: steady_eeprom_def)
  have positive: "0 < capacity" using assms(4) by (simp add: word_less_nat_alt)
  from eeprom_init_runs [OF driver assms(2), of z 0 0 zero_io] obtain rc c io' where
    run: "mconf_zephyr_eeprom_init drv (Some z) (Some dev) 0 0 (Some zero_io) d = (rc, Some c, Some io')" and
    ready: "rc = 0 \<longleftrightarrow> device_is_ready drv dev d \<and> 0 < capacity \<and> 0 + eeprom_region_size capacity 0 0 \<le> capacity \<and>
       64 \<le> eeprom_region_size capacity 0 0 \<and> even (unat (eeprom_region_size capacity 0 0))" and
    set: "rc = 0 \<Longrightarrow> io' = eeprom_io drv (eeprom_total_size c) \<and> eeprom_base_offset c = 0 \<and>
       eeprom_total_size c = eeprom_region_size capacity 0 0 \<and>
       (unat (0 :: size_t) + unat (eeprom_total_size c) < 2 ^ 64 \<longrightarrow> eeprom_region drv dev capacity mem dinv c)"
    by (metis (no_types, lifting))
  have size0: "eeprom_region_size capacity 0 0 = capacity" by (simp add: eeprom_region_size_def)
  have "rc = 0" using ready assms(3-5) positive by (simp add: size0 word_le_nat_alt)
  with run set size_t_bound [of capacity] have
    init: "mconf_zephyr_eeprom_init drv (Some z) (Some dev) 0 0 (Some zero_io) d = (0, Some c, Some (eeprom_io drv capacity))"
    and region: "eeprom_region drv dev capacity mem dinv c" and c: "eeprom_base_offset c = 0"
    and size: "eeprom_total_size c = capacity"
    by (simp_all add: size0)
  have readable: "readable_region (eeprom_io drv capacity) (\<lambda>s. mem (snd s)) (\<lambda>s. fst s = Some c \<and> dinv (snd s)) 0"
    using steady_eeprom_region.in_readable_region [OF steady_eeprom_region.intro [OF region assms(1)]] c size by simp
  have "length (mem d) = unat (storage_size (eeprom_io drv capacity))"
    using eeprom_driver.mem_size [OF driver assms(2)] by (simp add: eeprom_io_def)
  from whole_device [where mem = mem and dinv = dinv, OF readable this assms(2)] init size assms(4-6) show thesis
    by (intro that [of c]) (simp_all add: sample_io_def eeprom_io_def)
qed

lemma flash_setup:
  assumes "flash_area_open drv area_id None d0 = (0, Some fa, d)" and "in_place_flash drv fa mem dinv" and "dinv d"
    and "64 \<le> unat (flash_area_get_size drv fa)" and "even (unat (flash_area_get_size drv fa))"
    and "unat (flash_area_get_size drv fa) < 2 ^ 32" and "flash_fa z = None"
  obtains c where "mconf_zephyr_flash_init drv (Some z) area_id (Some zero_io) d0 =
      Some (0, Some c, Some (flash_io drv (flash_area_get_size drv fa)), d)"
    "torn_backend (flash_io drv (flash_area_get_size drv fa))
       (region_storage (flash_io drv (flash_area_get_size drv fa)) (\<lambda>s. mem (snd s)) 0)
       (whole_inv (flash_io drv (flash_area_get_size drv fa)) mem dinv c (mem d))"
    "whole_inv (flash_io drv (flash_area_get_size drv fa)) mem dinv c (mem d) (Some c, d)"
    "region_storage (flash_io drv (flash_area_get_size drv fa)) (\<lambda>s. mem (snd s)) 0 (Some c, d) = mem d"
    "sample_io (flash_io drv (flash_area_get_size drv fa))"
proof -
  let ?size = "flash_area_get_size drv fa"
  have opened: "flash_area_open drv area_id (flash_fa z) d0 = (0, Some fa, d)" using assms(1,7) by simp
  have driver: "flash_driver drv fa mem dinv" using assms(2) by (simp add: in_place_flash_def steady_flash_def)
  from flash_init_exact_runs [OF opened, of fa zero_io] assms(4,5) obtain c where
    init: "mconf_zephyr_flash_init drv (Some z) area_id (Some zero_io) d0 =
      Some (0, Some c, Some (flash_io drv (flash_total_size c)), d)" by auto
  note start = flash_init_runs [OF opened init]
  have region: "flash_region drv fa mem dinv c" by (rule flash_region_intro [OF start(1-3) driver])
  note size = start(3)
  have readable: "readable_region (flash_io drv ?size) (\<lambda>s. mem (snd s)) (\<lambda>s. fst s = Some c \<and> dinv (snd s)) 0"
    using in_place_region.in_readable_region [OF in_place_region.intro [OF region assms(2)]] size by simp
  have "length (mem d) = unat (storage_size (flash_io drv ?size))"
    using flash_driver.area_mem [OF driver assms(3)] by (simp add: flash_io_def)
  from whole_device [where mem = mem and dinv = dinv, OF readable this assms(3)] init size assms(4-6) show thesis
    by (intro that [of c]) (simp_all add: sample_io_def flash_io_def)
qed

section \<open>The session of the documentation\<close>

text \<open>
  \<open>docs/ZEPHYR_GUIDE.md\<close> shows a session with the EEPROM sample. The registry is that of the sample, with the
  defaults as its data; \<open>console\<close> is what the commands print.
\<close>

definition documented_ctx :: "uint32 \<Rightarrow> mconf_ctx" where
  "documented_ctx h = \<lparr>ctx_schema = Some (app_schema default_config),
     ctx_data = Some ([1, 0, 0x90, 0x1F, 0, 0xC2, 1, 0] @ c_bytes ''zephyr-node-01'' @ [0, 0]), ctx_data_size = 24,
     schema_fingerprint = h, initialized = True\<rparr>"

definition console_after ::
  "mconf_ctx \<Rightarrow> (unit shell_state \<Rightarrow> (int \<times> unit shell_state) option) list \<Rightarrow> shell_out list option" where
  "console_after ctx cmds =
     do { (rc, st) \<leftarrow> mconf_zephyr_shell_register (Some 1) (Some 2) (Some ''app'')
            (boot_shell [1 \<mapsto> ctx] [2 \<mapsto> zero_io] ());
          st \<leftarrow> fold (\<lambda>cmd p. do { st \<leftarrow> p; (rc, st) \<leftarrow> cmd st; Some st }) cmds (Some st);
          Some (console st) }"

theorem documented_session:
  "console_after (documented_ctx h)
     [cmd_mconf_list [''list''], cmd_mconf_dump default_config demo_libc [''dump'', ''app''],
      cmd_mconf_get default_config demo_libc [''get'', ''app'', ''port''],
      cmd_mconf_set default_config demo_libc [''set'', ''app'', ''port'', ''9090''],
      cmd_mconf_get default_config demo_libc [''get'', ''app'', ''port'']] = Some
     [Shell_Print ''Registered microconf configurations:'',
      Shell_Print ''  [app] - 4 schema entries, 24 bytes data, persistence: yes'',
      Shell_Print ''=== Schema dump: app (v1, 4 entries) ==='',
      Shell_Text ''  [ 0] dhcp_enabled             (bool   ,  1B): '', Shell_Print ''true'',
      Shell_Text ''  [ 1] port                     (u16    ,  2B): '', Shell_Print ''8080'',
      Shell_Text ''  [ 2] baudrate                 (u32    ,  4B): '', Shell_Print ''115200'',
      Shell_Text ''  [ 3] node_name                (string , 16B): '', Shell_Print (CHR 0x22 # ''zephyr-node-01'' @ [CHR 0x22]),
      Shell_Print ''8080'', Shell_Print ''Key 'port' updated successfully.'', Shell_Print ''9090'']"
  by code_simp

section \<open>Properties\<close>

text \<open>
  C35. The EEPROM sample boots: on any ready EEPROM of suitable size whose driver keeps its contract, whose
  reads succeed and whose failing writes have stored a first part of their bytes, whatever it holds and
  whichever writes fail, \<open>main\<close> returns with a valid configuration, the stored one if there is one and the
  defaults otherwise, registered under \<open>app\<close> in a state in which every command of the shell is safe.
\<close>

theorem eeprom_sample_boots:
  fixes drv :: "('v, 'd) eeprom_api"
  assumes "steady_eeprom drv dev capacity mem dinv" and "dinv d" and "device_is_ready drv dev d"
    and "64 \<le> unat capacity" and "even (unat capacity)" and "unat capacity < 2 ^ 32" and "sample_build cfg"
  shows "\<exists>log st ok ctx. eeprom_main cfg True drv dev d = Some (log, st) \<and> shell_ok cfg ok st \<and> printable st \<and>
    registry st ''app'' = Some (Some 1, Some 2) \<and> ctx_at st 1 = Some ctx \<and> ctx_entries ctx = app_entries cfg \<and>
    data_valid cfg (app_entries cfg) (ctx_bytes ctx) \<and>
    booted (app_schema cfg) (durable cfg (app_schema cfg) (eeprom_io drv capacity) (mem d)) ctx"
proof -
  let ?zero = "\<lparr>eeprom_dev = None :: 'v option, eeprom_base_offset = 0, eeprom_total_size = 0\<rparr>" and ?io = "eeprom_io drv capacity"
    and ?sch = "app_schema cfg"
  obtain c where init: "mconf_zephyr_eeprom_init drv (Some ?zero) (Some dev) 0 0 (Some zero_io) d = (0, Some c, Some ?io)"
    and torn: "torn_backend ?io (region_storage ?io (\<lambda>s. mem (snd s)) 0) (whole_inv ?io mem dinv c (mem d))"
    and start: "whole_inv ?io mem dinv c (mem d) (Some c, d)" "region_storage ?io (\<lambda>s. mem (snd s)) 0 (Some c, d) = mem d"
    and io: "sample_io ?io"
    by (rule eeprom_setup [OF assms(1-6), of ?zero])
  note dev = sample_devices_ok(1) [OF assms(7) io] and valid = sample_defaults_valid(1) [OF assms(7) io]
  let ?boot = "boot_shell [1 \<mapsto> blank_ctx] [2 \<mapsto> zero_io] (Some ?zero, d)"
  let ?st = "?boot\<lparr>ctx_at := (ctx_at ?boot)(1 := Some (config_ctx ?sch (replicate 24 0))),
      io_at := (io_at ?boot)(2 := Some ?io), backend := (Some c, d)\<rparr>"
  have st: "s_entries ?st = replicate 4 empty_entry" "locks_held ?st = 0" "io_at ?st 2 = Some ?io"
    by (simp_all add: boot_shell_def locks_held_def)
  show ?thesis
  proof (rule torn_backend.boot_runs [OF torn dev start(1) _ _ _ _ _ st, of "replicate 24 0" "''app''" "''EEPROM''" "''EEPROM''"],
      goal_cases)
    case (6 lines d' s')
    obtain ls where ls: "print_app_config cfg d' = Some ls" using print_configs(1) 6(2,3) by auto
    from 6(5) obtain log' st' where "register_with_shell ''app''
        ''Registered with shell as 'app'. Try 'mconf dump app' or 'mconf --help' in console.''
        ([Log_Inf ''=== microconf Zephyr EEPROM Sample ==='' ] @ lines @ ls)
        (?st\<lparr>ctx_at := (ctx_at ?st)(1 := Some (config_ctx ?sch d')), backend := s'\<rparr>) = Some (log', st')"
      "shell_ok cfg (whole_inv ?io mem dinv c (mem d)) st'" "printable st'" "registry st' ''app'' = Some (Some 1, Some 2)"
      "ctx_at st' 1 = Some (config_ctx ?sch d')" by blast
    with 6(1,3,4) ls init assms(3) sample_inits(1) [OF assms(7) io] start(2) show ?case
      by (intro exI [of _ log'] exI [of _ st'] exI [of _ "whole_inv ?io mem dinv c (mem d)"] exI [of _ "config_ctx ?sch d'"])
         (simp add: eeprom_main_def Let_def)
  qed (use valid in simp_all)
qed

text \<open>On the chip whose supply fails after 40 bytes.\<close>

lemma default_sample_build: "sample_build default_config"
  by (simp add: sample_build_def default_config_def)

theorem eeprom_sample_boots_witness:
  "\<exists>log st ok ctx. eeprom_main default_config True chip_api () (erased_chip 40) = Some (log, st) \<and>
    shell_ok default_config ok st \<and> printable st \<and>
    registry st ''app'' = Some (Some 1, Some 2) \<and> ctx_at st 1 = Some ctx \<and> ctx_entries ctx = app_entries default_config \<and>
    data_valid default_config (app_entries default_config) (ctx_bytes ctx) \<and>
    booted (app_schema default_config)
      (durable default_config (app_schema default_config) (eeprom_io chip_api 256) (chip_mem (erased_chip 40))) ctx"
  by (rule eeprom_sample_boots [OF chip.steady_eeprom_axioms erased_chip_ok])
     (simp_all add: default_sample_build, simp add: chip_api_def)

text \<open>
  The flash sample boots in the same way on a partition of suitable size that is written in place, and
  registers its configuration under \<open>dev\<close>.
\<close>

theorem flash_sample_boots:
  fixes drv :: "('f, 'd) flash_api"
  assumes "flash_area_open drv area_id None d0 = (0, Some fa, d)" and "in_place_flash drv fa mem dinv" and "dinv d"
    and "64 \<le> unat (flash_area_get_size drv fa)" and "even (unat (flash_area_get_size drv fa))"
    and "unat (flash_area_get_size drv fa) < 2 ^ 32" and "sample_build cfg"
  shows "\<exists>log st ok ctx. flash_main cfg True drv (Some area_id) d0 = Some (log, st) \<and> shell_ok cfg ok st \<and> printable st \<and>
    registry st ''dev'' = Some (Some 1, Some 2) \<and> ctx_at st 1 = Some ctx \<and> ctx_entries ctx = device_entries cfg \<and>
    data_valid cfg (device_entries cfg) (ctx_bytes ctx) \<and>
    booted (device_schema cfg) (durable cfg (device_schema cfg) (flash_io drv (flash_area_get_size drv fa)) (mem d)) ctx"
proof -
  let ?zero = "\<lparr>flash_fa = None :: 'f option, flash_area_id = 0, flash_base_offset = 0, flash_total_size = 0\<rparr>"
    and ?io = "flash_io drv (flash_area_get_size drv fa)" and ?sch = "device_schema cfg"
  obtain c where init: "mconf_zephyr_flash_init drv (Some ?zero) area_id (Some zero_io) d0 = Some (0, Some c, Some ?io, d)"
    and torn: "torn_backend ?io (region_storage ?io (\<lambda>s. mem (snd s)) 0) (whole_inv ?io mem dinv c (mem d))"
    and start: "whole_inv ?io mem dinv c (mem d) (Some c, d)" "region_storage ?io (\<lambda>s. mem (snd s)) 0 (Some c, d) = mem d"
    and io: "sample_io ?io"
    by (rule flash_setup [OF assms(1-6), of ?zero]) simp_all
  note dev = sample_devices_ok(2) [OF assms(7) io] and valid = sample_defaults_valid(2) [OF assms(7) io]
  let ?boot = "boot_shell [1 \<mapsto> blank_ctx] [2 \<mapsto> zero_io] (Some ?zero, d0)"
  let ?st = "?boot\<lparr>ctx_at := (ctx_at ?boot)(1 := Some (config_ctx ?sch (replicate 28 0))),
      io_at := (io_at ?boot)(2 := Some ?io), backend := (Some c, d)\<rparr>"
  have st: "s_entries ?st = replicate 4 empty_entry" "locks_held ?st = 0" "io_at ?st 2 = Some ?io"
    by (simp_all add: boot_shell_def locks_held_def)
  show ?thesis
  proof (rule torn_backend.boot_runs [OF torn dev start(1) _ _ _ _ _ st, of "replicate 28 0" "''dev''" "''Flash partition''" "''Flash''"],
      goal_cases)
    case (6 lines d' s')
    obtain ls where ls: "print_device_config cfg d' = Some ls" using print_configs(2) 6(2,3) by auto
    from 6(5) obtain log' st' where "register_with_shell ''dev''
        ''Registered with shell as 'dev'. Try 'mconf dump dev' or 'mconf --help' in console.''
        ([Log_Inf ''=== microconf Zephyr Flash Partition Sample ==='' ] @ lines @ ls)
        (?st\<lparr>ctx_at := (ctx_at ?st)(1 := Some (config_ctx ?sch d')), backend := s'\<rparr>) = Some (log', st')"
      "shell_ok cfg (whole_inv ?io mem dinv c (mem d)) st'" "printable st'" "registry st' ''dev'' = Some (Some 1, Some 2)"
      "ctx_at st' 1 = Some (config_ctx ?sch d')" by blast
    with 6(1,3,4) ls init sample_inits(2) [OF assms(7) io] start(2) show ?case
      by (intro exI [of _ log'] exI [of _ st'] exI [of _ "whole_inv ?io mem dinv c (mem d)"] exI [of _ "config_ctx ?sch d'"])
         (simp add: flash_main_def Let_def)
  qed (use valid in simp_all)
qed

theorem flash_sample_boots_witness:
  "\<exists>log st ok ctx. flash_main default_config True flash_chip (Some 3) (erased_chip 40) = Some (log, st) \<and>
    shell_ok default_config ok st \<and> printable st \<and>
    registry st ''dev'' = Some (Some 1, Some 2) \<and> ctx_at st 1 = Some ctx \<and>
    ctx_entries ctx = device_entries default_config \<and>
    data_valid default_config (device_entries default_config) (ctx_bytes ctx) \<and>
    booted (device_schema default_config) (durable default_config (device_schema default_config)
      (flash_io flash_chip (flash_area_get_size flash_chip ())) (chip_mem (erased_chip 40))) ctx"
  by (rule flash_sample_boots [OF _ flash_chip.in_place_flash_axioms erased_chip_ok])
     (simp_all add: default_sample_build flash_chip_def)

end
