(* ===== verification/Mconf_Tests.thy ===== *)
theory Mconf_Tests
  imports Mconf_Machine Mconf_Shell
begin

text \<open>
  The project's own test program (tests/test_all.c, lines 77 to 135), on the store and the schema of
  Mconf_Backend and Mconf_Demo: a context on the object \<open>cfg\<close>, a second one on \<open>loaded\<close>, a save, a save whose
  write fails. It is shown to print \<open>PASS\<close>, from the theorems about loads and saves and not by running it.
\<close>

section \<open>The program\<close>

text \<open>The messages that were printed and the number of failures.\<close>

type_synonym test_report = "int \<times> string list"

definition must :: "bool \<Rightarrow> string \<Rightarrow> test_report \<Rightarrow> test_report" where
  "must condition message r = (if condition then r else (fst r + 1, snd r @ [''FAIL: '' @ message]))"

text \<open>The fields of the object that a context describes, read through the struct.\<close>

definition enabled_of :: "mconf_ctx option \<Rightarrow> byte option" where
  "enabled_of p = do { ctx \<leftarrow> p; d \<leftarrow> ctx_data ctx; bs \<leftarrow> mem_read d 0 1; Some (hd bs) }"

definition interval_of :: "mconf_ctx option \<Rightarrow> uint16 option" where
  "interval_of p = do { ctx \<leftarrow> p; d \<leftarrow> ctx_data ctx; bs \<leftarrow> mem_read d 2 2; Some (host_load16 default_config bs) }"

definition name_of :: "mconf_ctx option \<Rightarrow> string option" where
  "name_of p = do { ctx \<leftarrow> p; d \<leftarrow> ctx_data ctx; read_c_string d 4 }"

definition key_of :: "mconf_ctx option \<Rightarrow> byte list option" where
  "key_of p = do { ctx \<leftarrow> p; d \<leftarrow> ctx_data ctx; mem_read d 16 4 }"

text \<open>Up to the first store: initialisation, defaults and the first changes (lines 96 to 119).\<close>

definition test_setup :: "(test_report \<times> mconf_ctx option \<times> mconf_ctx option) option" where
  "test_setup =
     do { let r = (0, []);
          (err, ctx) \<leftarrow> mconf_init default_config (Some blank_ctx) sizeof_mconf_t (Some demo_schema)
            (Some (replicate 20 0xCC)) 20;
          let r = must (err = MCONF_OK) ''init ctx'' r;
          (err, other_ctx) \<leftarrow> mconf_init default_config (Some blank_ctx) sizeof_mconf_t (Some demo_schema)
            (Some (replicate 20 0xCC)) 20;
          let r = must (err = MCONF_OK) ''init other ctx'' r;
          (err, ctx) \<leftarrow> mconf_load_defaults ctx;
          let r = must (err = MCONF_OK) ''defaults'' r;
          enabled \<leftarrow> enabled_of ctx;
          let r = must (enabled = 1) ''bool default'' r;
          interval_ms \<leftarrow> interval_of ctx;
          let r = must (interval_ms = 250) ''u16 default'' r;
          name \<leftarrow> name_of ctx;
          let r = must (name = ''node-a'') ''string default'' r;
          key \<leftarrow> key_of ctx;
          let r = must (key = [1, 2, 3, 4]) ''blob default'' r;
          (err, ctx, required) \<leftarrow> mconf_set_string ctx 2 (ExtPtr (c_bytes ''node-b'' @ [0])) 6 (Some 0);
          let r = must (err = MCONF_OK) ''set string'' r;
          let r = must (required = Some 7) ''string required capacity'' r;
          (err, ctx) \<leftarrow> mconf_set_u16 default_config ctx 1 500;
          let r = must (err = MCONF_OK) ''set scalar'' r;
          Some (r, ctx, other_ctx) }"

text \<open>The first save and the load of it by the other context (lines 120 to 124).\<close>

definition test_save ::
  "test_report \<times> mconf_ctx option \<times> mconf_ctx option \<Rightarrow> fake_store \<Rightarrow>
    (test_report \<times> mconf_ctx option \<times> mconf_ctx option \<times> fake_store) option" where
  "test_save = (\<lambda>(r, ctx, other_ctx) store.
     do { (err, ctx, store) \<leftarrow> mconf_save default_config ctx (Some fake_io) store;
          let r = must (err = MCONF_OK) ''save committed slot'' r;
          (err, other_ctx, store) \<leftarrow> mconf_load default_config other_ctx (Some fake_io) store;
          let r = must (err = MCONF_OK) ''load newest slot'' r;
          c \<leftarrow> ctx;
          oc \<leftarrow> other_ctx;
          let r = must (schema_fingerprint oc = schema_fingerprint c) ''fingerprint stable'' r;
          interval_ms \<leftarrow> interval_of other_ctx;
          let r = must (interval_ms = 500) ''loaded scalar'' r;
          name \<leftarrow> name_of other_ctx;
          let r = must (name = ''node-b'') ''loaded string'' r;
          Some (r, ctx, other_ctx, store) })"

text \<open>The save whose write fails, and what is loaded after it (lines 126 to 131).\<close>

definition test_fault ::
  "test_report \<times> mconf_ctx option \<times> mconf_ctx option \<times> fake_store \<Rightarrow> test_report option" where
  "test_fault = (\<lambda>(r, ctx, other_ctx, store).
     do { oc \<leftarrow> other_ctx;
          let other_ctx = Some (oc\<lparr>ctx_data := Some (replicate 20 0)\<rparr>);
          let store = store\<lparr>fail_after_write := 1\<rparr>;
          (err, ctx) \<leftarrow> mconf_set_u16 default_config ctx 1 900;
          let r = must (err = MCONF_OK) ''set next scalar'' r;
          (err, ctx, store) \<leftarrow> mconf_save default_config ctx (Some fake_io) store;
          let r = must (err \<noteq> MCONF_OK) ''fault injected save'' r;
          (err, other_ctx, store) \<leftarrow> mconf_load default_config other_ctx (Some fake_io) store;
          let r = must (err = MCONF_OK) ''previous committed slot survives'' r;
          interval_ms \<leftarrow> interval_of other_ctx;
          Some (must (interval_ms = 500) ''old slot retained'' r) })"

definition test_main :: "(int \<times> string list) option" where
  "test_main =
     do { st \<leftarrow> test_setup;
          st \<leftarrow> test_save st fresh_store;
          (failures, out) \<leftarrow> test_fault st;
          Some (if failures = 0 then 0 else 1,
                out @ [''microconf smoke harness: '' @ (if failures = 0 then ''PASS'' else ''FAIL'')]) }"

section \<open>Invariants of the store\<close>

lemma fake_callbacks [simp]:
  "io_read fake_io = Some fake_read" "io_write fake_io = Some fake_write" "io_erase fake_io = Some fake_erase"
  by (simp_all add: fake_io_def)

lemma mem_write_length: "mem_write m off bs = Some m' \<Longrightarrow> length m' = length m"
  by (auto simp: mem_write_eq_Some)

lemma fake_read_state: "fake_read s off buf = Some (rc, buf', s') \<Longrightarrow> s' = s"
  by (auto simp: fake_read_def bind_Some_iff split: if_splits)

text \<open>The store is a torn backend under every invariant of its size that writes and erases keep.\<close>

lemma fake_torn_keeps:
  assumes sub: "\<And>s. ok s \<Longrightarrow> fake_inv s"
    and wr: "\<And>s off bs rc s'. ok s \<Longrightarrow> fake_write s off bs = Some (rc, s') \<Longrightarrow> ok s'"
    and er: "\<And>s off n rc s'. ok s \<Longrightarrow> fake_erase s off n = Some (rc, s') \<Longrightarrow> ok s'"
  shows "torn_backend fake_io fs_bytes ok"
proof (unfold_locales, goal_cases)
  case (5 s off buf)
  with fake.read_spec [OF sub, of s off buf] fake_read_state [of s off buf] show ?case by force
next
  case (6 s off bs)
  with fake.write_spec [OF sub, of s off bs] wr [of s off bs] show ?case by force
next
  case (7 s off n)
  with fake.erase_spec [OF sub, of s off n] er [of s off n] show ?case by force
next
  case (8 s off buf rc buf' s')
  with fake.read_ok [OF sub, of s off buf rc buf' s'] show ?case by simp
next
  case (9 s off bs rc s')
  with fake.write_torn [OF sub, of s off bs rc s'] show ?case by simp
next
  case (10 s off n rc s')
  with fake.erase_torn [OF sub, of s off n rc s'] show ?case by simp
qed (use fake.contents_size sub in simp_all)

text \<open>Without faults the store counts its writes: one that is not erased has been written.\<close>

definition counted :: "fake_store \<Rightarrow> bool" where
  "counted s \<longleftrightarrow> fault_free s \<and> 0 \<le> writes s \<and> (writes s = 0 \<longrightarrow> fs_bytes s = replicate 256 0xFF)"

lemma patch_erased: "off + n \<le> 256 \<Longrightarrow> patch (replicate 256 x) off (replicate n x) = replicate 256 x"
  by (simp add: patch_def flip: replicate_add)

interpretation counted: torn_backend fake_io fs_bytes counted
proof (rule fake_torn_keeps)
  show "counted s \<Longrightarrow> fake_inv s" for s by (simp add: counted_def fault_free_def)
  show "counted s'" if "counted s" "fake_write s off bs = Some (rc, s')" for s off bs rc s'
    using that by (auto simp: counted_def fault_free_def fake_inv_def fake_write_def bind_Some_iff dest: mem_write_length split: if_splits)
  show "counted s'" if "counted s" "fake_erase s off n = Some (rc, s')" for s off n rc s'
    using that
    by (auto simp: counted_def fault_free_def fake_inv_def fake_erase_def bind_Some_iff mem_write_eq_Some patch_erased split: if_splits)
qed

interpretation counted_reliable: reliable_backend fake_io fs_bytes counted
  using fault_free.write_ok fault_free.erase_ok counted.readable_backend_axioms
  by (intro reliable_backend.intro reliable_backend_axioms.intro) (auto simp: counted_def)

text \<open>Once as many writes have succeeded as the fault allows, no further one does.\<close>

definition blocked :: "fake_store \<Rightarrow> bool" where
  "blocked s \<longleftrightarrow> fake_inv s \<and> 0 \<le> fail_after_write s \<and> fail_after_write s \<le> writes s"

lemma blocked_write: "blocked s \<Longrightarrow> fake_write s off bs = Some (-1, s)"
  by (simp add: blocked_def fake_write_def)

interpretation blocked: torn_backend fake_io fs_bytes blocked
proof (rule fake_torn_keeps)
  show "blocked s \<Longrightarrow> fake_inv s" for s by (simp add: blocked_def)
  show "blocked s'" if "blocked s" "fake_write s off bs = Some (rc, s')" for s off bs rc s'
    using that blocked_write [of s off bs] by simp
  show "blocked s'" if "blocked s" "fake_erase s off n = Some (rc, s')" for s off n rc s'
    using that
    by (auto simp: blocked_def fake_inv_def fake_erase_def bind_Some_iff dest: mem_write_length split: if_splits)
qed

lemma io_write_exact_blocked:
  "blocked s \<Longrightarrow> bs \<noteq> [] \<Longrightarrow> mconf_io_write_exact fake_io s off bs = Some (MCONF_ERR_IO, s)"
  by (simp add: mconf_io_write_exact_def blocked_write)

text \<open>A save on such a store fails and the stored configuration stays.\<close>

lemma blocked_save:
  assumes ok: "ctx_ok cfg ctx" and fits: "io_fits fake_io ctx" and s: "blocked s"
    and reads: "newest_reads cfg ctx fake_io (fs_bytes s)"
  shows "\<exists>err s'. mconf_save cfg (Some ctx) (Some fake_io) s = Some (err, Some ctx, s') \<and> err \<noteq> MCONF_OK \<and>
    blocked s' \<and> stored_config cfg ctx fake_io (fs_bytes s') = stored_config cfg ctx fake_io (fs_bytes s)"
proof (rule blocked.save_cases [OF ok fits s])
  fix slot g s1
  assume s1: "blocked s1" "fs_bytes s1 = fs_bytes s" and ready: "save_ready cfg ctx fake_io slot (fs_bytes s)"
    and save: "mconf_save cfg (Some ctx) (Some fake_io) s = save_record cfg ctx fake_io slot
      (take 32 (record_bytes cfg ctx g MCONF_STORAGE_STATE_UNCOMMITTED)) s1"
    and choice: "read_fault fake_io fs_bytes blocked \<or> (slot, g) =
      save_choice (slot_header ctx fake_io (fs_bytes s) 0 True) (slot_header ctx fake_io (fs_bytes s) 1 True)"
  obtain sch where sch: "ctx_schema ctx = Some sch" and slot: "slot \<in> {0, 1}"
    using ready by (auto simp: save_ready_def)
  note facts = save_ready_facts [OF ready] and len = blocked.contents_size [OF s]
  have header: "take 32 (record_bytes cfg ctx g MCONF_STORAGE_STATE_UNCOMMITTED) \<noteq> []" using facts(2) [of g MCONF_STORAGE_STATE_UNCOMMITTED] by (cases "record_bytes cfg ctx g MCONF_STORAGE_STATE_UNCOMMITTED") simp_all
  show ?thesis
  proof (rule blocked.erase_slot [OF s1(1), of cfg ctx slot])
    show "save_ready cfg ctx fake_io slot (fs_bytes s1)" using ready s1(2) by simp
  next
    fix s2
    assume e: "the (io_erase fake_io) s1 (slot * slot_size fake_io) (slot_size fake_io) = Some (0, s2)" "blocked s2"
      "fs_bytes s2 = erased_medium fake_io slot (fs_bytes s1)"
    then have run: "mconf_save cfg (Some ctx) (Some fake_io) s = Some (MCONF_ERR_IO, Some ctx, s2)"
      by (simp add: save save_record_def io_write_exact_blocked [OF _ header])
    have c2: "fs_bytes s2 = erased_medium fake_io slot (fs_bytes s)" using e(3) s1(2) by simp
    have same: "same_outside (fs_bytes s) (fs_bytes s2) (slot_offset fake_io slot) (unat (slot_size fake_io))"
      unfolding c2 by (rule media_same_outside(1) [OF ready])
    have "fs_bytes s2 ! slot_offset fake_io slot \<noteq> 0x4D"
      using facts(1,3) by (simp add: c2 erased_medium_def nth_patch)
    then have gone: "snd (slot_header ctx fake_io (fs_bytes s2) slot True) = None"
      by (rule erased_invisible [OF sch fits slot, rotated]) (rule blocked.contents_size [OF e(2)])
    have "(slot, g) = save_choice (slot_header ctx fake_io (fs_bytes s) 0 True) (slot_header ctx fake_io (fs_bytes s) 1 True)"
      using choice blocked.no_read_fault by blast
    from old_config_kept(1) [OF sch fits len this [symmetric] same gone reads] run e(2) show ?thesis by auto
  next
    fix rc s2
    assume "erase_fault fake_io fs_bytes blocked"
    then show ?thesis
      by (auto simp: erase_fault_def blocked_def fake_inv_def fake_erase_def in_range_256 bind_Some_iff split: if_splits)
  qed
qed auto

section \<open>The run\<close>

text \<open>The data after each phase: \<open>enabled\<close>, a byte of padding, \<open>interval_ms\<close>, \<open>name\<close> and \<open>key\<close>.\<close>

definition test_data :: "byte \<Rightarrow> byte \<Rightarrow> char \<Rightarrow> byte list" where
  "test_data lo hi c = [1, 0, lo, hi] @ c_bytes ''node-'' @ [of_char c] @ replicate 6 0 @ [1, 2, 3, 4]"

abbreviation test_ctx :: "uint32 \<Rightarrow> byte list \<Rightarrow> mconf_ctx" where
  "test_ctx h d \<equiv> \<lparr>ctx_schema = Some demo_schema, ctx_data = Some d, ctx_data_size = 20,
     schema_fingerprint = h, initialized = True\<rparr>"

lemma test_ctx_config: "config_ctx demo_schema d = test_ctx (schema_hash demo_schema) d"
  by (simp add: config_ctx_def) (simp add: demo_schema_def)

text \<open>Nothing that the program does before the save depends on the fingerprint.\<close>

lemma test_steps:
  "mconf_load_defaults (Some (test_ctx h (replicate 20 0xCC))) = Some (MCONF_OK, Some (test_ctx h (test_data 0xFA 0 CHR ''a'')))"
  "mconf_set_string (Some (test_ctx h (test_data 0xFA 0 CHR ''a''))) 2 (ExtPtr (c_bytes ''node-b'' @ [0])) 6 (Some 0) =
     Some (MCONF_OK, Some (test_ctx h (test_data 0xFA 0 CHR ''b'')), Some 7)"
  "mconf_set_u16 default_config (Some (test_ctx h (test_data 0xFA 0 CHR ''b''))) 1 500 =
     Some (MCONF_OK, Some (test_ctx h (test_data 0xF4 1 CHR ''b'')))"
  "mconf_set_u16 default_config (Some (test_ctx h (test_data 0xF4 1 CHR ''b''))) 1 900 =
     Some (MCONF_OK, Some (test_ctx h (test_data 0x84 3 CHR ''b'')))"
  by code_simp+

lemma test_fields:
  "enabled_of (Some (test_ctx h (test_data 0xFA 0 CHR ''a''))) = Some 1"
  "interval_of (Some (test_ctx h (test_data 0xFA 0 CHR ''a''))) = Some 250"
  "name_of (Some (test_ctx h (test_data 0xFA 0 CHR ''a''))) = Some ''node-a''"
  "key_of (Some (test_ctx h (test_data 0xFA 0 CHR ''a''))) = Some [1, 2, 3, 4]"
  "interval_of (Some (test_ctx h (test_data 0xF4 1 CHR ''b''))) = Some 500"
  "name_of (Some (test_ctx h (test_data 0xF4 1 CHR ''b''))) = Some ''node-b''"
  by code_simp+

lemma test_saved_image: "saved_image (test_ctx h (test_data 0xF4 1 CHR ''b'')) = test_data 0xF4 1 CHR ''b''"
  by code_simp

lemma length_test_data: "length (test_data lo hi c) = 20"
  by (simp add: test_data_def c_bytes_def)

lemma test_setup_runs:
  "test_setup = Some ((0, []), Some (config_ctx demo_schema (test_data 0xF4 1 CHR ''b'')),
     Some (config_ctx demo_schema (replicate 20 0xCC)))"
proof -
  have "mconf_init default_config (Some blank_ctx) sizeof_mconf_t (Some demo_schema) (Some (replicate 20 0xCC)) 20 =
      Some (MCONF_OK, Some (test_ctx (schema_hash demo_schema) (replicate 20 0xCC)))"
    using device_init [OF demo_device_ok, of blank_ctx "replicate 20 0xCC"]
    by (simp add: test_ctx_config) (simp add: demo_schema_def)
  then show ?thesis
    by (simp add: test_setup_def test_steps test_fields must_def test_ctx_config)
qed

lemma test_can_save: "save_accepts default_config (config_ctx demo_schema (test_data 0xF4 1 CHR ''b'')) fake_io"
proof -
  let ?d = "test_data 0xF4 1 CHR ''b''" let ?ctx = "config_ctx demo_schema ?d"
  have ok: "ctx_ok default_config ?ctx"
    by (rule device_ctx_ok [OF demo_device_ok]) (simp add: length_test_data demo_config_size)
  have entries: "ctx_entries ?ctx = demo_entries"
    by (simp add: live_entries_def) (simp add: demo_schema_def demo_entries_def)
  have "mconf_validate_data default_config (Some (test_ctx h ?d)) (Some ?d) = Some MCONF_OK" for h
    by code_simp
  then have "mconf_validate_data default_config (Some ?ctx) (Some ?d) = Some MCONF_OK"
    unfolding test_ctx_config .
  moreover have "\<forall>e \<in> set demo_entries. storable default_config e"
    by (simp add: demo_entries_def storable_def scalar_ok_def mconf_is_scalar_type_def)
  moreover have "length (payload default_config demo_entries ?d) = 15" by code_simp
  ultimately show ?thesis
    using validate_data_OK_iff [OF ok, of ?d] entries
    by (simp add: save_accepts_def saveable_def length_test_data)
       (simp add: fake_io_def demo_entries_def)
qed

text \<open>A sound medium that stores the configuration \<open>d\<close>.\<close>

definition holds :: "byte list \<Rightarrow> fake_store \<Rightarrow> bool" where
  "holds d s \<longleftrightarrow> sound_medium default_config demo_schema fake_io (fs_bytes s) \<and>
     durable default_config demo_schema fake_io (fs_bytes s) = Some d"

lemma test_normal: "normal demo_schema (test_data 0xF4 1 CHR ''b'') = test_data 0xF4 1 CHR ''b''"
  by (simp add: normal_def test_ctx_config test_saved_image)

lemma test_load:
  assumes "torn_backend fake_io fs_bytes ok" and "ok s" and "holds d' s" and "length d = 20"
  shows "\<exists>s'. mconf_load default_config (Some (config_ctx demo_schema d)) (Some fake_io) s =
      Some (MCONF_OK, Some (config_ctx demo_schema d'), s') \<and> ok s' \<and> holds d' s'"
proof -
  have "length d = config_size demo_schema" using assms(4) by (simp add: demo_config_size)
  from torn_backend.load_is_step [OF assms(1) demo_device_ok this assms(2)] assms(3) show ?thesis
    by (auto simp: holds_def)
qed

lemma test_save_runs:
  assumes "length d = 20"
  shows "\<exists>s. test_save (r, Some (config_ctx demo_schema (test_data 0xF4 1 CHR ''b'')), Some (config_ctx demo_schema d)) fresh_store =
      Some (r, Some (config_ctx demo_schema (test_data 0xF4 1 CHR ''b'')),
        Some (config_ctx demo_schema (test_data 0xF4 1 CHR ''b'')), s) \<and>
    counted s \<and> holds (test_data 0xF4 1 CHR ''b'') s"
proof -
  let ?d = "test_data 0xF4 1 CHR ''b''" let ?ctx = "config_ctx demo_schema ?d"
  have d: "length ?d = config_size demo_schema" by (simp add: length_test_data demo_config_size)
  note pre = device_ctx_ok [OF demo_device_ok d] device_io_fits [OF demo_device_ok d] device_format_fits [OF demo_device_ok d]
  have fresh: "counted fresh_store" using fresh_store_fault_free by (simp add: counted_def) (simp add: fresh_store_def)
  have sound: "sound_medium default_config demo_schema fake_io (fs_bytes fresh_store)"
    using erased_durable(2) [OF demo_device_ok] by (simp add: fresh_store_def) (simp add: fake_io_def)
  obtain p' s' where run: "mconf_save default_config (Some ?ctx) (Some fake_io) fresh_store = Some (MCONF_OK, p', s')"
    using counted_reliable.save_succeeds [OF pre fresh test_can_save] by blast
  with counted.save_is_step [OF demo_device_ok d fresh sound]
  have saved: "p' = Some ?ctx" "counted s'" "holds ?d s'"
    by (auto simp: holds_def test_normal)
  from test_load [OF counted.torn_backend_axioms saved(2,3) assms] obtain s'' where
    "mconf_load default_config (Some (config_ctx demo_schema d)) (Some fake_io) s' = Some (MCONF_OK, Some ?ctx, s'')"
    "counted s''" "holds ?d s''" by blast
  with run saved(1) show ?thesis
    by (simp add: test_save_def must_def) (simp add: test_ctx_config test_fields)
qed

lemma test_fault_runs:
  assumes "counted s" and "holds (test_data 0xF4 1 CHR ''b'') s" and "length d = 20"
  shows "test_fault (r, Some (config_ctx demo_schema (test_data 0xF4 1 CHR ''b'')), Some (config_ctx demo_schema d), s) = Some r"
proof -
  let ?d = "test_data 0xF4 1 CHR ''b''" and ?d2 = "test_data 0x84 3 CHR ''b''" and ?s = "s\<lparr>fail_after_write := 1\<rparr>"
  have d2: "length ?d2 = config_size demo_schema" by (simp add: length_test_data demo_config_size)
  have "writes s \<noteq> 0"
  proof
    assume "writes s = 0"
    with assms(1) have "fs_bytes s = replicate (unat (storage_size fake_io)) 0xFF"
      by (simp add: counted_def) (simp add: fake_io_def)
    with assms(2) erased_durable(1) [OF demo_device_ok] show False by (simp add: holds_def)
  qed
  with assms(1) have blocked: "blocked ?s" by (simp add: counted_def fault_free_def fake_inv_def blocked_def)
  have "newest_reads default_config (config_ctx demo_schema ?d2) fake_io (fs_bytes ?s)"
    using assms(2) by (simp add: durable_eq [OF d2] holds_def)
  from blocked_save [OF device_ctx_ok [OF demo_device_ok d2] device_io_fits [OF demo_device_ok d2] blocked this]
  obtain err s' where run: "mconf_save default_config (Some (config_ctx demo_schema ?d2)) (Some fake_io) ?s =
      Some (err, Some (config_ctx demo_schema ?d2), s')" "err \<noteq> MCONF_OK" "blocked s'"
    "durable default_config demo_schema fake_io (fs_bytes s') = Some ?d"
    using assms(2) by (auto simp: durable_eq [OF d2] holds_def)
  have "length (replicate 20 0 :: byte list) = config_size demo_schema" by (simp add: demo_config_size)
  from blocked.load_is_step [OF demo_device_ok this run(3)] run(4) obtain s'' where
    "mconf_load default_config (Some (config_ctx demo_schema (replicate 20 0))) (Some fake_io) s' =
      Some (MCONF_OK, Some (config_ctx demo_schema ?d), s'')"
    by auto
  with run(1,2) show ?thesis
    by (simp add: test_fault_def must_def) (simp add: test_ctx_config test_steps test_fields)
qed

text \<open>The program prints \<open>PASS\<close> and exits with 0.\<close>

theorem test_main_passes: "test_main = Some (0, [''microconf smoke harness: PASS''])"
proof -
  obtain s where s: "test_save ((0, []), Some (config_ctx demo_schema (test_data 0xF4 1 CHR ''b'')),
        Some (config_ctx demo_schema (replicate 20 0xCC))) fresh_store =
      Some ((0, []), Some (config_ctx demo_schema (test_data 0xF4 1 CHR ''b'')),
        Some (config_ctx demo_schema (test_data 0xF4 1 CHR ''b'')), s)"
    "counted s" "holds (test_data 0xF4 1 CHR ''b'') s"
    using test_save_runs [of "replicate 20 0xCC" "(0, [])"] by auto
  with test_fault_runs [OF s(2,3) length_test_data, of "(0, [])"] show ?thesis
    by (simp add: test_main_def test_setup_runs)
qed

end
