(* ===== verification/Spec2Isabelle.thy ===== *)
theory Spec2Isabelle
  imports Mconf_Samples Mconf_Tests
begin

text \<open>
  This library models and verifies microconf, a configuration store for microcontrollers in C. A
  schema (an array of \<open>mconf_entry_t\<close>) describes the fields of a client's struct; the library
  validates it, reads and writes single fields, and saves the struct to a storage device with two
  slots so that a reset at any moment leaves the old configuration or the new one.

  The program and its parts. \<open>src/mconf.c\<close> holds the whole library, \<open>include/mconf.h\<close> its types and
  \<open>include/mconf_config.h\<close> its build options. A client calls \<open>mconf_init\<close> once, which validates the
  schema and stores its fingerprint in the context; every other call starts with the guard
  \<open>mconf_require_context\<close>. Accessors work on the client's struct; \<open>mconf_load\<close> and \<open>mconf_save\<close> reach
  the device through the three callbacks of an \<open>mconf_io_t\<close>, which the EEPROM and flash backends under
  \<open>zephyr/\<close> provide. The Zephyr shell edits, saves and loads the contexts that are registered with it; the
  programs under \<open>samples/\<close> put all the parts together.

  Which theory models what, with the lines of \<open>src/mconf.c\<close>:

    \<^item> Mconf_Prelude: machine types, C objects as byte lists, nullable pointers as options.
    \<^item> Mconf_Types: the types of \<open>mconf.h\<close> and \<open>mconf_config.h\<close>, error codes and names (175-197, 408-444).
    \<^item> Mconf_Demo: the schema of the test program (tests/test_all.c), on which theorems are instantiated.
    \<^item> Mconf_Crc: CRC-32 and the FNV hash (81-135).
    \<^item> Mconf_Codec: little-endian encoding of fields (35-79, 240-338).
    \<^item> Mconf_Schema: schema validation and fingerprint (216-238, 358-406, 446-482).
    \<^item> Mconf_Context: guards, \<open>mconf_init\<close>, data validation, defaults, lookup (137-173, 199-214, 340-356,
      484-599). Mconf_Fields and Mconf_Data hold its proofs.
    \<^item> Mconf_Access: the getters and setters (601-833).
    \<^item> Mconf_Storage: the calls of the backend, the slot header, the payload writer and the slot reader
      (14-33, 835-1156). Mconf_Payload, Mconf_Slot, Mconf_Reader, Mconf_Writer and Mconf_Record hold
      its proofs.
    \<^item> Mconf_Persist: \<open>mconf_load\<close> and \<open>mconf_save\<close> (1158-1308). Mconf_Load, Mconf_Save, Mconf_Atomic and
      Mconf_Commit hold its proofs.
    \<^item> Mconf_Backend: the contract of a backend as locales, and the in-memory store of
      tests/test_all.c (37-75) with its write faults, on which the locales are interpreted.

  And of the other sources:

    \<^item> Mconf_Region: the contract of callbacks that work on a part of a larger memory. Mconf_EraseFirst: the
      contract of callbacks on memory that is erased before it is written.
    \<^item> Mconf_Eeprom: \<open>zephyr/src/mconf_zephyr_eeprom.c\<close>, the three callbacks, the erase loop and the init.
    \<^item> Mconf_Flash: \<open>zephyr/src/mconf_zephyr_flash.c\<close>, the callbacks, init and close. Mconf_Devices composes
      both backends with \<open>mconf_save\<close> and \<open>mconf_load\<close>.
    \<^item> Mconf_Libc: what \<open>zephyr/src/mconf_zephyr_shell.c\<close> uses of the C library (\<open>strtoul\<close>, \<open>strtol\<close>,
      \<open>strcasecmp\<close>, \<open>strncpy\<close>, the integer formats of \<open>printf\<close>).
    \<^item> Mconf_Shell: that file: the registry, its mutex, printing of a field and the seven commands.
      Mconf_Registry, Mconf_Commands and Mconf_Editing hold its proofs.
    \<^item> Mconf_Machine: a device over its whole life, as a transition system over \<open>src/mconf.c\<close>.
    \<^item> Mconf_Samples: the entry macros of \<open>mconf.h\<close> (112-130) and the two programs under \<open>samples/\<close>; the
      shell session of \<open>docs/ZEPHYR_GUIDE.md\<close> is replayed on it.
    \<^item> Mconf_Tests: \<open>main\<close> of \<open>tests/test_all.c\<close>, which is shown to pass.

  How state and operations correspond to the code. The context \<open>mconf_t\<close> is the record \<open>mconf_ctx\<close>; the
  client's struct is the byte list \<open>ctx_data\<close>; a call takes the pointers of the C call as options and
  returns the error code with what the pointers hold afterwards. Everything behind \<open>callback_ctx\<close> is a
  state of arbitrary type \<open>'s\<close>, threaded through the callbacks. \<open>None\<close> as the result of a call is
  undefined behaviour: an access outside an object, a null dereference. That a call returns \<open>Some\<close>
  is therefore memory safety, and it is proved of every operation on a context that satisfies the
  invariant \<open>ctx_ok\<close>, which \<open>mconf_init\<close> establishes.

  Specifications and interfaces. The locales of Mconf_Backend form a chain: \<open>storage_backend\<close> (callbacks
  stay inside the device and change only the range they are given, but may fail at will),
  \<open>readable_backend\<close> (reads do not fail), \<open>torn_backend\<close> (a failing write or erase has completed a
  prefix of its range, which is what a power cut does) and \<open>reliable_backend\<close> (nothing fails).
  Mconf_Region has the same for memory that holds the storage as a part: \<open>region\<close> and \<open>readable_region\<close> are
  sublocales of \<open>storage_backend\<close> and \<open>torn_backend\<close>. Mconf_EraseFirst has the contract of memory that has to
  be erased before it is written: \<open>erase_first_backend\<close> promises what a write to erased bytes stores and
  nothing of a write to other bytes, and \<open>torn_erase_first\<close> adds that reads succeed and that interrupted
  writes and erases complete a prefix. Up to its commit, a save on such a backend is a save on a backend
  that refuses to overwrite (\<open>guarded\<close>), which is a torn backend.

  The driver of a chip is a record of functions that are parameters of the model. \<open>eeprom_driver\<close> and
  \<open>flash_driver\<close> say what its documentation promises: any call may fail, a successful one has its
  effect, and a write to flash has it only on erased bytes. What power cuts and fault-free reads add is
  assumed separately: \<open>steady_eeprom\<close> and \<open>steady_flash\<close> (reads succeed, a failing write has stored a prefix).
  Flash is then either written in place (\<open>in_place_flash\<close>) or NOR memory, whose writes only clear bits
  (\<open>nor_flash\<close>), on which every save is shown to be lost. Over \<open>eeprom_driver\<close> the code provides a \<open>region\<close>,
  and over \<open>steady_eeprom\<close> a \<open>readable_region\<close>; over \<open>flash_driver\<close> an \<open>erase_first_backend\<close>, over \<open>steady_flash\<close> a
  \<open>torn_erase_first\<close>, and over \<open>in_place_flash\<close> a \<open>readable_region\<close>. All of them are interpreted on chips, one
  whose supply can fail after any byte and one of NOR memory.
  The locale \<open>field_store\<close> of Mconf_Fields is the contract of fields that do not overlap. The
  pure functions \<open>schema_ok\<close>, \<open>payload\<close>, \<open>slot_record\<close>, \<open>load_result\<close> and \<open>stored_config\<close> say what the
  code is to compute; the refinement lemmas of the proof theories show that it does.
  Mconf_Machine states the contract of the library as a whole: an abstract store is a pair of a live and a
  durable configuration, \<open>store_step\<close> says what each request does to it, and every call in every state
  that \<open>device_run\<close> reaches (boots, calls with failing backends, resets that forget the memory) is such a
  step. A run keeps a history of its saves, and \<open>may_hold\<close> computes from it what the device may hold.

  What the groups of lemmas show: the schema validator accepts exactly the schemas whose entries are
  well-formed, disjoint and have distinct keys; setters change one field and keep the invariant;
  the reader of a slot accepts exactly the records that a parser of the medium's bytes accepts; the
  writer writes exactly the payload; a damaged payload is rejected when the damage lies within four
  consecutive bytes; a save never touches the newest readable slot, and is atomic on a backend that
  tears writes and on erase-first memory; a load computes the newest record or the defaults; both
  backends meet their contracts on the regions that their init functions accept, as long as the end of
  the region does not wrap around; no command of the shell leaves an object (for \<open>dump\<close> and \<open>get\<close> where
  the strings they print are terminated) or keeps the mutex, the registry is a map for names that fit, and the text that \<open>get\<close> prints is what \<open>set\<close> reads; over
  the life of a device no request gets stuck, acknowledged saves survive resets, and a save on a
  backend that has recovered succeeds; both samples boot on any memory content
  (the flash sample on memory that is written in place).

  Bounds and choices. \<open>size_t\<close> is a 64-bit word and wraps; \<open>uint16_t\<close>, \<open>uint32_t\<close> and \<open>uint8_t\<close> are words of
  their width. The host is little-endian with IEEE 754 floats, which is what the guard
  \<open>mconf_is_little_endian_ieee754\<close> tests; the other answer of the guard is a build parameter. All
  loops are counted and are structural recursions, so no fuel is needed. Arrays on the stack start as
  zeros in the model, and the code writes them before it reads them. A typed access to a field at a
  misaligned address reads or stores its bytes: it is not treated as undefined behaviour. An erased byte
  is 0xFF, which is also what the EEPROM backend writes to erase.
  The atomicity theorems assume \<open>newest_reads\<close> of the medium they start from: that the slot with
  the newest valid header also has a readable payload. It holds of an empty device, every save
  re-establishes it, whether it completes or fails, and it cannot be dropped: a save erases the slot
  with the older header without reading the payload of the newer one.
  Floats are their bit patterns; \<open>strtof\<close> and \<open>%f\<close> are parameters of the shell. The erase loop of the EEPROM
  backend is a recursion on the bytes that remain, and ends after one write for every 32 bytes. Pointers
  that the registry stores are addresses into maps from numbers to contexts and to interfaces; the
  mutex is the number of locks that are held.

  Not modelled. The log messages of the backends; the Zephyr shell core, which parses the line and checks
  the number of arguments before it calls a command (the commands are proved safe for any number);
  threads that block on the mutex of the registry, and other concurrency: the library keeps no state
  of its own and asks its clients to serialise calls. The samples take their device from the device
  tree, which is a parameter. The compile-fail tests, the consumers, the build files and the documents
  have no behaviour.
\<close>

section \<open>Saving and loading\<close>

text \<open>
  C2. Saves are atomic. On a backend that tears writes and erases at any byte, a save of any well-formed
  context returns, and wherever it stopped the medium then stores either the configuration it stored
  before or the new one, and still does so in a form from which the next save is atomic again. When it
  reports success the medium stores the new configuration and the context holds it.
\<close>

theorem save_atomic_under_faults:
  assumes "torn_backend io contents ok" and "ctx_ok cfg ctx" and "io_fits io ctx" and "format_fits ctx io"
    and "ok s" and "newest_reads cfg ctx io (contents s)"
  shows "\<exists>err p' s'. mconf_save cfg (Some ctx) (Some io) s = Some (err, p', s') \<and> ok s' \<and>
    newest_reads cfg ctx io (contents s') \<and>
    (if err = MCONF_OK
     then p' = Some (ctx\<lparr>ctx_data := Some (saved_image ctx)\<rparr>) \<and>
       stored_config cfg ctx io (contents s') = Some (saved_image ctx)
     else stored_config cfg ctx io (contents s') \<in>
       {stored_config cfg ctx io (contents s), Some (saved_image ctx)})"
  by (rule torn_backend.save_returns_atomic [OF assms])

theorem save_atomic_under_faults_witness:
  "\<exists>err p' s'. mconf_save default_config (Some demo_ctx) (Some fake_io) (saved_store\<lparr>fail_after_write := 2\<rparr>) =
      Some (err, p', s') \<and> fake_inv s' \<and>
    newest_reads default_config demo_ctx fake_io (fs_bytes s') \<and>
    (if err = MCONF_OK
     then p' = Some (demo_ctx\<lparr>ctx_data := Some (saved_image demo_ctx)\<rparr>) \<and>
       stored_config default_config demo_ctx fake_io (fs_bytes s') = Some (saved_image demo_ctx)
     else stored_config default_config demo_ctx fake_io (fs_bytes s') \<in>
       {stored_config default_config demo_ctx fake_io (fs_bytes (saved_store\<lparr>fail_after_write := 2\<rparr>)),
        Some (saved_image demo_ctx)})"
  by (rule save_atomic_under_faults [OF fake.torn_backend_axioms demo_ctx_ok demo_io_fits demo_format_fits])
     (use saved_store_ok saved_store_newest(1) in \<open>simp_all add: fake_inv_def\<close>)

text \<open>
  C1. The same guarantee without specification functions, on a medium whose slot with the newest valid
  header also has a readable payload, as every save leaves it: a device that restarts after a save that
  stopped anywhere, with whatever is in its working memory, loads either what it would have loaded before
  the save or the configuration that was being saved.
\<close>

theorem restart_loads_old_or_new:
  assumes "torn_backend io contents ok" and "ctx_ok cfg ctx" and "io_fits io ctx" and "format_fits ctx io"
    and "ok s" and "newest_reads cfg ctx io (contents s)" and "length d = length (ctx_bytes ctx)"
  shows "\<exists>err p' s' e0 old s0 e1 new s1.
    mconf_load cfg (Some (ctx\<lparr>ctx_data := Some d\<rparr>)) (Some io) s = Some (e0, Some old, s0) \<and>
    mconf_save cfg (Some ctx) (Some io) s = Some (err, p', s') \<and>
    mconf_load cfg (Some (ctx\<lparr>ctx_data := Some d\<rparr>)) (Some io) s' = Some (e1, Some new, s1) \<and>
    (new = old \<or> (e1 = MCONF_OK \<and> new = ctx\<lparr>ctx_data := Some (saved_image ctx)\<rparr>)) \<and>
    (err = MCONF_OK \<longrightarrow> e1 = MCONF_OK \<and> p' = Some new)"
proof -
  have readable: "readable_backend io contents ok" by (rule torn_backend.axioms(1) [OF assms(1)])
  obtain err p' s' where save: "mconf_save cfg (Some ctx) (Some io) s = Some (err, p', s')" "ok s'"
    "if err = MCONF_OK
     then p' = Some (ctx\<lparr>ctx_data := Some (saved_image ctx)\<rparr>) \<and>
       stored_config cfg ctx io (contents s') = Some (saved_image ctx)
     else stored_config cfg ctx io (contents s') \<in>
       {stored_config cfg ctx io (contents s), Some (saved_image ctx)}"
    using torn_backend.save_returns_atomic [OF assms(1-6)] by blast
  note load = readable_backend.load_runs [OF readable assms(2,3) _ assms(7)]
  have "snd (load_result cfg ctx io (contents s')) = snd (load_result cfg ctx io (contents s)) \<or>
      load_result cfg ctx io (contents s') = (MCONF_OK, saved_image ctx)"
    using save(3) by (auto simp: load_result_def split: if_splits option.splits)
  with load [OF assms(5)] load [OF save(2)] save show ?thesis
    by (auto simp: load_result_def)
qed

theorem restart_loads_old_or_new_witness:
  "\<exists>err p' s' e0 old s0 e1 new s1.
    mconf_load default_config (Some (demo_ctx\<lparr>ctx_data := Some (replicate 20 9)\<rparr>)) (Some fake_io)
      (saved_store\<lparr>fail_after_write := 2\<rparr>) = Some (e0, Some old, s0) \<and>
    mconf_save default_config (Some demo_ctx) (Some fake_io) (saved_store\<lparr>fail_after_write := 2\<rparr>) = Some (err, p', s') \<and>
    mconf_load default_config (Some (demo_ctx\<lparr>ctx_data := Some (replicate 20 9)\<rparr>)) (Some fake_io) s' = Some (e1, Some new, s1) \<and>
    (new = old \<or> (e1 = MCONF_OK \<and> new = demo_ctx\<lparr>ctx_data := Some (saved_image demo_ctx)\<rparr>)) \<and>
    (err = MCONF_OK \<longrightarrow> e1 = MCONF_OK \<and> p' = Some new)"
  by (rule restart_loads_old_or_new [OF fake.torn_backend_axioms demo_ctx_ok demo_io_fits demo_format_fits])
     (use saved_store_ok saved_store_newest(1) in \<open>simp_all add: fake_inv_def\<close>)

text \<open>
  C5. What is saved is what is loaded. When a save reports success on a backend that reads back what it
  holds, a later load into any context of the same schema reports success; every field then has the value
  it had when it was saved: the same bytes for a scalar or a blob, the same characters for a string.
\<close>

theorem save_load_round_trip:
  assumes "readable_backend io contents ok" and "ctx_ok cfg ctx" and "io_fits io ctx" and "format_fits ctx io"
    and "ok s" and "mconf_save cfg (Some ctx) (Some io) s = Some (MCONF_OK, p', s')"
    and "length d = length (ctx_bytes ctx)"
  shows "\<exists>ctx' s''. mconf_load cfg (Some (ctx\<lparr>ctx_data := Some d\<rparr>)) (Some io) s' = Some (MCONF_OK, Some ctx', s'') \<and>
    p' = Some ctx' \<and> ctx_ok cfg ctx' \<and> data_valid cfg (ctx_entries ctx') (ctx_bytes ctx') \<and>
    (\<forall>k < length (ctx_entries ctx). same_value (ctx_entries ctx ! k) (ctx_field ctx' k) (ctx_field ctx k))"
proof -
  have sb: "storage_backend io contents ok" by (rule readable_backend.axioms(1) [OF assms(1)])
  note no_fault = readable_backend.no_read_fault [OF assms(1)]
  note saved = storage_backend.save_OK_stored [OF sb assms(2-5) no_fault assms(6)]
  let ?ctx' = "ctx\<lparr>ctx_data := Some (saved_image ctx)\<rparr>"
  have sv: "saveable cfg ctx"
    using storage_backend.save_total [OF sb assms(2,3,5)] assms(6)
    by (metis (no_types, lifting) option.inject prod.inject save_accepts_def)
  then have valid: "data_valid cfg (ctx_entries ctx) (ctx_bytes ctx)" by (simp add: saveable_def)
  have "load_result cfg ctx io (contents s') = (MCONF_OK, saved_image ctx)"
    using saved(3) by (simp add: load_result_def)
  then obtain s'' where "mconf_load cfg (Some (ctx\<lparr>ctx_data := Some d\<rparr>)) (Some io) s' = Some (MCONF_OK, Some ?ctx', s'')"
    using readable_backend.load_runs [OF assms(1-3) saved(2) assms(7)] by auto
  moreover have "ctx_ok cfg ?ctx'" using saved_image_fields(1) assms(2) by simp
  ultimately show ?thesis
    using saved(1) saved_image_valid [OF assms(2) valid] saved_field_value [OF assms(2) valid]
    by (intro exI [of _ ?ctx'] exI [of _ s'']) simp
qed

theorem save_load_round_trip_witness:
  "\<exists>p' s'. mconf_save default_config (Some demo_ctx) (Some fake_io) fresh_store = Some (MCONF_OK, p', s') \<and>
    (\<exists>ctx' s''. mconf_load default_config (Some (demo_ctx\<lparr>ctx_data := Some (replicate 20 9)\<rparr>)) (Some fake_io) s' =
        Some (MCONF_OK, Some ctx', s'') \<and>
      p' = Some ctx' \<and> ctx_ok default_config ctx' \<and> data_valid default_config (ctx_entries ctx') (ctx_bytes ctx') \<and>
      (\<forall>k < length (ctx_entries demo_ctx).
         same_value (ctx_entries demo_ctx ! k) (ctx_field ctx' k) (ctx_field demo_ctx k)))"
proof -
  obtain p' s' where save: "mconf_save default_config (Some demo_ctx) (Some fake_io) fresh_store = Some (MCONF_OK, p', s')"
    using fault_free.save_succeeds [OF demo_ctx_ok demo_io_fits demo_format_fits fresh_store_fault_free demo_accepts]
    by blast
  from save_load_round_trip [OF fault_free.readable_backend_axioms demo_ctx_ok demo_io_fits demo_format_fits
      fresh_store_fault_free save, of "replicate 20 9"] save
  show ?thesis by auto
qed

text \<open>
  C7. Saving is total: on a backend that does not fail, \<open>mconf_save\<close> reports success exactly for the
  contexts whose data is valid, whose types the build can store and whose record fits a slot, and
  otherwise reports an error and leaves the context and the medium as they were.
\<close>

theorem save_succeeds_iff:
  assumes "reliable_backend io contents ok" and "ctx_ok cfg ctx" and "io_fits io ctx" and "format_fits ctx io"
    and "ok s"
  shows "\<exists>err p' s'. mconf_save cfg (Some ctx) (Some io) s = Some (err, p', s') \<and>
    (err = MCONF_OK \<longleftrightarrow> save_accepts cfg ctx io) \<and>
    (err \<noteq> MCONF_OK \<longrightarrow> p' = Some ctx \<and> contents s' = contents s)"
proof (cases "save_accepts cfg ctx io")
  case True
  from reliable_backend.save_succeeds [OF assms True] show ?thesis using True by auto
next
  case False
  have "storage_backend io contents ok"
    by (rule readable_backend.axioms(1) [OF reliable_backend.axioms(1) [OF assms(1)]])
  from storage_backend.save_runs [OF this assms(2,3,5)] False show ?thesis by (metis (no_types, lifting))
qed

theorem save_succeeds_iff_witness:
  "\<exists>err p' s'. mconf_save default_config (Some demo_ctx) (Some fake_io) fresh_store = Some (err, p', s') \<and>
    (err = MCONF_OK \<longleftrightarrow> save_accepts default_config demo_ctx fake_io) \<and>
    (err \<noteq> MCONF_OK \<longrightarrow> p' = Some demo_ctx \<and> fs_bytes s' = fs_bytes fresh_store)"
  by (rule save_succeeds_iff [OF fault_free.reliable_backend_axioms demo_ctx_ok demo_io_fits demo_format_fits
        fresh_store_fault_free])

text \<open>
  C6. Loading computes the specification: on a backend whose reads succeed, \<open>mconf_load\<close> returns the newest
  record of the two slots that reads, and if there is none the defaults with an error that says why; the
  old data of the context does not matter and the medium is not changed.
\<close>

theorem load_refines_spec:
  assumes "readable_backend io contents ok" and "ctx_ok cfg ctx" and "io_fits io ctx" and "ok s"
    and "length d = length (ctx_bytes ctx)"
  shows "\<exists>s'. mconf_load cfg (Some (ctx\<lparr>ctx_data := Some d\<rparr>)) (Some io) s =
    Some (fst (load_result cfg ctx io (contents s)),
          Some (ctx\<lparr>ctx_data := Some (snd (load_result cfg ctx io (contents s)))\<rparr>), s') \<and>
    ok s' \<and> contents s' = contents s"
  by (rule readable_backend.load_runs [OF assms])

theorem load_refines_spec_witness:
  "\<exists>s'. mconf_load default_config (Some (demo_ctx\<lparr>ctx_data := Some (replicate 20 3)\<rparr>)) (Some fake_io) saved_store =
    Some (fst (load_result default_config demo_ctx fake_io (fs_bytes saved_store)),
          Some (demo_ctx\<lparr>ctx_data := Some (snd (load_result default_config demo_ctx fake_io (fs_bytes saved_store)))\<rparr>), s') \<and>
    fake_inv s' \<and> fs_bytes s' = fs_bytes saved_store"
  by (rule load_refines_spec [OF fake.readable_backend_axioms demo_ctx_ok demo_io_fits saved_store_ok]) simp

text \<open>
  C9. Loading is safe on any backend, even one whose reads fail at will: it returns, keeps the context
  well-formed and the medium as it was, reports success only with valid data that one of the two slots
  holds, and otherwise leaves the defaults with one of three errors. \<open>MCONF_ERR_CRC\<close> is never among them.
\<close>

theorem load_safe_any_backend:
  assumes "storage_backend io contents ok" and "ctx_ok cfg ctx" and "io_fits io ctx" and "ok s"
  shows "\<exists>err ctx' s'. mconf_load cfg (Some ctx) (Some io) s = Some (err, Some ctx', s') \<and>
    ctx_ok cfg ctx' \<and> ok s' \<and> contents s' = contents s \<and>
    (if err = MCONF_OK
     then data_valid cfg (ctx_entries ctx') (ctx_bytes ctx') \<and>
       (\<exists>slot info. slot \<in> {0, 1} \<and> slot_record cfg ctx io (contents s) slot True = Some (info, ctx_bytes ctx'))
     else ctx_bytes ctx' = defaults_image ctx \<and>
       err \<in> {MCONF_ERR_VERSION, MCONF_ERR_MAGIC, MCONF_ERR_INVALID})"
proof (rule storage_backend.load_eq [OF assms])
  fix err d s'
  assume load: "mconf_load cfg (Some ctx) (Some io) s = Some (err, Some (ctx\<lparr>ctx_data := Some d\<rparr>), s')"
    "length d = length (ctx_bytes ctx)" "ok s'" "contents s' = contents s"
    and OK: "err = MCONF_OK \<Longrightarrow>
      \<exists>slot info. slot \<in> {0, 1} \<and> slot_record cfg ctx io (contents s) slot True = Some (info, d)"
    and bad: "err \<noteq> MCONF_OK \<Longrightarrow>
      d = defaults_image ctx \<and> err \<in> {MCONF_ERR_VERSION, MCONF_ERR_MAGIC, MCONF_ERR_INVALID}"
  have "data_valid cfg (ctx_entries ctx) d" if "err = MCONF_OK"
    using OK [OF that] slot_record_valid(2) [OF assms(2)] by blast
  with load OK bad assms(2) show ?thesis
    by (intro exI [of _ err] exI [of _ "ctx\<lparr>ctx_data := Some d\<rparr>"] exI [of _ s']) simp
qed

theorem load_safe_any_backend_witness:
  "\<exists>err ctx' s'. mconf_load default_config (Some demo_ctx) (Some fake_io) fresh_store = Some (err, Some ctx', s') \<and>
    ctx_ok default_config ctx' \<and> fake_inv s' \<and> fs_bytes s' = fs_bytes fresh_store \<and>
    (if err = MCONF_OK
     then data_valid default_config (ctx_entries ctx') (ctx_bytes ctx') \<and>
       (\<exists>slot info. slot \<in> {0, 1} \<and>
          slot_record default_config demo_ctx fake_io (fs_bytes fresh_store) slot True = Some (info, ctx_bytes ctx'))
     else ctx_bytes ctx' = defaults_image demo_ctx \<and>
       err \<in> {MCONF_ERR_VERSION, MCONF_ERR_MAGIC, MCONF_ERR_INVALID})"
  by (rule load_safe_any_backend [OF fake.storage_backend_axioms demo_ctx_ok demo_io_fits])
     (simp add: fake_inv_def fresh_store_def)

text \<open>
  C8. Saving is safe on any backend: it returns, keeps the context well-formed and touches at most one of
  the two slots, so that the record of the other one survives any failure. It reports success only when
  the slot holds the complete committed record of the context.
\<close>

theorem save_safe_any_backend:
  assumes "storage_backend io contents ok" and "ctx_ok cfg ctx" and "io_fits io ctx" and "ok s"
  shows "\<exists>err ctx' slot s'. mconf_save cfg (Some ctx) (Some io) s = Some (err, Some ctx', s') \<and>
    ctx_ok cfg ctx' \<and> ok s' \<and> slot \<in> {0, 1} \<and>
    slot_bytes io (contents s') (1 - slot) = slot_bytes io (contents s) (1 - slot) \<and>
    same_outside (contents s) (contents s') (slot_offset io slot) (unat (slot_size io)) \<and>
    (err = MCONF_OK \<longrightarrow> save_accepts cfg ctx io \<and> data_valid cfg (ctx_entries ctx') (ctx_bytes ctx') \<and>
      (\<exists>g. chunk (contents s') (slot_offset io slot) (length (record_bytes cfg ctx g MCONF_STORAGE_STATE_COMMITTED)) =
         record_bytes cfg ctx g MCONF_STORAGE_STATE_COMMITTED))"
proof (rule storage_backend.save_total [OF assms])
  fix err d slot s'
  assume save: "mconf_save cfg (Some ctx) (Some io) s = Some (err, Some (ctx\<lparr>ctx_data := Some d\<rparr>), s')"
    "length d = length (ctx_bytes ctx)" "ok s'" "slot \<in> {0, 1}"
    and frame: "same_outside (contents s) (contents s') (slot_offset io slot) (unat (slot_size io))"
    and OK: "err = MCONF_OK \<Longrightarrow> save_accepts cfg ctx io \<and> data_valid cfg (ctx_entries ctx) d \<and>
      (\<exists>g. chunk (contents s') (slot_offset io slot) (length (record_bytes cfg ctx g MCONF_STORAGE_STATE_COMMITTED)) =
         record_bytes cfg ctx g MCONF_STORAGE_STATE_COMMITTED)"
  note kept = other_slot_kept(1) [OF assms(3) save(4) storage_backend.contents_size [OF assms(1,4)] frame]
  show ?thesis
    by (rule exI [of _ err], rule exI [of _ "ctx\<lparr>ctx_data := Some d\<rparr>"], rule exI [of _ slot], rule exI [of _ s'])
       (use save frame OK kept assms(2) in simp)
qed

theorem save_safe_any_backend_witness:
  "\<exists>err ctx' slot s'. mconf_save default_config (Some demo_ctx) (Some fake_io) fresh_store = Some (err, Some ctx', s') \<and>
    ctx_ok default_config ctx' \<and> fake_inv s' \<and> slot \<in> {0, 1} \<and>
    slot_bytes fake_io (fs_bytes s') (1 - slot) = slot_bytes fake_io (fs_bytes fresh_store) (1 - slot) \<and>
    same_outside (fs_bytes fresh_store) (fs_bytes s') (slot_offset fake_io slot) (unat (slot_size fake_io)) \<and>
    (err = MCONF_OK \<longrightarrow> save_accepts default_config demo_ctx fake_io \<and>
      data_valid default_config (ctx_entries ctx') (ctx_bytes ctx') \<and>
      (\<exists>g. chunk (fs_bytes s') (slot_offset fake_io slot)
          (length (record_bytes default_config demo_ctx g MCONF_STORAGE_STATE_COMMITTED)) =
         record_bytes default_config demo_ctx g MCONF_STORAGE_STATE_COMMITTED))"
  by (rule save_safe_any_backend [OF fake.storage_backend_axioms demo_ctx_ok demo_io_fits])
     (simp add: fake_inv_def fresh_store_def)

end
